(* ===== verification/Prelude.thy ===== *)
theory Prelude
  imports Main "HOL-Library.Word" "HOL-Library.Sublist"
begin

text \<open>
  What every component of the development shares: the Go types whose width or shape matters,
  the string functions of Go's standard library that the operator calls (\<open>strconv\<close>,
  \<open>strings\<close>, the \<open>%d\<close> verb of \<open>fmt\<close>), and generic facts about lists and strings.
  A Go string is the list of its bytes, so \<open>length\<close> is Go's \<open>len\<close>.
\<close>

type_synonym int32 = "32 word"
type_synonym int64 = "64 word"

text \<open>The run-time panics of Go that the operator's code can raise.\<close>

datatype panic = NilDereference | IndexOutOfRange | TypeAssertion

named_theorems validation_simps
named_theorems resource_simps
named_theorems op_simps

section \<open>Printing integers\<close>

definition digit_char :: "nat \<Rightarrow> char" where
  "digit_char d = char_of (48 + d)"

text \<open>The decimal digits of a natural number, as \<open>strconv.FormatInt(_, 10)\<close> prints them.\<close>

fun dec :: "nat \<Rightarrow> string" where
  "dec n = (if n < 10 then [digit_char n] else dec (n div 10) @ [digit_char (n mod 10)])"

declare dec.simps [simp del]

definition itoa :: "int \<Rightarrow> string" where
  "itoa i = (if i < 0 then ''-'' @ dec (nat (- i)) else dec (nat i))"

definition is_digit :: "char \<Rightarrow> bool" where
  "is_digit c \<longleftrightarrow> 48 \<le> (of_char c :: nat) \<and> (of_char c :: nat) \<le> 57"

definition digit_val :: "char \<Rightarrow> nat" where
  "digit_val c = (of_char c :: nat) - 48"

text \<open>The value of a string of digits, most significant digit first.\<close>

definition undec :: "string \<Rightarrow> nat" where
  "undec s = foldl (\<lambda>n c. 10 * n + digit_val c) 0 s"

lemma digit_char_0 [simp]: "digit_char 0 = CHR ''0''"
  by code_simp

lemma of_char_digit_char [simp]:
  "d < 10 \<Longrightarrow> (of_char (digit_char d) :: nat) = 48 + d"
  by (simp add: digit_char_def)

lemma digit_val_digit_char [simp]: "d < 10 \<Longrightarrow> digit_val (digit_char d) = d"
  by (simp add: digit_val_def)

lemma is_digit_digit_char [simp]: "d < 10 \<Longrightarrow> is_digit (digit_char d)"
  by (simp add: is_digit_def)

lemma undec_snoc [simp]: "undec (s @ [c]) = 10 * undec s + digit_val c"
  by (simp add: undec_def)

lemma dec_digits: "c \<in> set (dec n) \<Longrightarrow> is_digit c"
proof (induction n rule: dec.induct)
  case (1 n)
  then show ?case
    by (subst (asm) dec.simps) (auto split: if_splits)
qed

lemma dec_nonempty [simp]: "dec n \<noteq> []"
  by (subst dec.simps) simp

lemma undec_dec [simp]: "undec (dec n) = n"
proof (induction n rule: dec.induct)
  case (1 n)
  show ?case
  proof (cases "n < 10")
    case True
    then show ?thesis by (subst dec.simps) (simp add: undec_def)
  next
    case False
    with 1 show ?thesis by (subst dec.simps) simp
  qed
qed

lemma dec_inject [simp]: "dec m = dec n \<longleftrightarrow> m = n"
  using undec_dec by metis

lemma not_digit_minus [simp]: "\<not> is_digit CHR ''-''"
  by (simp add: is_digit_def)

lemma dec_hd: "dec n = c # cs \<Longrightarrow> is_digit c"
  using dec_digits [of c n] by simp

lemma itoa_nonneg: "0 \<le> i \<Longrightarrow> itoa i = dec (nat i)"
  by (simp add: itoa_def)

lemma itoa_inject [simp]: "itoa i = itoa j \<longleftrightarrow> i = j"
proof -
  have neq: "CHR ''-'' # s \<noteq> dec n" for s n
    by (metis dec_hd not_digit_minus)
  show ?thesis
    by (auto simp: itoa_def neq neq [symmetric] eq_nat_nat_iff)
qed

section \<open>Reading integers\<close>

text \<open>
  \<open>strconv.Atoi\<close> on a 64-bit machine: an optional sign, then one or more decimal digits, with
  an error for any other character and for a value that an \<open>int64\<close> cannot hold.
\<close>

datatype atoi_error = ErrSyntax | ErrRange

definition Atoi :: "string \<Rightarrow> atoi_error + int" where
  "Atoi s =
     (let neg = (s \<noteq> [] \<and> hd s = CHR ''-'');
          body = (if s \<noteq> [] \<and> (hd s = CHR ''-'' \<or> hd s = CHR ''+'') then tl s else s);
          v = (if neg then - int (undec body) else int (undec body))
      in if body = [] \<or> \<not> list_all is_digit body then Inl ErrSyntax
         else if v < - (2 ^ 63) \<or> 2 ^ 63 \<le> v then Inl ErrRange
         else Inr v)"

lemma list_all_dec [simp]: "list_all is_digit (dec n)"
  by (auto simp: list_all_iff dest: dec_digits)

lemma dec_no_sign: "hd (dec n) \<noteq> CHR ''-''" "hd (dec n) \<noteq> CHR ''+''"
  by (cases "dec n"; use dec_hd [of n] in \<open>force simp: is_digit_def\<close>)+

lemma Atoi_dec: "int n < 2 ^ 63 \<Longrightarrow> Atoi (dec n) = Inr (int n)"
  by (simp add: Atoi_def Let_def dec_no_sign)

lemma Atoi_itoa: "- (2 ^ 63) \<le> i \<Longrightarrow> i < 2 ^ 63 \<Longrightarrow> Atoi (itoa i) = Inr i"
  by (auto simp: Atoi_def Let_def itoa_def dec_no_sign nat_le_iff)

section \<open>Strings\<close>

definition HasSuffix :: "string \<Rightarrow> string \<Rightarrow> bool" where
  "HasSuffix s suf \<longleftrightarrow> suffix suf s"

text \<open>
  \<open>strings.Replace(s, old, new, -1)\<close> for a non-empty \<open>old\<close>: every non-overlapping occurrence,
  from the left. (The operator never passes an empty \<open>old\<close>, for which the model leaves \<open>s\<close>.)
\<close>

function ReplaceAll :: "string \<Rightarrow> string \<Rightarrow> string \<Rightarrow> string" where
  "ReplaceAll s old new =
     (if s = [] \<or> old = [] then s
      else if prefix old s then new @ ReplaceAll (drop (length old) s) old new
      else hd s # ReplaceAll (tl s) old new)"
  by pat_completeness auto
termination
  by (relation "measure (\<lambda>(s, old, new). length s)") auto

declare ReplaceAll.simps [simp del]

fun Join :: "string list \<Rightarrow> string \<Rightarrow> string" where
  "Join [] sep = []"
| "Join [s] sep = s"
| "Join (s # t # ss) sep = s @ sep @ Join (t # ss) sep"

text \<open>\<open>strings.Split(s, sep)\<close> for a separator of one byte.\<close>

fun Split :: "string \<Rightarrow> char \<Rightarrow> string list" where
  "Split [] sep = [[]]"
| "Split (c # cs) sep =
     (if c = sep then [] # Split cs sep
      else (case Split cs sep of [] \<Rightarrow> [[c]] | w # ws \<Rightarrow> (c # w) # ws))"

lemma Split_nonempty [simp]: "Split s sep \<noteq> []"
  by (induction s) (auto split: list.splits)

lemma Split_no_sep: "sep \<notin> set s \<Longrightarrow> Split s sep = [s]"
  by (induction s) auto

lemma Split_append_sep: "sep \<notin> set s \<Longrightarrow> Split (s @ sep # t) sep = s # Split t sep"
  by (induction s) auto

lemma Split_Join:
  "ss \<noteq> [] \<Longrightarrow> \<forall>s \<in> set ss. sep \<notin> set s \<Longrightarrow> Split (Join ss [sep]) sep = ss"
  by (induction ss "[sep]" rule: Join.induct) (auto simp: Split_no_sep Split_append_sep)

text \<open>Replacing what does not occur changes nothing.\<close>

lemma ReplaceAll_absent: "\<not> sublist old s \<Longrightarrow> ReplaceAll s old new = s"
proof (induction s old new rule: ReplaceAll.induct)
  case (1 s old new)
  show ?case
  proof (cases "s = [] \<or> old = []")
    case True
    then show ?thesis by (subst ReplaceAll.simps) simp
  next
    case False
    then obtain c cs where s: "s = c # cs" by (cases s) auto
    have np: "\<not> prefix old s" using "1.prems" by auto
    have "\<not> sublist old (tl s)"
      using "1.prems" s by (auto simp: sublist_Cons_right)
    with 1(2) False np have "ReplaceAll (tl s) old new = tl s" by blast
    with False np s show ?thesis by (subst ReplaceAll.simps) simp
  qed
qed

section \<open>Lists\<close>

lemma find_Some_iff_filter: "find P xs = Some x \<Longrightarrow> x \<in> set xs \<and> P x"
  by (auto simp: find_Some_iff)

lemma distinct_map_unique:
  "distinct (map f xs) \<Longrightarrow> x \<in> set xs \<Longrightarrow> y \<in> set xs \<Longrightarrow> f x = f y \<Longrightarrow> x = y"
  by (auto simp: distinct_map inj_on_def)

section \<open>Lists\<close>

definition nth_opt :: "'a list \<Rightarrow> nat \<Rightarrow> 'a option" where
  "nth_opt xs i = (if i < length xs then Some (xs ! i) else None)"

lemma nth_opt_Some [simp]: "nth_opt xs i = Some x \<longleftrightarrow> i < length xs \<and> xs ! i = x"
  by (auto simp: nth_opt_def)

lemma map_of_list_update:
  assumes "distinct (map fst ws)" and "j < length ws" and "ws ! j = (k, a)"
  shows "map_of (ws[j := (k, b)]) = (map_of ws)(k \<mapsto> b)"
  using assms
proof (induction ws arbitrary: j)
  case (Cons w ws)
  then show ?case
  proof (cases j)
    case (Suc i)
    with Cons.prems have "k \<in> fst ` set ws" by (metis fst_conv image_eqI length_Cons not_less_eq nth_Cons_Suc nth_mem)
    with Cons.prems have "fst w \<noteq> k" by auto
    with Cons Suc show ?thesis by (cases w) (auto simp: fun_upd_twist)
  qed auto
qed simp

lemma map_fst_list_update:
  "j < length ws \<Longrightarrow> ws ! j = (k, a) \<Longrightarrow> map fst (ws[j := (k, b)]) = map fst ws"
  by (metis fst_conv list_update_id map_update nth_map)

end
