(* ===== verification/ConfigHash.thy ===== *)
theory ConfigHash
  imports Prelude "HOL-Library.Finite_Map" "HOL-Library.List_Lexorder" "HOL-Library.Char_ord"
begin

text \<open>
  The hash that ties a rack's pods to the content of the cluster's custom config map, after
  \<^verbatim>\<open>cassandra-operator/pkg/operator/hash/configmap_hash.go\<close>. What the file uses of Go's standard
  library is modelled too: \<open>json.Marshal\<close> of a map (keys in order, strings escaped for HTML,
  byte slices in base64) and \<open>sha256.Sum256\<close> printed with the verb \<open>x\<close>.
\<close>

unbundle bit_operations_syntax

section \<open>Config maps\<close>

text \<open>
  \<open>Data\<close> is a Go map, which may be nil; only the length of \<open>BinaryData\<close> is looked at before it
  is encoded, so a nil map and an empty one need not be told apart there. Its values are byte
  slices, which may be nil.
\<close>

record ConfigMap =
  cm_Name :: string
  cm_Namespace :: string
  Data :: "(string, string) fmap option"
  BinaryData :: "(string, string option) fmap"

section \<open>JSON\<close>

text \<open>The length of the UTF-8 sequence at the head of a byte string, 0 when it is malformed.\<close>

definition cont :: "nat \<Rightarrow> bool" where
  "cont b \<longleftrightarrow> 0x80 \<le> b \<and> b \<le> 0xBF"

fun utf8_len :: "nat list \<Rightarrow> nat" where
  "utf8_len [] = 0"
| "utf8_len (b0 # bs) =
     (if b0 < 0x80 then 1
      else if 0xC2 \<le> b0 \<and> b0 \<le> 0xDF then
        (case bs of b1 # _ \<Rightarrow> (if cont b1 then 2 else 0) | _ \<Rightarrow> 0)
      else if 0xE0 \<le> b0 \<and> b0 \<le> 0xEF then
        (case bs of b1 # b2 # _ \<Rightarrow>
           (if (if b0 = 0xE0 then 0xA0 else 0x80) \<le> b1 \<and>
               b1 \<le> (if b0 = 0xED then 0x9F else 0xBF) \<and> cont b2 then 3 else 0)
         | _ \<Rightarrow> 0)
      else if 0xF0 \<le> b0 \<and> b0 \<le> 0xF4 then
        (case bs of b1 # b2 # b3 # _ \<Rightarrow>
           (if (if b0 = 0xF0 then 0x90 else 0x80) \<le> b1 \<and>
               b1 \<le> (if b0 = 0xF4 then 0x8F else 0xBF) \<and> cont b2 \<and> cont b3 then 4 else 0)
         | _ \<Rightarrow> 0)
      else 0)"

definition backslash :: char where "backslash = CHR 0x5C"
definition dquote :: char where "dquote = CHR 0x22"

definition hex_char :: "nat \<Rightarrow> char" where
  "hex_char d = (if d < 10 then char_of (48 + d) else char_of (87 + d))"

definition json_ascii :: "nat \<Rightarrow> string" where
  "json_ascii b =
     (if b = 0x22 \<or> b = 0x5C then [backslash, char_of b]
      else if b = 10 then [backslash, CHR ''n'']
      else if b = 13 then [backslash, CHR ''r'']
      else if b = 9 then [backslash, CHR ''t'']
      else if b < 0x20 \<or> b = 0x3C \<or> b = 0x3E \<or> b = 0x26
        then backslash # ''u00'' @ [hex_char (b div 16), hex_char (b mod 16)]
      else [char_of b])"

function json_chars :: "nat list \<Rightarrow> string" where
  "json_chars bs =
     (if bs = [] then []
      else if utf8_len bs = 0 then backslash # ''ufffd'' @ json_chars (tl bs)
      else if utf8_len bs = 1 then json_ascii (hd bs) @ json_chars (tl bs)
      else if take 3 bs = [0xE2, 0x80, 0xA8] then backslash # ''u2028'' @ json_chars (drop 3 bs)
      else if take 3 bs = [0xE2, 0x80, 0xA9] then backslash # ''u2029'' @ json_chars (drop 3 bs)
      else map char_of (take (utf8_len bs) bs) @ json_chars (drop (utf8_len bs) bs))"
  by pat_completeness auto
termination
  by (relation "measure length") auto

declare json_chars.simps [simp del]

definition json_string :: "string \<Rightarrow> string" where
  "json_string s = dquote # json_chars (map of_char s) @ [dquote]"

definition b64_char :: "nat \<Rightarrow> char" where
  "b64_char n =
     (if n < 26 then char_of (65 + n) else if n < 52 then char_of (71 + n)
      else if n < 62 then char_of (n - 4) else if n = 62 then CHR ''+'' else CHR ''/'')"

fun base64 :: "nat list \<Rightarrow> string" where
  "base64 [] = []"
| "base64 [a] = [b64_char (a div 4), b64_char (a mod 4 * 16), CHR ''='', CHR ''='']"
| "base64 [a, b] =
     [b64_char (a div 4), b64_char (a mod 4 * 16 + b div 16), b64_char (b mod 16 * 4), CHR ''='']"
| "base64 (a # b # c # rest) =
     [b64_char (a div 4), b64_char (a mod 4 * 16 + b div 16),
      b64_char (b mod 16 * 4 + c div 64), b64_char (c mod 64)] @ base64 rest"

definition json_bytes :: "string option \<Rightarrow> string" where
  "json_bytes v = (case v of None \<Rightarrow> ''null''
     | Some s \<Rightarrow> dquote # base64 (map of_char s) @ [dquote])"

definition json_object :: "(string \<times> string) list \<Rightarrow> string" where
  "json_object kvs =
     CHR 0x7B # Join (map (\<lambda>(k, v). json_string k @ '':'' @ v) kvs) '','' @ [CHR 0x7D]"

text \<open>\<open>encodeConfigMap\<close>: the keys come out in order, \<open>binaryData\<close> first and \<open>name\<close> last.\<close>

definition encodeConfigMap :: "ConfigMap \<Rightarrow> string" where
  "encodeConfigMap cm =
     json_object
       ((if BinaryData cm \<noteq> fmempty
         then [(''binaryData'',
                json_object (map (\<lambda>(k, v). (k, json_bytes v)) (sorted_list_of_fmap (BinaryData cm))))]
         else []) @
        [(''data'',
          (case Data cm of
             None \<Rightarrow> ''null''
           | Some m \<Rightarrow> json_object (map (\<lambda>(k, v). (k, json_string v)) (sorted_list_of_fmap m)))),
         (''name'', json_string (cm_Name cm))])"

section \<open>SHA-256\<close>

type_synonym u32 = "32 word"

definition rotr32 :: "nat \<Rightarrow> u32 \<Rightarrow> u32" where
  "rotr32 n x = drop_bit n x OR push_bit (32 - n) x"

text \<open>
  The constants of FIPS 180-4 by their definition: the first 32 bits of the fractional parts of
  the cube roots of the first 64 primes, and of the square roots of the first eight.
  \<open>int_root k m n b\<close> is the greatest number below \<open>2 ^ b\<close> whose \<open>k\<close>-th power \<open>n\<close> bounds, found
  bit by bit on top of \<open>m\<close>.
\<close>

fun int_root :: "nat \<Rightarrow> int \<Rightarrow> int \<Rightarrow> nat \<Rightarrow> int" where
  "int_root k m n 0 = m"
| "int_root k m n (Suc b) = int_root k (if (m + 2 ^ b) ^ k \<le> n then m + 2 ^ b else m) n b"

definition primes_upto :: "int \<Rightarrow> int list" where
  "primes_upto n = filter (\<lambda>p. list_all (\<lambda>d. p mod d \<noteq> 0) [2..p - 1]) [2..n]"

definition root_fraction :: "nat \<Rightarrow> int \<Rightarrow> u32" where
  "root_fraction k p = of_int (int_root k 0 (p * 2 ^ (32 * k)) 38)"

definition round_constants :: "u32 list" where
  "round_constants = map (root_fraction 3) (primes_upto 311)"

definition initial_hash :: "u32 list" where
  "initial_hash = map (root_fraction 2) (primes_upto 19)"

definition be_bytes :: "nat \<Rightarrow> int \<Rightarrow> int list" where
  "be_bytes k n = map (\<lambda>i. n div 256 ^ (k - 1 - i) mod 256) [0..<k]"

definition pad_message :: "int list \<Rightarrow> int list" where
  "pad_message bs =
     bs @ [0x80] @ replicate ((119 - length bs mod 64) mod 64) 0 @ be_bytes 8 (8 * int (length bs))"

fun words_of :: "int list \<Rightarrow> u32 list" where
  "words_of (a # b # c # d # rest) =
     of_int (((a * 256 + b) * 256 + c) * 256 + d) # words_of rest"
| "words_of _ = []"

definition small_sigma0 :: "u32 \<Rightarrow> u32" where
  "small_sigma0 x = rotr32 7 x XOR rotr32 18 x XOR drop_bit 3 x"

definition small_sigma1 :: "u32 \<Rightarrow> u32" where
  "small_sigma1 x = rotr32 17 x XOR rotr32 19 x XOR drop_bit 10 x"

text \<open>The message schedule, the newest word first.\<close>

fun msg_schedule :: "nat \<Rightarrow> u32 list \<Rightarrow> u32 list" where
  "msg_schedule 0 w = w"
| "msg_schedule (Suc n) w =
     msg_schedule n ((small_sigma1 (w ! 1) + w ! 6 + small_sigma0 (w ! 14) + w ! 15) # w)"

fun sha_round :: "u32 list \<Rightarrow> u32 \<times> u32 \<Rightarrow> u32 list" where
  "sha_round [a, b, c, d, e, f, g, h] (k, w) =
     (let t1 = h + (rotr32 6 e XOR rotr32 11 e XOR rotr32 25 e) +
               ((e AND f) XOR (NOT e AND g)) + k + w;
          t2 = (rotr32 2 a XOR rotr32 13 a XOR rotr32 22 a) +
               ((a AND b) XOR (a AND c) XOR (b AND c))
      in [t1 + t2, a, b, c, d + t1, e, f, g])"
| "sha_round hs _ = hs"

definition compress :: "u32 list \<Rightarrow> u32 list \<Rightarrow> u32 list" where
  "compress hs block =
     map2 (+) hs (foldl sha_round hs (zip round_constants (rev (msg_schedule 48 (rev block)))))"

fun sha_blocks :: "nat \<Rightarrow> u32 list \<Rightarrow> u32 list \<Rightarrow> u32 list" where
  "sha_blocks 0 hs ws = hs"
| "sha_blocks (Suc n) hs ws = sha_blocks n (compress hs (take 16 ws)) (drop 16 ws)"

definition Sum256 :: "string \<Rightarrow> u32 list" where
  "Sum256 s =
     (let ws = words_of (pad_message (map of_char s))
      in sha_blocks (length ws div 16) initial_hash ws)"

definition hex_word :: "u32 \<Rightarrow> string" where
  "hex_word w = map (\<lambda>i. hex_char (nat (uint w div 16 ^ (7 - i) mod 16))) [0..<8]"

definition hash :: "string \<Rightarrow> string" where
  "hash data = concat (map hex_word (Sum256 data))"

text \<open>\<open>ConfigMapHash\<close>: a nil config map hashes to the empty string.\<close>

definition ConfigMapHash :: "ConfigMap option \<Rightarrow> string" where
  "ConfigMapHash cm = (case cm of None \<Rightarrow> [] | Some m \<Rightarrow> hash (encodeConfigMap m))"

section \<open>Lemmas\<close>

lemma length_sha_round [simp]: "length (sha_round hs kw) = length hs"
  by (induction hs kw rule: sha_round.induct) (simp_all add: Let_def)

lemma length_sha_rounds: "length (foldl sha_round hs kws) = length hs"
  by (induction kws arbitrary: hs) simp_all

lemma length_compress [simp]: "length (compress hs block) = length hs"
  by (simp add: compress_def length_sha_rounds)

lemma length_sha_blocks [simp]: "length (sha_blocks n hs ws) = length hs"
  by (induction n arbitrary: hs ws) simp_all

lemma length_initial_hash: "length initial_hash = 8"
  by code_simp

lemma length_hash: "length (hash s) = 64"
  by (simp add: hash_def Sum256_def Let_def length_concat comp_def hex_word_def length_initial_hash
      sum_list_triv)

text \<open>The digest depends on the encoding only: the namespace and other metadata play no part.\<close>

lemma encodeConfigMap_namespace [simp]:
  "encodeConfigMap (cm\<lparr>cm_Namespace := ns\<rparr>) = encodeConfigMap cm"
  by (simp add: encodeConfigMap_def)

end
