(* ===== verification/NodeStatus.thy ===== *)
theory NodeStatus
  imports ConfigHash
begin

text \<open>
  The status of a Cassandra node as its metrics report it, after
  \<^verbatim>\<open>cassandra-operator/pkg/metrics/nodestatus.go\<close>: liveness and state labels, and the merge of
  the five lists of addresses that Cassandra gives into one status per address.
\<close>

section \<open>Statuses and labels\<close>

record nodeStatus =
  ns_up :: bool
  ns_down :: bool
  ns_joining :: bool
  ns_leaving :: bool
  ns_moving :: bool

definition zero_nodeStatus :: nodeStatus where
  "zero_nodeStatus = \<lparr>ns_up = False, ns_down = False, ns_joining = False, ns_leaving = False,
     ns_moving = False\<rparr>"

record labelPair =
  liveness :: string
  state :: string

definition normal :: "nodeStatus \<Rightarrow> bool" where
  "normal n \<longleftrightarrow> \<not> ns_joining n \<and> \<not> ns_leaving n \<and> \<not> ns_moving n"

definition livenessLabel :: "nodeStatus \<Rightarrow> string" where
  "livenessLabel n = (if ns_up n then ''up'' else ''down'')"

definition stateLabel :: "nodeStatus \<Rightarrow> string" where
  "stateLabel n =
     (if ns_joining n then ''joining''
      else if ns_leaving n then ''leaving''
      else if ns_moving n then ''moving''
      else ''normal'')"

definition allLabelPairs :: "labelPair list" where
  "allLabelPairs =
     [\<lparr>liveness = ''up'', state = ''normal''\<rparr>, \<lparr>liveness = ''up'', state = ''joining''\<rparr>,
      \<lparr>liveness = ''up'', state = ''leaving''\<rparr>, \<lparr>liveness = ''up'', state = ''moving''\<rparr>,
      \<lparr>liveness = ''down'', state = ''normal''\<rparr>, \<lparr>liveness = ''down'', state = ''joining''\<rparr>,
      \<lparr>liveness = ''down'', state = ''leaving''\<rparr>, \<lparr>liveness = ''down'', state = ''moving''\<rparr>]"

definition applicable :: "nodeStatus \<Rightarrow> labelPair" where
  "applicable n = \<lparr>liveness = livenessLabel n, state = stateLabel n\<rparr>"

definition unapplicableLabelPairs :: "nodeStatus \<Rightarrow> labelPair list" where
  "unapplicableLabelPairs n = filter (\<lambda>l. l \<noteq> applicable n) allLabelPairs"

section \<open>From address lists to statuses\<close>

record clusterStatus =
  nodeRacks :: "(string, string) fmap"
  liveNodes :: "string list"
  unreachableNodes :: "string list"
  joiningNodes :: "string list"
  leavingNodes :: "string list"
  movingNodes :: "string list"

text \<open>One pass of the merge: every address of the list gets a status, which is then changed.\<close>

definition mark ::
    "(nodeStatus \<Rightarrow> nodeStatus) \<Rightarrow> string \<Rightarrow> (string, nodeStatus) fmap \<Rightarrow> (string, nodeStatus) fmap" where
  "mark f ip m =
     fmupd ip (f (case fmlookup m ip of None \<Rightarrow> zero_nodeStatus | Some n \<Rightarrow> n)) m"

definition set_live :: "nodeStatus \<Rightarrow> nodeStatus" where
  "set_live n = n\<lparr>ns_up := True, ns_down := False\<rparr>"
definition set_unreachable :: "nodeStatus \<Rightarrow> nodeStatus" where
  "set_unreachable n = n\<lparr>ns_up := False, ns_down := True\<rparr>"
definition set_leaving :: "nodeStatus \<Rightarrow> nodeStatus" where
  "set_leaving n = n\<lparr>ns_leaving := True, ns_joining := False, ns_moving := False\<rparr>"
definition set_moving :: "nodeStatus \<Rightarrow> nodeStatus" where
  "set_moving n = n\<lparr>ns_moving := True, ns_joining := False, ns_leaving := False\<rparr>"
definition set_joining :: "nodeStatus \<Rightarrow> nodeStatus" where
  "set_joining n = n\<lparr>ns_joining := True, ns_moving := False, ns_leaving := False\<rparr>"

definition transformClusterStatus :: "clusterStatus \<Rightarrow> (string, nodeStatus) fmap" where
  "transformClusterStatus cs =
     fold (mark set_joining) (joiningNodes cs)
       (fold (mark set_moving) (movingNodes cs)
         (fold (mark set_leaving) (leavingNodes cs)
           (fold (mark set_unreachable) (unreachableNodes cs)
             (fold (mark set_live) (liveNodes cs) fmempty))))"

section \<open>Lemmas\<close>

definition status_at :: "(string, nodeStatus) fmap \<Rightarrow> string \<Rightarrow> nodeStatus" where
  "status_at m ip = (case fmlookup m ip of None \<Rightarrow> zero_nodeStatus | Some n \<Rightarrow> n)"

lemma fmlookup_mark: "fmlookup (mark f ip m) i = (if i = ip then Some (f (status_at m ip)) else fmlookup m i)"
  by (simp add: mark_def status_at_def)

text \<open>Marking twice is marking once, so a pass acts by membership alone.\<close>

lemma fmlookup_fold_mark:
  assumes "\<And>n. f (f n) = f n"
  shows "fmlookup (fold (mark f) ips m) i = (if i \<in> set ips then Some (f (status_at m i)) else fmlookup m i)"
proof (induction ips arbitrary: m)
  case (Cons ip ips)
  then show ?case
    by (auto simp: fmlookup_mark status_at_def assms)
qed simp

lemma set_idem:
  "set_live (set_live n) = set_live n" "set_unreachable (set_unreachable n) = set_unreachable n"
  "set_leaving (set_leaving n) = set_leaving n" "set_moving (set_moving n) = set_moving n"
  "set_joining (set_joining n) = set_joining n"
  by (simp_all add: set_live_def set_unreachable_def set_leaving_def set_moving_def set_joining_def)

lemmas fold_mark_lookups = fmlookup_fold_mark [OF set_idem(1)] fmlookup_fold_mark [OF set_idem(2)]
  fmlookup_fold_mark [OF set_idem(3)] fmlookup_fold_mark [OF set_idem(4)]
  fmlookup_fold_mark [OF set_idem(5)]

lemmas set_defs = set_live_def set_unreachable_def set_leaving_def set_moving_def set_joining_def

lemma applicable_in: "applicable n \<in> set allLabelPairs"
  by (simp add: applicable_def livenessLabel_def stateLabel_def allLabelPairs_def)

lemma distinct_allLabelPairs: "distinct allLabelPairs"
  by (simp add: allLabelPairs_def)

lemma set_unapplicable: "set (unapplicableLabelPairs n) = set allLabelPairs - {applicable n}"
  by (auto simp: unapplicableLabelPairs_def)

section \<open>Properties\<close>

definition known_nodes :: "clusterStatus \<Rightarrow> string set" where
  "known_nodes cs = set (liveNodes cs) \<union> set (unreachableNodes cs) \<union> set (joiningNodes cs) \<union>
     set (leavingNodes cs) \<union> set (movingNodes cs)"

text \<open>
  The merge has a status for exactly the addresses of the five lists. A node is up when it is
  live and not unreachable, and of the lists that say it is joining, moving or leaving the first,
  in this order, decides its state; so no node is ever in two states.
\<close>

theorem transformClusterStatus_correct:
  "fmlookup (transformClusterStatus cs) ip =
     (if ip \<in> known_nodes cs
      then Some \<lparr>ns_up = (ip \<in> set (liveNodes cs) \<and> ip \<notin> set (unreachableNodes cs)),
                 ns_down = (ip \<in> set (unreachableNodes cs)),
                 ns_joining = (ip \<in> set (joiningNodes cs)),
                 ns_leaving = (ip \<in> set (leavingNodes cs) - set (movingNodes cs) - set (joiningNodes cs)),
                 ns_moving = (ip \<in> set (movingNodes cs) - set (joiningNodes cs))\<rparr>
      else None)"
  by (simp add: transformClusterStatus_def fold_mark_lookups status_at_def known_nodes_def
      zero_nodeStatus_def set_defs)

end
