(* ===== verification/Types.thy ===== *)
theory Types
  imports Prelude
begin

text \<open>
  The custom resource of the operator, after
  \<^verbatim>\<open>cassandra-operator/pkg/apis/cassandra/v1alpha1/types.go\<close>: its structs as records, a pointer
  that may be nil as an option, and the naming and comparison methods. Of the Kubernetes object
  metadata only the name and the namespace are kept, which is all the code reads.
\<close>

section \<open>Data\<close>

text \<open>
  \<open>resource.Quantity\<close> belongs to the Kubernetes libraries. A quantity is what the operator
  observes of it: the results of \<open>IsZero\<close>, \<open>String\<close>, \<open>Value\<close> and \<open>MilliValue\<close>, and the
  identity of its private fields, which \<open>reflect.DeepEqual\<close> compares. The five are independent:
  no theorem relates them.
\<close>

record Quantity =
  q_IsZero :: bool
  q_String :: string
  q_Value :: int
  q_MilliValue :: int
  q_repr :: nat

record Probe =
  FailureThreshold :: int32
  InitialDelaySeconds :: int32
  PeriodSeconds :: int32
  SuccessThreshold :: int32
  TimeoutSeconds :: int32

record Pod =
  BootstrapperImage :: string
  Image :: string
  StorageSize :: Quantity
  Memory :: Quantity
  CPU :: Quantity
  LivenessProbe :: "Probe option"
  ReadinessProbe :: "Probe option"

record Rack =
  Rack_Name :: string
  Zone :: string
  StorageClass :: string
  Replicas :: int32

record RetentionPolicy =
  Enabled :: bool
  RetentionPeriodDays :: "int32 option"
  CleanupSchedule :: string
  CleanupTimeoutSeconds :: "int32 option"

text \<open>
  A Go slice is nil or a list of elements: \<open>reflect.DeepEqual\<close> tells a nil slice from an empty
  one, \<open>len\<close> and \<open>range\<close> do not.
\<close>

type_synonym 'a slice = "'a list option"

definition elems :: "'a slice \<Rightarrow> 'a list" where
  "elems s = (case s of None \<Rightarrow> [] | Some xs \<Rightarrow> xs)"

record Snapshot =
  Snapshot_Image :: string
  Schedule :: string
  Keyspaces :: "string slice"
  Snapshot_TimeoutSeconds :: "int32 option"
  Snapshot_RetentionPolicy :: "RetentionPolicy option"

record CassandraSpec =
  DC :: string
  Racks :: "Rack list"
  UseEmptyDir :: bool
  Spec_Pod :: Pod
  Spec_Snapshot :: "Snapshot option"

record Cassandra =
  Name :: string
  Namespace :: string
  Spec :: CassandraSpec

definition NodeServiceAccountName :: string where
  "NodeServiceAccountName = ''cassandra-node''"

definition SnapshotServiceAccountName :: string where
  "SnapshotServiceAccountName = ''cassandra-snapshot''"

section \<open>Names\<close>

definition QualifiedName :: "Cassandra \<Rightarrow> string" where
  "QualifiedName c = Namespace c @ ''.'' @ Name c"

definition SnapshotJobName :: "Cassandra \<Rightarrow> string" where
  "SnapshotJobName c = Name c @ ''-snapshot''"

definition SnapshotCleanupJobName :: "Cassandra \<Rightarrow> string" where
  "SnapshotCleanupJobName c = Name c @ ''-snapshot-cleanup''"

definition ServiceName :: "Cassandra \<Rightarrow> string" where
  "ServiceName c = Name c @ ''.'' @ Namespace c"

definition StorageVolumeName :: "Cassandra \<Rightarrow> string" where
  "StorageVolumeName c = ''cassandra-storage-'' @ Name c"

definition RackName :: "Cassandra \<Rightarrow> Rack \<Rightarrow> string" where
  "RackName c rack = Name c @ ''-'' @ Rack_Name rack"

definition CustomConfigMapName :: "Cassandra \<Rightarrow> string" where
  "CustomConfigMapName c = Name c @ ''-config''"

section \<open>Snapshot comparisons\<close>

definition HasRetentionPolicyEnabled :: "Snapshot \<Rightarrow> bool" where
  "HasRetentionPolicyEnabled s =
     (case Snapshot_RetentionPolicy s of None \<Rightarrow> False | Some r \<Rightarrow> Enabled r)"

text \<open>
  \<open>*p != *q\<close> on two pointers to an \<open>int32\<close>: reading a nil pointer panics.
\<close>

definition deref_neq :: "int32 option \<Rightarrow> int32 option \<Rightarrow> panic + bool" where
  "deref_neq p q = (case (p, q) of (Some a, Some b) \<Rightarrow> Inr (a \<noteq> b) | _ \<Rightarrow> Inl NilDereference)"

text \<open>\<open>a || b\<close>: the right operand is evaluated only when the left one is false.\<close>

definition or_else :: "panic + bool \<Rightarrow> panic + bool \<Rightarrow> panic + bool" where
  "or_else a b = (case a of Inl p \<Rightarrow> Inl p | Inr True \<Rightarrow> Inr True | Inr False \<Rightarrow> b)"

definition SnapshotPropertiesUpdated :: "Snapshot \<Rightarrow> Snapshot \<Rightarrow> panic + bool" where
  "SnapshotPropertiesUpdated snapshot1 snapshot2 =
     or_else (Inr (Schedule snapshot1 \<noteq> Schedule snapshot2))
    (or_else (deref_neq (Snapshot_TimeoutSeconds snapshot1) (Snapshot_TimeoutSeconds snapshot2))
             (Inr (Keyspaces snapshot1 \<noteq> Keyspaces snapshot2)))"

definition SnapshotCleanupPropertiesUpdated :: "Snapshot \<Rightarrow> Snapshot \<Rightarrow> panic + bool" where
  "SnapshotCleanupPropertiesUpdated snapshot1 snapshot2 =
     (case (Snapshot_RetentionPolicy snapshot1, Snapshot_RetentionPolicy snapshot2) of
        (Some r1, Some r2) \<Rightarrow>
          or_else (Inr (CleanupSchedule r1 \<noteq> CleanupSchedule r2))
         (or_else (deref_neq (CleanupTimeoutSeconds r1) (CleanupTimeoutSeconds r2))
                  (deref_neq (RetentionPeriodDays r1) (RetentionPeriodDays r2)))
      | _ \<Rightarrow> Inr False)"

section \<open>Lemmas\<close>

lemma or_else_simps [simp]:
  "or_else (Inr True) b = Inr True"
  "or_else (Inr False) b = b"
  "or_else (Inl p) b = Inl p"
  by (simp_all add: or_else_def)

lemma deref_neq_simps [simp]:
  "deref_neq (Some a) (Some b) = Inr (a \<noteq> b)"
  "deref_neq None q = Inl NilDereference"
  "deref_neq p None = Inl NilDereference"
  by (simp_all add: deref_neq_def split: option.split)

lemma or_else_bool: "or_else (Inr P) b = (if P then Inr True else b)"
  by (cases P) simp_all

text \<open>
  When the two timeouts are set the comparison is total; a schedule that differs hides a timeout
  that is not.
\<close>

lemma SnapshotPropertiesUpdated_set:
  assumes "Snapshot_TimeoutSeconds s1 = Some t1" and "Snapshot_TimeoutSeconds s2 = Some t2"
  shows "SnapshotPropertiesUpdated s1 s2 =
    Inr (Schedule s1 \<noteq> Schedule s2 \<or> t1 \<noteq> t2 \<or> Keyspaces s1 \<noteq> Keyspaces s2)"
  using assms by (simp add: SnapshotPropertiesUpdated_def or_else_bool)

lemma SnapshotPropertiesUpdated_panic_iff:
  "SnapshotPropertiesUpdated s1 s2 = Inl p \<longleftrightarrow>
     p = NilDereference \<and> Schedule s1 = Schedule s2 \<and>
     (Snapshot_TimeoutSeconds s1 = None \<or> Snapshot_TimeoutSeconds s2 = None)"
  by (cases "Snapshot_TimeoutSeconds s1"; cases "Snapshot_TimeoutSeconds s2")
    (auto simp: SnapshotPropertiesUpdated_def or_else_bool)

text \<open>
  Qualified names identify a cluster, because a Kubernetes namespace holds no dot.
\<close>

lemma append_sep_inject:
  "c \<notin> set xs \<Longrightarrow> c \<notin> set us \<Longrightarrow> xs @ c # ys = us @ c # vs \<longleftrightarrow> xs = us \<and> ys = vs"
proof (induction xs arbitrary: us)
  case Nil
  then show ?case by (cases us) auto
next
  case (Cons x xs)
  then show ?case by (cases us) auto
qed

lemma QualifiedName_inject:
  assumes "CHR ''.'' \<notin> set (Namespace c)" and "CHR ''.'' \<notin> set (Namespace d)"
  shows "QualifiedName c = QualifiedName d \<longleftrightarrow> Namespace c = Namespace d \<and> Name c = Name d"
  using assms by (simp add: QualifiedName_def append_sep_inject)

end
