(* ===== verification/Cluster.thy ===== *)
theory Cluster
  imports Types ConfigHash
begin

text \<open>
  The operator's view of one Cassandra cluster, after the first half of
  \<^verbatim>\<open>cassandra-operator/pkg/cluster/cluster.go\<close>: validation of a definition, defaulting, the copy
  into the in-memory cluster, and the naming convention that ties a config map to a cluster.
  The Kubernetes objects built from a cluster are in the theory \<open>Resources\<close>.
\<close>

section \<open>Constants and data\<close>

definition OperatorLabel :: string where "OperatorLabel = ''sky.uk/cassandra-operator''"
definition ConfigHashAnnotation :: string where "ConfigHashAnnotation = ''clusterConfigHash''"
definition RackLabel :: string where "RackLabel = ''rack''"
definition customConfigDir :: string where "customConfigDir = ''/custom-config''"
definition DefaultCassandraImage :: string where "DefaultCassandraImage = ''cassandra:3.11''"
definition DefaultCassandraSnapshotImage :: string where
  "DefaultCassandraSnapshotImage = ''skyuk/cassandra-snapshot:latest''"
definition DefaultDCName :: string where "DefaultDCName = ''dc1''"
definition cassandraContainerName :: string where "cassandraContainerName = ''cassandra''"
definition cassandraBootstrapperContainerName :: string where
  "cassandraBootstrapperContainerName = ''cassandra-bootstrapper''"
definition DefaultCassandraBootstrapperImage :: string where
  "DefaultCassandraBootstrapperImage = ''skyuk/cassandra-bootstrapper:latest''"

definition defaultLivenessProbe :: Probe where
  "defaultLivenessProbe = \<lparr>FailureThreshold = 3, InitialDelaySeconds = 30, PeriodSeconds = 30,
     SuccessThreshold = 1, TimeoutSeconds = 5\<rparr>"

definition defaultReadinessProbe :: Probe where
  "defaultReadinessProbe = \<lparr>FailureThreshold = 3, InitialDelaySeconds = 30, PeriodSeconds = 15,
     SuccessThreshold = 1, TimeoutSeconds = 5\<rparr>"

text \<open>
  A cluster: the private copy of its definition and whether it is online. \<open>cdef\<close> is the field
  the source calls \<open>definition\<close>.
\<close>

record Cluster =
  cdef :: Cassandra
  Online :: bool

section \<open>Validation\<close>

datatype cluster_error =
    NoRacks Cassandra
  | InvalidReplicas int32 Cassandra
  | NoStorageClass string Cassandra
  | NoZone string Cassandra
  | NoPodMemory Cassandra
  | StorageSizeWithEmptyDir Cassandra
  | NoStorageSize Cassandra
  | NoSnapshotSchedule Cassandra
  | InvalidSnapshotSchedule string Cassandra
  | InvalidSnapshotTimeout int32 Cassandra
  | InvalidRetentionPeriod int32 Cassandra
  | InvalidCleanupTimeout int32 Cassandra
  | InvalidCleanupSchedule string Cassandra
  | InvalidLivenessSuccessThreshold Cassandra
  | InvalidFailureThreshold string int32 Cassandra
  | InvalidInitialDelay string int32 Cassandra
  | InvalidPeriod string int32 Cassandra
  | InvalidSuccessThreshold string int32 Cassandra
  | InvalidTimeout string int32 Cassandra

text \<open>\<open>if err := a; err != nil { return err }\<close> followed by \<open>b\<close>.\<close>

definition and_then :: "'e option \<Rightarrow> 'e option \<Rightarrow> 'e option" where
  "and_then a b = (case a of Some e \<Rightarrow> Some e | None \<Rightarrow> b)"

text \<open>\<open>if bad { return err }\<close>.\<close>

definition reject_if :: "bool \<Rightarrow> 'e \<Rightarrow> 'e option" where
  "reject_if bad e = (if bad then Some e else None)"

fun validateRackList :: "Cassandra \<Rightarrow> Rack list \<Rightarrow> cluster_error option" where
  "validateRackList d [] = None"
| "validateRackList d (rack # racks) =
     (if sint (Replicas rack) < 1 then Some (InvalidReplicas (Replicas rack) d)
      else if StorageClass rack = [] \<and> \<not> UseEmptyDir (Spec d) then Some (NoStorageClass (Rack_Name rack) d)
      else if Zone rack = [] \<and> \<not> UseEmptyDir (Spec d) then Some (NoZone (Rack_Name rack) d)
      else validateRackList d racks)"

definition validateRacks :: "Cassandra \<Rightarrow> cluster_error option" where
  "validateRacks d =
     (if length (Racks (Spec d)) = 0 then Some (NoRacks d) else validateRackList d (Racks (Spec d)))"

definition validatePodResources :: "Cassandra \<Rightarrow> cluster_error option" where
  "validatePodResources d =
     (if q_IsZero (Memory (Spec_Pod (Spec d))) then Some (NoPodMemory d)
      else if UseEmptyDir (Spec d) \<and> \<not> q_IsZero (StorageSize (Spec_Pod (Spec d)))
        then Some (StorageSizeWithEmptyDir d)
      else if \<not> UseEmptyDir (Spec d) \<and> q_IsZero (StorageSize (Spec_Pod (Spec d)))
        then Some (NoStorageSize d)
      else None)"

definition negative :: "int32 option \<Rightarrow> bool" where
  "negative p = (case p of None \<Rightarrow> False | Some v \<Rightarrow> sint v < 0)"

text \<open>
  \<open>validateSnapshot\<close>. Whether a string is a cron expression is decided by the library
  \<^verbatim>\<open>github.com/robfig/cron\<close>: \<open>cron_ok s\<close> says that \<open>cron.Parse(s)\<close> returns no error.
\<close>

definition validateSnapshot :: "(string \<Rightarrow> bool) \<Rightarrow> Cassandra \<Rightarrow> cluster_error option" where
  "validateSnapshot cron_ok d =
     (case Spec_Snapshot (Spec d) of
        None \<Rightarrow> None
      | Some s \<Rightarrow>
          and_then (reject_if (Schedule s = []) (NoSnapshotSchedule d))
         (and_then (reject_if (\<not> cron_ok (Schedule s)) (InvalidSnapshotSchedule (Schedule s) d))
         (and_then (reject_if (negative (Snapshot_TimeoutSeconds s))
                     (InvalidSnapshotTimeout (the (Snapshot_TimeoutSeconds s)) d))
         (case Snapshot_RetentionPolicy s of
            None \<Rightarrow> None
          | Some r \<Rightarrow>
              and_then (reject_if (negative (RetentionPeriodDays r))
                         (InvalidRetentionPeriod (the (RetentionPeriodDays r)) d))
             (and_then (reject_if (negative (CleanupTimeoutSeconds r))
                         (InvalidCleanupTimeout (the (CleanupTimeoutSeconds r)) d))
             (reject_if (CleanupSchedule r \<noteq> [] \<and> \<not> cron_ok (CleanupSchedule r))
                         (InvalidCleanupSchedule (CleanupSchedule r) d)))))))"

definition validateProbe :: "string \<Rightarrow> Probe \<Rightarrow> Cassandra \<Rightarrow> cluster_error option" where
  "validateProbe name probe d =
     (if sint (FailureThreshold probe) < 1 then Some (InvalidFailureThreshold name (FailureThreshold probe) d)
      else if sint (InitialDelaySeconds probe) < 1
        then Some (InvalidInitialDelay name (InitialDelaySeconds probe) d)
      else if sint (PeriodSeconds probe) < 1 then Some (InvalidPeriod name (PeriodSeconds probe) d)
      else if sint (SuccessThreshold probe) < 1
        then Some (InvalidSuccessThreshold name (SuccessThreshold probe) d)
      else if sint (TimeoutSeconds probe) < 1 then Some (InvalidTimeout name (TimeoutSeconds probe) d)
      else None)"

definition validateLivenessProbe :: "Probe \<Rightarrow> Cassandra \<Rightarrow> cluster_error option" where
  "validateLivenessProbe probe d =
     (if SuccessThreshold probe \<noteq> 1 then Some (InvalidLivenessSuccessThreshold d)
      else validateProbe ''liveness'' probe d)"

definition validateReadinessProbe :: "Probe \<Rightarrow> Cassandra \<Rightarrow> cluster_error option" where
  "validateReadinessProbe probe d = validateProbe ''readiness'' probe d"

section \<open>Defaulting and copying\<close>

definition mergeProbeDefaults :: "Probe \<Rightarrow> Probe \<Rightarrow> Probe" where
  "mergeProbeDefaults configured dflt =
     \<lparr>FailureThreshold =
        (if FailureThreshold configured = 0 then FailureThreshold dflt else FailureThreshold configured),
      InitialDelaySeconds =
        (if InitialDelaySeconds configured = 0 then InitialDelaySeconds dflt
         else InitialDelaySeconds configured),
      PeriodSeconds =
        (if PeriodSeconds configured = 0 then PeriodSeconds dflt else PeriodSeconds configured),
      SuccessThreshold =
        (if SuccessThreshold configured = 0 then SuccessThreshold dflt else SuccessThreshold configured),
      TimeoutSeconds =
        (if TimeoutSeconds configured = 0 then TimeoutSeconds dflt else TimeoutSeconds configured)\<rparr>"

definition set_pod :: "(Pod \<Rightarrow> Pod) \<Rightarrow> Cassandra \<Rightarrow> Cassandra" where
  "set_pod f d = d\<lparr>Spec := (Spec d)\<lparr>Spec_Pod := f (Spec_Pod (Spec d))\<rparr>\<rparr>"

definition default_snapshot_image :: "Cassandra \<Rightarrow> Cassandra" where
  "default_snapshot_image d =
     (case Spec_Snapshot (Spec d) of
        None \<Rightarrow> d
      | Some s \<Rightarrow>
          (if Snapshot_Image s = []
           then d\<lparr>Spec := (Spec d)\<lparr>Spec_Snapshot :=
                  Some (s\<lparr>Snapshot_Image := DefaultCassandraSnapshotImage\<rparr>)\<rparr>\<rparr>
           else d))"

text \<open>
  The liveness and readiness steps of \<open>CopyInto\<close>: they write the caller's definition, through
  its pointer, before they validate it.
\<close>

definition default_liveness :: "Cassandra \<Rightarrow> cluster_error option \<times> Cassandra" where
  "default_liveness d =
     (case LivenessProbe (Spec_Pod (Spec d)) of
        None \<Rightarrow> (None, set_pod (\<lambda>p. p\<lparr>LivenessProbe := Some defaultLivenessProbe\<rparr>) d)
      | Some probe \<Rightarrow>
          (let probe' = mergeProbeDefaults probe defaultLivenessProbe;
               d' = set_pod (\<lambda>p. p\<lparr>LivenessProbe := Some probe'\<rparr>) d
           in (validateLivenessProbe probe' d', d')))"

definition default_readiness :: "Cassandra \<Rightarrow> cluster_error option \<times> Cassandra" where
  "default_readiness d =
     (case ReadinessProbe (Spec_Pod (Spec d)) of
        None \<Rightarrow> (None, set_pod (\<lambda>p. p\<lparr>ReadinessProbe := Some defaultReadinessProbe\<rparr>) d)
      | Some probe \<Rightarrow>
          (let probe' = mergeProbeDefaults probe defaultReadinessProbe;
               d' = set_pod (\<lambda>p. p\<lparr>ReadinessProbe := Some probe'\<rparr>) d
           in (validateReadinessProbe probe' d', d')))"

text \<open>
  \<open>CopyInto(cluster, clusterDefinition)\<close>: the error, if any, then the two objects the call may
  write, the cluster and the definition it was given. The defaults of the images and of the data
  centre go to the cluster's copy only; those of the snapshot image and of the probes go to the
  caller's definition as well.
\<close>

definition CopyInto ::
  "(string \<Rightarrow> bool) \<Rightarrow> Cluster \<Rightarrow> Cassandra \<Rightarrow> cluster_error option \<times> Cluster \<times> Cassandra" where
  "CopyInto cron_ok cluster d =
     (case validateRacks d of Some err \<Rightarrow> (Some err, cluster, d) | None \<Rightarrow>
     (case validatePodResources d of Some err \<Rightarrow> (Some err, cluster, d) | None \<Rightarrow>
     (case validateSnapshot cron_ok d of Some err \<Rightarrow> (Some err, cluster, d) | None \<Rightarrow>
       (let pod = Spec_Pod (Spec d);
            cassandraImage = (if Image pod = [] then DefaultCassandraImage else Image pod);
            bootstrapperImage =
              (if BootstrapperImage pod = [] then DefaultCassandraBootstrapperImage
               else BootstrapperImage pod);
            d1 = default_snapshot_image d;
            dc = (if DC (Spec d) = [] then DefaultDCName else DC (Spec d))
        in (case default_liveness d1 of
              (Some err, d2) \<Rightarrow> (Some err, cluster, d2)
            | (None, d2) \<Rightarrow>
                (case default_readiness d2 of
                   (Some err, d3) \<Rightarrow> (Some err, cluster, d3)
                 | (None, d3) \<Rightarrow>
                     (let copy = set_pod (\<lambda>p. p\<lparr>BootstrapperImage := bootstrapperImage,
                                                  Image := cassandraImage\<rparr>)
                                   (d3\<lparr>Spec := (Spec d3)\<lparr>DC := dc\<rparr>\<rparr>)
                      in (None, cluster\<lparr>cdef := copy\<rparr>, d3))))))))"

text \<open>
  The zero values of Go's structs: what \<open>&Cluster{}\<close> holds. Its definition is a nil pointer in
  the source; \<open>New\<close> overwrites it or drops the cluster (lemma \<open>CopyInto_start_irrelevant\<close>).
\<close>

definition zero_Quantity :: Quantity where
  "zero_Quantity = \<lparr>q_IsZero = True, q_String = ''0'', q_Value = 0, q_MilliValue = 0, q_repr = 0\<rparr>"

definition zero_Cassandra :: Cassandra where
  "zero_Cassandra = \<lparr>Name = [], Namespace = [],
     Spec = \<lparr>DC = [], Racks = [], UseEmptyDir = False,
       Spec_Pod = \<lparr>BootstrapperImage = [], Image = [], StorageSize = zero_Quantity,
         Memory = zero_Quantity, CPU = zero_Quantity, LivenessProbe = None, ReadinessProbe = None\<rparr>,
       Spec_Snapshot = None\<rparr>\<rparr>"

definition zero_Cluster :: Cluster where
  "zero_Cluster = \<lparr>cdef = zero_Cassandra, Online = False\<rparr>"

definition New :: "(string \<Rightarrow> bool) \<Rightarrow> Cassandra \<Rightarrow> (cluster_error + Cluster) \<times> Cassandra" where
  "New cron_ok d =
     (case CopyInto cron_ok zero_Cluster d of
        (Some err, _, d') \<Rightarrow> (Inl err, d')
      | (None, c, d') \<Rightarrow> (Inr c, d'))"

definition Cluster_Name :: "Cluster \<Rightarrow> string" where
  "Cluster_Name c = Name (cdef c)"

definition Cluster_Namespace :: "Cluster \<Rightarrow> string" where
  "Cluster_Namespace c = Namespace (cdef c)"

definition Cluster_QualifiedName :: "Cluster \<Rightarrow> string" where
  "Cluster_QualifiedName c = QualifiedName (cdef c)"

definition Cluster_Racks :: "Cluster \<Rightarrow> Rack list" where
  "Cluster_Racks c = Racks (Spec (cdef c))"

section \<open>Config maps of clusters\<close>

text \<open>The clusters the operator manages are a Go map from qualified names to clusters.\<close>

definition ConfigMapBelongsToAManagedCluster :: "(string, Cluster) fmap \<Rightarrow> ConfigMap \<Rightarrow> bool" where
  "ConfigMapBelongsToAManagedCluster managed cm \<longleftrightarrow>
     fBex (fmran managed) (\<lambda>mc. cm_Name cm = CustomConfigMapName (cdef mc))"

definition LooksLikeACassandraConfigMap :: "ConfigMap \<Rightarrow> bool" where
  "LooksLikeACassandraConfigMap cm = HasSuffix (cm_Name cm) ''-config''"

datatype config_map_error = NotAClusterConfigMap string

definition QualifiedClusterNameFor :: "ConfigMap \<Rightarrow> config_map_error + string" where
  "QualifiedClusterNameFor cm =
     (if \<not> LooksLikeACassandraConfigMap cm then Inl (NotAClusterConfigMap (cm_Name cm))
      else Inr (cm_Namespace cm @ ''.'' @ ReplaceAll (cm_Name cm) ''-config'' []))"

section \<open>What validation accepts\<close>

definition rack_ok :: "bool \<Rightarrow> Rack \<Rightarrow> bool" where
  "rack_ok emptyDir r \<longleftrightarrow> 1 \<le> sint (Replicas r) \<and> (emptyDir \<or> StorageClass r \<noteq> [] \<and> Zone r \<noteq> [])"

definition probe_ok :: "Probe \<Rightarrow> bool" where
  "probe_ok p \<longleftrightarrow> 1 \<le> sint (FailureThreshold p) \<and> 1 \<le> sint (InitialDelaySeconds p) \<and>
     1 \<le> sint (PeriodSeconds p) \<and> 1 \<le> sint (SuccessThreshold p) \<and> 1 \<le> sint (TimeoutSeconds p)"

definition mergeable :: "Probe \<Rightarrow> bool" where
  "mergeable p \<longleftrightarrow> 0 \<le> sint (FailureThreshold p) \<and> 0 \<le> sint (InitialDelaySeconds p) \<and>
     0 \<le> sint (PeriodSeconds p) \<and> 0 \<le> sint (SuccessThreshold p) \<and> 0 \<le> sint (TimeoutSeconds p)"

definition not_negative :: "int32 option \<Rightarrow> bool" where
  "not_negative p \<longleftrightarrow> (\<forall>v. p = Some v \<longrightarrow> 0 \<le> sint v)"

definition retention_ok :: "(string \<Rightarrow> bool) \<Rightarrow> RetentionPolicy \<Rightarrow> bool" where
  "retention_ok cron_ok r \<longleftrightarrow> not_negative (RetentionPeriodDays r) \<and>
     not_negative (CleanupTimeoutSeconds r) \<and> (CleanupSchedule r = [] \<or> cron_ok (CleanupSchedule r))"

definition snapshot_ok :: "(string \<Rightarrow> bool) \<Rightarrow> Snapshot \<Rightarrow> bool" where
  "snapshot_ok cron_ok s \<longleftrightarrow> Schedule s \<noteq> [] \<and> cron_ok (Schedule s) \<and>
     not_negative (Snapshot_TimeoutSeconds s) \<and>
     (\<forall>r. Snapshot_RetentionPolicy s = Some r \<longrightarrow> retention_ok cron_ok r)"

text \<open>The definitions the operator accepts, said without reference to the order of the checks.\<close>

definition valid_definition :: "(string \<Rightarrow> bool) \<Rightarrow> Cassandra \<Rightarrow> bool" where
  "valid_definition cron_ok d \<longleftrightarrow>
     Racks (Spec d) \<noteq> [] \<and> (\<forall>r \<in> set (Racks (Spec d)). rack_ok (UseEmptyDir (Spec d)) r) \<and>
     \<not> q_IsZero (Memory (Spec_Pod (Spec d))) \<and>
     (UseEmptyDir (Spec d) \<longleftrightarrow> q_IsZero (StorageSize (Spec_Pod (Spec d)))) \<and>
     (\<forall>s. Spec_Snapshot (Spec d) = Some s \<longrightarrow> snapshot_ok cron_ok s) \<and>
     (\<forall>p. LivenessProbe (Spec_Pod (Spec d)) = Some p \<longrightarrow>
        mergeable p \<and> (SuccessThreshold p = 0 \<or> SuccessThreshold p = 1)) \<and>
     (\<forall>p. ReadinessProbe (Spec_Pod (Spec d)) = Some p \<longrightarrow> mergeable p)"

text \<open>What the operator knows of every cluster it keeps: nothing is left to default.\<close>

definition wf_cluster :: "(string \<Rightarrow> bool) \<Rightarrow> Cluster \<Rightarrow> bool" where
  "wf_cluster cron_ok c \<longleftrightarrow>
     Cluster_Racks c \<noteq> [] \<and> (\<forall>r \<in> set (Cluster_Racks c). rack_ok (UseEmptyDir (Spec (cdef c))) r) \<and>
     \<not> q_IsZero (Memory (Spec_Pod (Spec (cdef c)))) \<and>
     (UseEmptyDir (Spec (cdef c)) \<longleftrightarrow> q_IsZero (StorageSize (Spec_Pod (Spec (cdef c))))) \<and>
     DC (Spec (cdef c)) \<noteq> [] \<and> Image (Spec_Pod (Spec (cdef c))) \<noteq> [] \<and>
     BootstrapperImage (Spec_Pod (Spec (cdef c))) \<noteq> [] \<and>
     (\<exists>p. LivenessProbe (Spec_Pod (Spec (cdef c))) = Some p \<and> probe_ok p \<and> SuccessThreshold p = 1) \<and>
     (\<exists>p. ReadinessProbe (Spec_Pod (Spec (cdef c))) = Some p \<and> probe_ok p) \<and>
     (\<forall>s. Spec_Snapshot (Spec (cdef c)) = Some s \<longrightarrow> snapshot_ok cron_ok s \<and> Snapshot_Image s \<noteq> [])"

lemma and_then_None [validation_simps]: "and_then a b = None \<longleftrightarrow> a = None \<and> b = None"
  by (cases a) (simp_all add: and_then_def)

lemma reject_if_None [validation_simps]: "reject_if bad e = None \<longleftrightarrow> \<not> bad"
  by (simp add: reject_if_def)

lemma negative_iff [validation_simps]: "\<not> negative p \<longleftrightarrow> not_negative p"
  by (cases p) (auto simp: negative_def not_negative_def)

lemma sint_zero_iff: "sint (x :: int32) = 0 \<longleftrightarrow> x = 0"
  by (metis sint_0 signed_word_eqI)

lemma int32_pos_iff: "1 \<le> sint (x :: int32) \<longleftrightarrow> 0 \<le> sint x \<and> x \<noteq> 0"
  using sint_zero_iff [of x] by linarith

lemma validateRackList_None [validation_simps]:
  "validateRackList d rs = None \<longleftrightarrow> (\<forall>r \<in> set rs. rack_ok (UseEmptyDir (Spec d)) r)"
  by (induction rs) (auto simp: rack_ok_def)

lemma validateRacks_None [validation_simps]:
  "validateRacks d = None \<longleftrightarrow>
     Racks (Spec d) \<noteq> [] \<and> (\<forall>r \<in> set (Racks (Spec d)). rack_ok (UseEmptyDir (Spec d)) r)"
  by (auto simp: validateRacks_def validation_simps)

lemma validatePodResources_None [validation_simps]:
  "validatePodResources d = None \<longleftrightarrow> \<not> q_IsZero (Memory (Spec_Pod (Spec d))) \<and>
     (UseEmptyDir (Spec d) \<longleftrightarrow> q_IsZero (StorageSize (Spec_Pod (Spec d))))"
  by (auto simp: validatePodResources_def)

lemma validateSnapshot_None [validation_simps]:
  "validateSnapshot cron_ok d = None \<longleftrightarrow>
     (\<forall>s. Spec_Snapshot (Spec d) = Some s \<longrightarrow> snapshot_ok cron_ok s)"
  by (auto simp: validateSnapshot_def snapshot_ok_def retention_ok_def validation_simps
      split: option.splits)

lemma validateProbe_None [validation_simps]: "validateProbe n p d = None \<longleftrightarrow> probe_ok p"
  by (auto simp: validateProbe_def probe_ok_def)

lemma validateLivenessProbe_None [validation_simps]:
  "validateLivenessProbe p d = None \<longleftrightarrow> probe_ok p \<and> SuccessThreshold p = 1"
  by (auto simp: validateLivenessProbe_def validation_simps)

lemma validateReadinessProbe_None [validation_simps]:
  "validateReadinessProbe p d = None \<longleftrightarrow> probe_ok p"
  by (simp add: validateReadinessProbe_def validation_simps)

lemma default_probes_ok [simp]: "probe_ok defaultLivenessProbe" "probe_ok defaultReadinessProbe"
  by (simp_all add: probe_ok_def defaultLivenessProbe_def defaultReadinessProbe_def)

text \<open>After defaulting, a probe passes exactly when no field of it was negative.\<close>

lemma probe_ok_merge [validation_simps]:
  "probe_ok dflt \<Longrightarrow> probe_ok (mergeProbeDefaults p dflt) \<longleftrightarrow> mergeable p"
  by (auto simp: mergeProbeDefaults_def probe_ok_def mergeable_def int32_pos_iff)

lemma merge_success_threshold [validation_simps]:
  "SuccessThreshold (mergeProbeDefaults p defaultLivenessProbe) = 1 \<longleftrightarrow>
     SuccessThreshold p = 0 \<or> SuccessThreshold p = 1"
  by (simp add: mergeProbeDefaults_def defaultLivenessProbe_def)

lemma merge_idem [simp]:
  "probe_ok p \<Longrightarrow> mergeProbeDefaults p dflt = p"
  by (auto simp: mergeProbeDefaults_def probe_ok_def int32_pos_iff)

section \<open>What a successful copy stores\<close>

definition defaulted :: "Cassandra \<Rightarrow> Cassandra" where
  "defaulted d = snd (default_readiness (snd (default_liveness (default_snapshot_image d))))"

definition stored :: "Cassandra \<Rightarrow> Cassandra" where
  "stored d =
     set_pod (\<lambda>p. p\<lparr>BootstrapperImage :=
                       (if BootstrapperImage (Spec_Pod (Spec d)) = []
                        then DefaultCassandraBootstrapperImage
                        else BootstrapperImage (Spec_Pod (Spec d))),
                    Image := (if Image (Spec_Pod (Spec d)) = [] then DefaultCassandraImage
                              else Image (Spec_Pod (Spec d)))\<rparr>)
       ((defaulted d)\<lparr>Spec := (Spec (defaulted d))\<lparr>DC :=
          (if DC (Spec d) = [] then DefaultDCName else DC (Spec d))\<rparr>\<rparr>)"

lemma set_pod_simps [simp]:
  "Name (set_pod f d) = Name d" "Namespace (set_pod f d) = Namespace d"
  "Spec (set_pod f d) = (Spec d)\<lparr>Spec_Pod := f (Spec_Pod (Spec d))\<rparr>"
  by (simp_all add: set_pod_def)

lemma default_snapshot_image_simps [simp]:
  "Name (default_snapshot_image d) = Name d" "Namespace (default_snapshot_image d) = Namespace d"
  "Racks (Spec (default_snapshot_image d)) = Racks (Spec d)"
  "UseEmptyDir (Spec (default_snapshot_image d)) = UseEmptyDir (Spec d)"
  "DC (Spec (default_snapshot_image d)) = DC (Spec d)"
  "Spec_Pod (Spec (default_snapshot_image d)) = Spec_Pod (Spec d)"
  by (simp_all add: default_snapshot_image_def split: option.split)

lemma default_snapshot_image_Some:
  "Spec_Snapshot (Spec (default_snapshot_image d)) = Some s' \<longleftrightarrow>
     (\<exists>s. Spec_Snapshot (Spec d) = Some s \<and>
        s' = s\<lparr>Snapshot_Image := (if Snapshot_Image s = [] then DefaultCassandraSnapshotImage
                                     else Snapshot_Image s)\<rparr>)"
  by (auto simp: default_snapshot_image_def split: option.split)

definition liveness_of :: "Probe option \<Rightarrow> Probe" where
  "liveness_of p = (case p of None \<Rightarrow> defaultLivenessProbe
     | Some q \<Rightarrow> mergeProbeDefaults q defaultLivenessProbe)"

definition readiness_of :: "Probe option \<Rightarrow> Probe" where
  "readiness_of p = (case p of None \<Rightarrow> defaultReadinessProbe
     | Some q \<Rightarrow> mergeProbeDefaults q defaultReadinessProbe)"

lemma snd_default_liveness:
  "snd (default_liveness d) =
     set_pod (\<lambda>p. p\<lparr>LivenessProbe := Some (liveness_of (LivenessProbe (Spec_Pod (Spec d))))\<rparr>) d"
  by (simp add: default_liveness_def liveness_of_def Let_def split: option.split)

lemma snd_default_readiness:
  "snd (default_readiness d) =
     set_pod (\<lambda>p. p\<lparr>ReadinessProbe := Some (readiness_of (ReadinessProbe (Spec_Pod (Spec d))))\<rparr>) d"
  by (simp add: default_readiness_def readiness_of_def Let_def split: option.split)

lemma fst_default_liveness [validation_simps]:
  "fst (default_liveness d) = None \<longleftrightarrow>
     (\<forall>p. LivenessProbe (Spec_Pod (Spec d)) = Some p \<longrightarrow>
        mergeable p \<and> (SuccessThreshold p = 0 \<or> SuccessThreshold p = 1))"
  by (auto simp: default_liveness_def Let_def validation_simps split: option.split)

lemma fst_default_readiness [validation_simps]:
  "fst (default_readiness d) = None \<longleftrightarrow>
     (\<forall>p. ReadinessProbe (Spec_Pod (Spec d)) = Some p \<longrightarrow> mergeable p)"
  by (auto simp: default_readiness_def Let_def validation_simps split: option.split)

lemma defaulted_simps [simp]:
  "Name (defaulted d) = Name d" "Namespace (defaulted d) = Namespace d"
  "Racks (Spec (defaulted d)) = Racks (Spec d)"
  "UseEmptyDir (Spec (defaulted d)) = UseEmptyDir (Spec d)"
  "DC (Spec (defaulted d)) = DC (Spec d)"
  "Spec_Snapshot (Spec (defaulted d)) = Spec_Snapshot (Spec (default_snapshot_image d))"
  "Spec_Pod (Spec (defaulted d)) = (Spec_Pod (Spec d))
     \<lparr>LivenessProbe := Some (liveness_of (LivenessProbe (Spec_Pod (Spec d)))),
      ReadinessProbe := Some (readiness_of (ReadinessProbe (Spec_Pod (Spec d))))\<rparr>"
  by (simp_all add: defaulted_def snd_default_liveness snd_default_readiness)

lemma stored_simps [simp]:
  "Name (stored d) = Name d" "Namespace (stored d) = Namespace d"
  "Racks (Spec (stored d)) = Racks (Spec d)"
  "UseEmptyDir (Spec (stored d)) = UseEmptyDir (Spec d)"
  "DC (Spec (stored d)) = (if DC (Spec d) = [] then DefaultDCName else DC (Spec d))"
  "Spec_Snapshot (Spec (stored d)) = Spec_Snapshot (Spec (default_snapshot_image d))"
  "Spec_Pod (Spec (stored d)) = (Spec_Pod (Spec d))
     \<lparr>LivenessProbe := Some (liveness_of (LivenessProbe (Spec_Pod (Spec d)))),
      ReadinessProbe := Some (readiness_of (ReadinessProbe (Spec_Pod (Spec d)))),
      BootstrapperImage := (if BootstrapperImage (Spec_Pod (Spec d)) = []
                            then DefaultCassandraBootstrapperImage
                            else BootstrapperImage (Spec_Pod (Spec d))),
      Image := (if Image (Spec_Pod (Spec d)) = [] then DefaultCassandraImage
                else Image (Spec_Pod (Spec d)))\<rparr>"
  by (simp_all add: stored_def)

lemma QualifiedName_stored [simp]:
  "QualifiedName (stored d) = QualifiedName d" "QualifiedName (defaulted d) = QualifiedName d"
  by (simp_all add: QualifiedName_def)

lemma CopyInto_valid:
  assumes "valid_definition cron_ok d"
  shows "CopyInto cron_ok cluster d = (None, cluster\<lparr>cdef := stored d\<rparr>, defaulted d)"
proof -
  have v: "validateRacks d = None" "validatePodResources d = None" "validateSnapshot cron_ok d = None"
    using assms by (auto simp: valid_definition_def validation_simps)
  obtain d2 where l: "default_liveness (default_snapshot_image d) = (None, d2)"
    using assms
    by (cases "default_liveness (default_snapshot_image d)"; use fst_default_liveness
        [of "default_snapshot_image d"] in \<open>force simp: valid_definition_def\<close>)
  have d2: "d2 = snd (default_liveness (default_snapshot_image d))" by (simp add: l)
  obtain d3 where r: "default_readiness d2 = (None, d3)"
    using assms
    by (cases "default_readiness d2"; use fst_default_readiness [of d2] in
        \<open>force simp: valid_definition_def d2 snd_default_liveness\<close>)
  have d3: "d3 = defaulted d" by (simp add: defaulted_def d2 [symmetric] r)
  show ?thesis
    by (simp add: CopyInto_def v l r d3 stored_def Let_def)
qed

lemma CopyInto_invalid:
  assumes "\<not> valid_definition cron_ok d"
  shows "\<exists>err d'. CopyInto cron_ok cluster d = (Some err, cluster, d')"
proof (cases "validateRacks d = None \<and> validatePodResources d = None \<and>
    validateSnapshot cron_ok d = None")
  case False
  then show ?thesis by (auto simp: CopyInto_def split: option.splits)
next
  case True
  have n: "fst (default_liveness (default_snapshot_image d)) \<noteq> None \<or>
      fst (default_readiness (snd (default_liveness (default_snapshot_image d)))) \<noteq> None"
    using assms True by (auto simp: valid_definition_def validation_simps snd_default_liveness)
  show ?thesis
    using True n
    by (cases "default_liveness (default_snapshot_image d)";
        cases "default_readiness (snd (default_liveness (default_snapshot_image d)))")
      (auto simp: CopyInto_def Let_def split: option.splits prod.splits)
qed

lemma CopyInto_fst: "fst (CopyInto cron_ok cluster d) = None \<longleftrightarrow> valid_definition cron_ok d"
  using CopyInto_valid [of cron_ok d cluster] CopyInto_invalid [of cron_ok d cluster] by force

lemma CopyInto_None:
  "CopyInto cron_ok cluster d = (None, c', d') \<Longrightarrow>
     valid_definition cron_ok d \<and> c' = cluster\<lparr>cdef := stored d\<rparr> \<and> d' = defaulted d"
  using CopyInto_fst [of cron_ok cluster d] CopyInto_valid [of cron_ok d cluster] by simp

lemma CopyInto_Some:
  "CopyInto cron_ok cluster d = (Some e, c', d') \<Longrightarrow> \<not> valid_definition cron_ok d \<and> c' = cluster"
  using CopyInto_fst [of cron_ok cluster d] CopyInto_invalid [of cron_ok d cluster] by fastforce

text \<open>The zero cluster \<open>New\<close> starts from leaves no trace but its flag.\<close>

lemma CopyInto_start_irrelevant:
  "CopyInto cron_ok cluster d = (None, c', d') \<Longrightarrow>
     c' = \<lparr>cdef = stored d, Online = Online cluster\<rparr>"
  by (drule CopyInto_None) simp

lemma New_valid:
  "valid_definition cron_ok d \<Longrightarrow>
     New cron_ok d = (Inr \<lparr>cdef = stored d, Online = False\<rparr>, defaulted d)"
  by (simp add: New_def CopyInto_valid zero_Cluster_def)

lemma New_invalid:
  "\<not> valid_definition cron_ok d \<Longrightarrow> \<exists>err d'. New cron_ok d = (Inl err, d')"
  using CopyInto_invalid [of cron_ok d zero_Cluster] by (auto simp: New_def)

lemma New_Inr:
  "New cron_ok d = (Inr c, d') \<longleftrightarrow>
     valid_definition cron_ok d \<and> c = \<lparr>cdef = stored d, Online = False\<rparr> \<and> d' = defaulted d"
  using New_valid [of cron_ok d] New_invalid [of cron_ok d] by fastforce

lemma probe_ok_liveness_of:
  "\<forall>p. q = Some p \<longrightarrow> mergeable p \<and> (SuccessThreshold p = 0 \<or> SuccessThreshold p = 1) \<Longrightarrow>
     probe_ok (liveness_of q) \<and> SuccessThreshold (liveness_of q) = 1"
  by (auto simp: liveness_of_def validation_simps split: option.split)
    (simp add: defaultLivenessProbe_def)

lemma probe_ok_readiness_of:
  "\<forall>p. q = Some p \<longrightarrow> mergeable p \<Longrightarrow> probe_ok (readiness_of q)"
  by (auto simp: readiness_of_def validation_simps split: option.split)

lemma snapshot_of_defaulted:
  assumes "Spec_Snapshot (Spec (default_snapshot_image d)) = Some s"
    and "\<forall>s. Spec_Snapshot (Spec d) = Some s \<longrightarrow> snapshot_ok cron_ok s"
  shows "snapshot_ok cron_ok s \<and> Snapshot_Image s \<noteq> []"
proof -
  from assms(1) obtain s0 where s0: "Spec_Snapshot (Spec d) = Some s0"
    and s: "s = s0\<lparr>Snapshot_Image := (if Snapshot_Image s0 = [] then DefaultCassandraSnapshotImage
                                     else Snapshot_Image s0)\<rparr>"
    unfolding default_snapshot_image_Some by blast
  have "snapshot_ok cron_ok s0" using assms(2) s0 by blast
  then show ?thesis
    unfolding s by (simp add: snapshot_ok_def DefaultCassandraSnapshotImage_def)
qed

lemma wf_cluster_stored:
  assumes "valid_definition cron_ok d"
  shows "wf_cluster cron_ok (c\<lparr>cdef := stored d\<rparr>)"
proof -
  let ?pod = "Spec_Pod (Spec d)"
  have l: "probe_ok (liveness_of (LivenessProbe ?pod)) \<and> SuccessThreshold (liveness_of (LivenessProbe ?pod)) = 1"
    using assms by (intro probe_ok_liveness_of) (simp add: valid_definition_def)
  have r: "probe_ok (readiness_of (ReadinessProbe ?pod))"
    using assms by (intro probe_ok_readiness_of) (simp add: valid_definition_def)
  have s: "Spec_Snapshot (Spec (default_snapshot_image d)) = Some s \<Longrightarrow>
      snapshot_ok cron_ok s \<and> Snapshot_Image s \<noteq> []" for s
    using assms by (intro snapshot_of_defaulted) (assumption, unfold valid_definition_def, blast)
  show ?thesis
    using assms l r s
    by (auto simp: wf_cluster_def valid_definition_def Cluster_Racks_def DefaultDCName_def
        DefaultCassandraImage_def DefaultCassandraBootstrapperImage_def)
qed

lemma wf_cluster_valid: "wf_cluster cron_ok c \<Longrightarrow> valid_definition cron_ok (cdef c)"
  by (auto simp: wf_cluster_def valid_definition_def Cluster_Racks_def probe_ok_def mergeable_def)

text \<open>Defaulting is idempotent: a stored definition is already its own completion.\<close>

lemma complete_of_wf:
  assumes "wf_cluster cron_ok c"
  shows "liveness_of (LivenessProbe (Spec_Pod (Spec (cdef c)))) = the (LivenessProbe (Spec_Pod (Spec (cdef c))))"
    and "readiness_of (ReadinessProbe (Spec_Pod (Spec (cdef c)))) = the (ReadinessProbe (Spec_Pod (Spec (cdef c))))"
    and "LivenessProbe (Spec_Pod (Spec (cdef c))) \<noteq> None"
    and "ReadinessProbe (Spec_Pod (Spec (cdef c))) \<noteq> None"
    and "default_snapshot_image (cdef c) = cdef c"
  using assms
  by (auto simp: wf_cluster_def liveness_of_def readiness_of_def default_snapshot_image_def
      split: option.split)

lemma wf_cluster_stored_id:
  assumes "wf_cluster cron_ok c"
  shows "stored (cdef c) = cdef c" and "defaulted (cdef c) = cdef c"
proof -
  have e: "DC (Spec (cdef c)) \<noteq> []" "Image (Spec_Pod (Spec (cdef c))) \<noteq> []"
      "BootstrapperImage (Spec_Pod (Spec (cdef c))) \<noteq> []"
    using assms by (simp_all add: wf_cluster_def)
  show "stored (cdef c) = cdef c"
    using complete_of_wf [OF assms] e
    by (intro Cassandra.equality CassandraSpec.equality Pod.equality) simp_all
  show "defaulted (cdef c) = cdef c"
    using complete_of_wf [OF assms] e
    by (intro Cassandra.equality CassandraSpec.equality Pod.equality) simp_all
qed

section \<open>Lemmas on config map names\<close>

text \<open>The pattern has its first letter nowhere else, so occurrences of it cannot overlap.\<close>

lemma prefix_append_unbordered:
  assumes "a \<notin> set r" and "prefix (a # r) (c # cs @ a # r)"
  shows "prefix (a # r) (c # cs)"
proof (cases "length (a # r) \<le> length (c # cs)")
  case True
  moreover have "prefix (c # cs) (c # cs @ a # r)" by simp
  ultimately show ?thesis using assms(2) by (metis prefix_length_prefix)
next
  case False
  then have "length cs < length r" by simp
  moreover have "prefix r (cs @ a # r)" using assms(2) unfolding Cons_prefix_Cons by blast
  ultimately have "r ! length cs = (cs @ a # r) ! length cs"
    by (metis append_eq_conv_conj nth_take prefix_def)
  then have "r ! length cs = a" by simp
  with \<open>length cs < length r\<close> assms(1) show ?thesis by (metis nth_mem)
qed

lemma ReplaceAll_unbordered:
  assumes "a \<notin> set r" and "\<not> sublist (a # r) s"
  shows "ReplaceAll (s @ a # r) (a # r) [] = s"
  using assms(2)
proof (induction s)
  case Nil
  show ?case by (subst ReplaceAll.simps) (simp add: ReplaceAll.simps)
next
  case (Cons c cs)
  have np: "\<not> prefix (a # r) (c # cs @ a # r)"
    using prefix_append_unbordered [OF assms(1)] Cons.prems by blast
  have "\<not> sublist (a # r) cs" using Cons.prems by (auto simp: sublist_Cons_right)
  with Cons.IH np show ?case by (subst ReplaceAll.simps) (simp del: Cons_prefix_Cons)
qed

lemma length_ReplaceAll_le: "length (ReplaceAll s old []) \<le> length s"
proof (induction s old "[] :: string" rule: ReplaceAll.induct)
  case (1 s old)
  show ?case
  proof (cases "s = [] \<or> old = []")
    case True
    then show ?thesis by (subst ReplaceAll.simps) simp
  next
    case False
    show ?thesis
    proof (cases "prefix old s")
      case True
      with False 1(1) have "length (ReplaceAll (drop (length old) s) old []) \<le> length s"
        by (metis diff_le_self le_trans length_drop)
      with False True show ?thesis by (subst ReplaceAll.simps) simp
    next
      case np: False
      with False 1(2) have "length (ReplaceAll (tl s) old []) \<le> length (tl s)" by blast
      with False np show ?thesis by (subst ReplaceAll.simps) (cases s, auto)
    qed
  qed
qed

lemma length_ReplaceAll_less:
  assumes "old \<noteq> []" and "sublist old s"
  shows "length (ReplaceAll s old []) + length old \<le> length s"
  using assms(2)
proof (induction s)
  case Nil
  with assms(1) show ?case by simp
next
  case (Cons c cs)
  show ?case
  proof (cases "prefix old (c # cs)")
    case True
    then have "length old \<le> length (c # cs)" by (rule prefix_length_le)
    with True show ?thesis
      using assms(1) length_ReplaceAll_le [of "drop (length old) (c # cs)" old]
      by (subst ReplaceAll.simps) auto
  next
    case False
    with Cons.prems have "sublist old cs" by (auto simp: sublist_Cons_right)
    with Cons.IH False assms(1) show ?thesis by (subst ReplaceAll.simps) auto
  qed
qed

lemma length_ReplaceAll_twice:
  assumes "old \<noteq> []" and "sublist old s"
  shows "length (ReplaceAll (s @ old) old []) + length old \<le> length s"
  using assms(2)
proof (induction s)
  case Nil
  with assms(1) show ?case by simp
next
  case (Cons c cs)
  have le: "length old \<le> length (c # cs)" using Cons.prems by (rule sublist_length_le)
  show ?case
  proof (cases "prefix old ((c # cs) @ old)")
    case True
    let ?rest = "drop (length old) (c # cs) @ old"
    have "length (ReplaceAll ?rest old []) + length old \<le> length ?rest"
      using assms(1) by (intro length_ReplaceAll_less) auto
    moreover have "drop (length old) ((c # cs) @ old) = ?rest"
      unfolding drop_append using le by simp
    ultimately show ?thesis
      using assms(1) True le by (subst ReplaceAll.simps) (simp del: drop_append)
  next
    case False
    then have "\<not> prefix old (c # cs)" by (metis prefix_append)
    with Cons.prems have "sublist old cs" by (auto simp: sublist_Cons_right)
    with Cons.IH False assms(1) show ?thesis by (subst ReplaceAll.simps) auto
  qed
qed

lemma HasSuffix_append [simp]: "HasSuffix (s @ suf) suf"
  by (simp add: HasSuffix_def suffix_def)

section \<open>Properties\<close>

text \<open>A definition the operator accepts: one rack, snapshots with a retention policy.\<close>

definition sample_definition :: Cassandra where
  "sample_definition = \<lparr>Name = ''mycluster'', Namespace = ''mynamespace'',
     Spec = \<lparr>DC = [], Racks = [\<lparr>Rack_Name = ''a'', Zone = ''z1'', StorageClass = ''sc1'', Replicas = 2\<rparr>],
       UseEmptyDir = False,
       Spec_Pod = \<lparr>BootstrapperImage = [], Image = [],
         StorageSize = \<lparr>q_IsZero = False, q_String = ''10Gi'', q_Value = 10737418240,
                         q_MilliValue = 10737418240000, q_repr = 1\<rparr>,
         Memory = \<lparr>q_IsZero = False, q_String = ''1Gi'', q_Value = 1073741824,
                    q_MilliValue = 1073741824000, q_repr = 2\<rparr>,
         CPU = \<lparr>q_IsZero = False, q_String = ''100m'', q_Value = 1, q_MilliValue = 100, q_repr = 3\<rparr>,
         LivenessProbe = None,
         ReadinessProbe = Some \<lparr>FailureThreshold = 0, InitialDelaySeconds = 10, PeriodSeconds = 0,
                                  SuccessThreshold = 0, TimeoutSeconds = 7\<rparr>\<rparr>,
       Spec_Snapshot = Some \<lparr>Snapshot_Image = [], Schedule = ''1 23 * * *'',
         Keyspaces = Some [''k1'', ''k2''], Snapshot_TimeoutSeconds = Some 10,
         Snapshot_RetentionPolicy = Some \<lparr>Enabled = True, RetentionPeriodDays = Some 7,
           CleanupSchedule = ''0 9 * * *'', CleanupTimeoutSeconds = Some 5\<rparr>\<rparr>\<rparr>\<rparr>"

lemma sample_definition_valid: "valid_definition (\<lambda>_. True) sample_definition"
  by (simp add: valid_definition_def sample_definition_def rack_ok_def snapshot_ok_def
      retention_ok_def not_negative_def mergeable_def)

text \<open>
  (C3) \<open>CopyInto\<close> accepts exactly the definitions that \<open>valid_definition\<close> describes: at least one
  rack, each with a replica and, unless storage is an empty directory, a zone and a storage class;
  memory set; a storage size exactly when the storage is persistent; a snapshot schedule and a
  cleanup schedule that parse; no negative timeout, period or probe field; a liveness success
  threshold of one. Then the cluster's definition becomes the completed copy; otherwise the
  cluster is left as it was, whatever the error.
\<close>

theorem CopyInto_accepts_exactly_valid:
  "(fst (CopyInto cron_ok cluster d) = None \<longleftrightarrow> valid_definition cron_ok d) \<and>
   fst (snd (CopyInto cron_ok cluster d)) =
     (if valid_definition cron_ok d then cluster\<lparr>cdef := stored d\<rparr> else cluster)"
proof (cases "valid_definition cron_ok d")
  case True
  then show ?thesis by (simp add: CopyInto_valid)
next
  case False
  with CopyInto_invalid [OF this, of cluster] show ?thesis by auto
qed

text \<open>
  Every cluster that \<open>New\<close> returns is complete and consistent: data centre, images and both
  probes are set, the probe fields are positive, the racks are valid, a snapshot has an image, and
  the cluster starts offline under the definition's own qualified name.
\<close>

theorem New_well_formed:
  assumes "New cron_ok d = (Inr c, d')"
  shows "wf_cluster cron_ok c \<and> \<not> Online c \<and> Cluster_QualifiedName c = QualifiedName d \<and>
    Cluster_Racks c = Racks (Spec d)"
proof -
  from assms have v: "valid_definition cron_ok d" and c: "c = \<lparr>cdef = stored d, Online = False\<rparr>"
    by (simp_all add: New_Inr)
  have "wf_cluster cron_ok (zero_Cluster\<lparr>cdef := stored d\<rparr>)" using v by (rule wf_cluster_stored)
  with c show ?thesis
    by (simp add: zero_Cluster_def Cluster_QualifiedName_def Cluster_Racks_def)
qed

theorem New_well_formed_witness:
  "wf_cluster (\<lambda>_. True) \<lparr>cdef = stored sample_definition, Online = False\<rparr>"
  using New_well_formed [OF New_valid [OF sample_definition_valid]] by simp

lemma liveness_of_idem: "probe_ok (liveness_of q) \<Longrightarrow> liveness_of (Some (liveness_of q)) = liveness_of q"
  by (simp add: liveness_of_def)

lemma readiness_of_idem: "probe_ok (readiness_of q) \<Longrightarrow> readiness_of (Some (readiness_of q)) = readiness_of q"
  by (simp add: readiness_of_def)

lemma defaulted_image_idem:
  "Spec_Snapshot (Spec (default_snapshot_image (defaulted d))) = Spec_Snapshot (Spec (default_snapshot_image d))"
  by (auto simp: default_snapshot_image_def [of "defaulted d"] default_snapshot_image_def [of d]
      DefaultCassandraSnapshotImage_def split: option.splits)

lemma valid_probes:
  assumes "valid_definition cron_ok d"
  shows "probe_ok (liveness_of (LivenessProbe (Spec_Pod (Spec d))))"
    and "SuccessThreshold (liveness_of (LivenessProbe (Spec_Pod (Spec d)))) = 1"
    and "probe_ok (readiness_of (ReadinessProbe (Spec_Pod (Spec d))))"
  using wf_cluster_stored [OF assms, of zero_Cluster] by (simp_all add: wf_cluster_def)

lemma valid_defaulted:
  assumes "valid_definition cron_ok d"
  shows "valid_definition cron_ok (defaulted d)"
    and "stored (defaulted d) = stored d" and "defaulted (defaulted d) = defaulted d"
proof -
  note p = valid_probes [OF assms]
  have s: "Spec_Snapshot (Spec (default_snapshot_image d)) = Some s \<Longrightarrow> snapshot_ok cron_ok s" for s
    using assms snapshot_of_defaulted [of d s cron_ok] by (auto simp: valid_definition_def)
  show "valid_definition cron_ok (defaulted d)"
    using assms p s by (auto simp: valid_definition_def probe_ok_def mergeable_def)
  show "stored (defaulted d) = stored d"
    by (intro Cassandra.equality CassandraSpec.equality Pod.equality)
      (simp_all add: liveness_of_idem readiness_of_idem p defaulted_image_idem)
  show "defaulted (defaulted d) = defaulted d"
    by (intro Cassandra.equality CassandraSpec.equality Pod.equality)
      (simp_all add: liveness_of_idem readiness_of_idem p defaulted_image_idem)
qed

text \<open>
  Completing a definition is idempotent: after a successful \<open>CopyInto\<close>, copying again, either
  from the caller's definition that the first call has completed in place or from the copy that
  \<open>Definition\<close> hands out, succeeds and changes neither the cluster nor the definition.
\<close>

theorem CopyInto_idempotent:
  assumes "CopyInto cron_ok cluster d = (None, c, d')"
  shows "CopyInto cron_ok c d' = (None, c, d') \<and> CopyInto cron_ok c (cdef c) = (None, c, cdef c)"
proof -
  from assms have v: "valid_definition cron_ok d" and c: "c = cluster\<lparr>cdef := stored d\<rparr>"
    and d': "d' = defaulted d" using CopyInto_None by blast+
  have w: "wf_cluster cron_ok c" unfolding c using v by (rule wf_cluster_stored)
  have "CopyInto cron_ok c d' = (None, c\<lparr>cdef := stored (defaulted d)\<rparr>, defaulted (defaulted d))"
    unfolding d' by (rule CopyInto_valid) (rule valid_defaulted [OF v])
  moreover have "CopyInto cron_ok c (cdef c) = (None, c\<lparr>cdef := cdef c\<rparr>, cdef c)"
    using CopyInto_valid [OF wf_cluster_valid [OF w], of c] wf_cluster_stored_id [OF w] by simp
  ultimately show ?thesis using valid_defaulted [OF v] by (simp add: c d')
qed

theorem CopyInto_idempotent_witness:
  "\<exists>c d'. CopyInto (\<lambda>_. True) zero_Cluster sample_definition = (None, c, d') \<and>
     CopyInto (\<lambda>_. True) c d' = (None, c, d')"
  using CopyInto_valid [OF sample_definition_valid, of zero_Cluster]
    CopyInto_idempotent [OF CopyInto_valid [OF sample_definition_valid, of zero_Cluster]] by blast

text \<open>
  (C38) The naming convention between clusters and their config maps is inverted exactly for the
  clusters whose name does not contain the text \<open>-config\<close>: for any other cluster the operator
  computes the name of a different cluster from the very config map the cluster looks up.
\<close>

theorem QualifiedClusterNameFor_roundtrip:
  assumes "cm_Name cm = CustomConfigMapName d" and "cm_Namespace cm = Namespace d"
  shows "QualifiedClusterNameFor cm = Inr (QualifiedName d) \<longleftrightarrow> \<not> sublist ''-config'' (Name d)"
proof -
  have eq: "QualifiedClusterNameFor cm =
      Inr (Namespace d @ ''.'' @ ReplaceAll (Name d @ ''-config'') ''-config'' [])"
    using assms by (simp add: QualifiedClusterNameFor_def LooksLikeACassandraConfigMap_def
        CustomConfigMapName_def)
  have "ReplaceAll (Name d @ ''-config'') ''-config'' [] = Name d \<longleftrightarrow> \<not> sublist ''-config'' (Name d)"
    using length_ReplaceAll_twice [of "''-config''" "Name d"]
      ReplaceAll_unbordered [of "CHR ''-''" "''config''" "Name d"] by fastforce
  then show ?thesis by (simp add: eq QualifiedName_def)
qed

theorem QualifiedClusterNameFor_roundtrip_witness:
  "QualifiedClusterNameFor \<lparr>cm_Name = ''mycluster-config'', cm_Namespace = ''mynamespace'',
      Data = None, BinaryData = fmempty\<rparr> = Inr ''mynamespace.mycluster''"
  using QualifiedClusterNameFor_roundtrip [of "\<lparr>cm_Name = ''mycluster-config'',
      cm_Namespace = ''mynamespace'', Data = None, BinaryData = fmempty\<rparr>" sample_definition]
  by (simp add: sample_definition_def CustomConfigMapName_def QualifiedName_def sublist_Cons_right)

text \<open>
  The names of the stateful sets do not tell every two racks apart: a rack named \<open>b-r\<close> of a
  cluster \<open>a\<close> and a rack named \<open>r\<close> of a cluster \<open>a-b\<close> get the same stateful set name, so in one
  namespace two clusters with distinct names can claim one stateful set. Without a dash in the
  clusters' names the name determines both the cluster and the rack.
\<close>

theorem RackName_collision:
  "RackName (d\<lparr>Name := a\<rparr>) (rack\<lparr>Rack_Name := b @ ''-'' @ r\<rparr>) =
     RackName (d\<lparr>Name := a @ ''-'' @ b\<rparr>) (rack\<lparr>Rack_Name := r\<rparr>) \<and>
   (CHR ''-'' \<in> set (Name c1) \<or> CHR ''-'' \<in> set (Name c2) \<or>
    (RackName c1 r1 = RackName c2 r2) = (Name c1 = Name c2 \<and> Rack_Name r1 = Rack_Name r2))"
  by (auto simp: RackName_def append_sep_inject)

end
