(* ===== verification/KubeObjects.thy ===== *)
theory KubeObjects
  imports Types
begin

text \<open>
  The Kubernetes objects the operator builds and edits, with the fields it sets or reads. They are
  data of the Kubernetes API: a record holds what the source writes, a pointer that may be nil is
  an option, a map of labels is a partial function. A list field does not tell a nil slice from an
  empty one; the serialised objects do not either.
\<close>

type_synonym labels = "string \<rightharpoonup> string"

record ObjectMeta =
  om_Name :: string
  om_Namespace :: string
  om_Labels :: labels

record EnvVar =
  env_Name :: string
  env_Value :: string
  env_FieldPath :: "string option"

record VolumeMount =
  vm_Name :: string
  vm_MountPath :: string

datatype VolumeSource = EmptyDirVolume | ConfigMapVolume string

record Volume =
  vol_Name :: string
  vol_Source :: VolumeSource

record ContainerPort =
  cp_Name :: string
  cp_Protocol :: string
  cp_Port :: int

record ExecProbe =
  ep_Command :: "string list"
  ep_InitialDelaySeconds :: int32
  ep_PeriodSeconds :: int32
  ep_TimeoutSeconds :: int32
  ep_FailureThreshold :: int32
  ep_SuccessThreshold :: int32

record ResourceRequirements =
  rr_Requests :: "string \<rightharpoonup> Quantity"
  rr_Limits :: "string \<rightharpoonup> Quantity"

record Container =
  ct_Name :: string
  ct_Image :: string
  ct_Command :: "string list"
  ct_Ports :: "ContainerPort list"
  ct_Env :: "EnvVar list"
  ct_Resources :: ResourceRequirements
  ct_VolumeMounts :: "VolumeMount list"
  ct_LivenessProbe :: "ExecProbe option"
  ct_ReadinessProbe :: "ExecProbe option"
  ct_PreStop :: "string list option"

definition empty_container :: Container where
  "empty_container = \<lparr>ct_Name = [], ct_Image = [], ct_Command = [], ct_Ports = [], ct_Env = [],
     ct_Resources = \<lparr>rr_Requests = Map.empty, rr_Limits = Map.empty\<rparr>, ct_VolumeMounts = [],
     ct_LivenessProbe = None, ct_ReadinessProbe = None, ct_PreStop = None\<rparr>"

record PodAffinityTerm =
  pat_MatchLabels :: labels
  pat_TopologyKey :: string

record NodeSelectorRequirement =
  nsr_Key :: string
  nsr_Operator :: string
  nsr_Values :: "string list"

record Affinity =
  aff_PodAntiAffinity :: "PodAffinityTerm list"
  aff_NodeAffinity :: "NodeSelectorRequirement list list"

record PodSpec =
  ps_ServiceAccountName :: string
  ps_RestartPolicy :: string
  ps_InitContainers :: "Container list"
  ps_Containers :: "Container list"
  ps_Volumes :: "Volume list"
  ps_Affinity :: "Affinity option"

text \<open>
  The annotations of a pod template are a Go map the code tests for nil and writes to.
\<close>

record PodTemplate =
  pt_Name :: string
  pt_Namespace :: string
  pt_Labels :: labels
  pt_Annotations :: "(string \<rightharpoonup> string) option"
  pt_Spec :: PodSpec

record PersistentVolumeClaim =
  pvc_Meta :: ObjectMeta
  pvc_StorageClassName :: string
  pvc_AccessModes :: "string list"
  pvc_Requests :: "string \<rightharpoonup> Quantity"

record StatefulSet =
  sts_Meta :: ObjectMeta
  sts_Generation :: int
  sts_Selector :: labels
  sts_Replicas :: "int32 option"
  sts_ServiceName :: string
  sts_Template :: PodTemplate
  sts_VolumeClaimTemplates :: "PersistentVolumeClaim list"

record StatefulSetStatus =
  ss_ObservedGeneration :: "int option"
  ss_UpdateRevision :: string
  ss_CurrentRevision :: string
  ss_ReadyReplicas :: int32
  ss_Replicas :: int32

record ServicePort =
  sp_Name :: string
  sp_Port :: int
  sp_TargetPort :: int

record Service =
  svc_Meta :: ObjectMeta
  svc_Selector :: labels
  svc_ClusterIP :: string
  svc_Ports :: "ServicePort list"

record CronJob =
  cj_Meta :: ObjectMeta
  cj_Schedule :: string
  cj_ConcurrencyPolicy :: string
  cj_JobMeta :: ObjectMeta
  cj_Template :: PodTemplate

end
