(* ===== verification/GoDuration.thy ===== *)
theory GoDuration
  imports Prelude "HOL-Library.Log_Nat"
begin

text \<open>
  Go's \<open>time.Duration\<close>, an \<open>int64\<close> count of nanoseconds, with its \<open>String\<close> method (standard
  library, \<^verbatim>\<open>time/time.go\<close>), and the two conversions of \<^verbatim>\<open>cluster.go\<close> that build durations from
  the fields of a snapshot definition.
\<close>

type_synonym Duration = int64

definition Second :: Duration where "Second = 1000000000"
definition Hour :: Duration where "Hour = 3600000000000"

text \<open>\<open>time.Duration(*days) * time.Hour * 24\<close>, in wrapping 64-bit arithmetic.\<close>

definition durationDays :: "int32 \<Rightarrow> Duration" where
  "durationDays days = scast days * Hour * 24"

text \<open>\<open>time.Duration(*seconds) * time.Second\<close>.\<close>

definition durationSeconds :: "int32 \<Rightarrow> Duration" where
  "durationSeconds seconds = scast seconds * Second"

section \<open>Printing\<close>

text \<open>
  \<open>fmtFrac\<close>: the fraction of \<open>v / 10 ^ prec\<close> without trailing zeros, and no point when there is
  no fraction; the quotient is what is left to print.
\<close>

fun fmtFrac_loop :: "nat \<Rightarrow> nat \<Rightarrow> bool \<Rightarrow> string \<Rightarrow> string \<times> nat \<times> bool" where
  "fmtFrac_loop 0 v print out = (out, v, print)"
| "fmtFrac_loop (Suc prec) v print out =
     (let print' = (print \<or> v mod 10 \<noteq> 0)
      in fmtFrac_loop prec (v div 10) print'
           (if print' then digit_char (v mod 10) # out else out))"

definition fmtFrac :: "nat \<Rightarrow> nat \<Rightarrow> string \<times> nat" where
  "fmtFrac v prec =
     (case fmtFrac_loop prec v False [] of (out, v', print) \<Rightarrow>
        ((if print then CHR ''.'' # out else out), v'))"

text \<open>
  \<open>Duration.String\<close>: the magnitude as an unsigned 64-bit number, in units below one second or as
  hours, minutes and seconds. The micro sign is the two UTF-8 bytes C2 B5.
\<close>

definition Duration_String :: "Duration \<Rightarrow> string" where
  "Duration_String d =
     (let neg = sint d < 0;
          u = nat (abs (sint d));
          body =
            (if u < 1000000000 then
               (if u = 0 then ''0s''
                else
                  (let (prec, uname) =
                         (if u < 1000 then (0, ''n'')
                          else if u < 1000000 then (3, [CHR 0xC2, CHR 0xB5])
                          else (6, ''m''));
                       (frac, v) = fmtFrac u prec
                   in dec v @ frac @ uname @ ''s''))
             else
               (let (frac, secs) = fmtFrac u 9;
                    mins = secs div 60;
                    hours = mins div 60
                in (if mins > 0 then (if hours > 0 then dec hours @ ''h'' else []) @
                      dec (mins mod 60) @ ''m'' else []) @
                   dec (secs mod 60) @ frac @ ''s''))
      in if u = 0 then body else if neg then ''-'' @ body else body)"

section \<open>Bounds\<close>

lemma sint_widen [simp]: "sint (scast d :: int64) = sint (d :: int32)"
  by (rule sint_up_scast) (simp add: is_up)

lemma sint_durationSeconds: "sint (durationSeconds s) = sint s * 1000000000"
proof -
  have "- (2 ^ 31) \<le> sint s" "sint s < 2 ^ 31"
    using sint_range_size [of s] by (simp_all add: word_size)
  then show ?thesis
    by (simp add: durationSeconds_def Second_def sint_word_ariths signed_take_bit_int_eq_self)
qed

lemma sint_durationDays:
  "sint (durationDays d) = signed_take_bit 63 (sint d * 86400000000000)"
proof -
  have "sint (durationDays d) = signed_take_bit 63 (signed_take_bit 63 (sint d * 3600000000000) * 24)"
    by (simp only: durationDays_def Hour_def sint_word_ariths sint_widen) simp
  also have "\<dots> = signed_take_bit 63 (sint d * 3600000000000 * 24)"
    using signed_take_bit_mult [of 63 "signed_take_bit 63 (sint d * 3600000000000)" 24]
      signed_take_bit_mult [of 63 "sint d * 3600000000000" 24]
    by (simp add: signed_take_bit_int_eq_self)
  finally show ?thesis by (simp add: mult.commute)
qed

text \<open>106751 days is the longest retention period whose duration an \<open>int64\<close> holds.\<close>

lemma sint_durationDays_exact:
  assumes "0 \<le> sint d" and "sint d \<le> 106751"
  shows "sint (durationDays d) = sint d * 86400000000000"
  unfolding sint_durationDays using assms by (intro signed_take_bit_int_eq_self) auto

lemma fmtFrac_loop_zeros:
  "fmtFrac_loop prec (v * 10 ^ prec) False out = (out, v, False)"
  by (induction prec arbitrary: v) (simp_all add: mult.assoc [symmetric] mult.commute [of _ 10])

lemma fmtFrac_whole_seconds: "fmtFrac (v * 1000000000) 9 = ([], v)"
  using fmtFrac_loop_zeros [of 9 v "[]"] by (simp add: fmtFrac_def)

text \<open>A whole positive number of seconds prints as hours, minutes and seconds.\<close>

definition hms :: "nat \<Rightarrow> string" where
  "hms s = (if s \<ge> 60 then (if s \<ge> 3600 then dec (s div 3600) @ ''h'' else []) @
              dec (s div 60 mod 60) @ ''m'' else []) @ dec (s mod 60) @ ''s''"

lemma Duration_String_seconds:
  assumes "sint d = int s * 1000000000"
  shows "Duration_String d = hms s"
proof (cases "s = 0")
  case True
  with assms have "sint d = 0" by simp
  then show ?thesis
    by (simp add: Duration_String_def hms_def True Let_def) (subst dec.simps, simp)
next
  case False
  have u: "nat \<bar>sint d\<bar> = s * 1000000000"
    using assms by (simp add: nat_mult_distrib)
  have pos: "\<not> sint d < 0" using assms by simp
  show ?thesis
    using False
    by (simp add: Duration_String_def u pos fmtFrac_whole_seconds hms_def Let_def div_mult2_eq [symmetric]
        del: div_mult2_eq)
      (auto simp: div_greater_zero_iff)
qed

text \<open>Beyond that the product wraps round to a negative duration.\<close>

lemma sint_durationDays_wraps:
  assumes "106752 \<le> sint d" and "sint d \<le> 213503"
  shows "sint (durationDays d) = sint d * 86400000000000 - 2 ^ 64"
proof -
  let ?x = "sint d * 86400000000000"
  have "(?x + 2 ^ 63) mod 2 ^ 64 = (?x + 2 ^ 63 - 2 ^ 64) mod 2 ^ 64"
    by (rule minus_mod_self2 [symmetric])
  also have "\<dots> = ?x + 2 ^ 63 - 2 ^ 64" using assms by (intro mod_pos_pos_trivial) auto
  finally have "(?x + 2 ^ 63) mod 2 ^ 64 = ?x + 2 ^ 63 - 2 ^ 64" .
  then have "(?x + 2 ^ 63) mod 2 ^ Suc 63 - 2 ^ 63 = ?x - 2 ^ 64" by simp
  then show ?thesis
    unfolding sint_durationDays signed_take_bit_eq_take_bit_shift take_bit_eq_mod .
qed

text \<open>
  The retention period that the cleanup job is given: it is the number of days of the
  definition, printed in hours, minutes and seconds, exactly up to 106751 days; the next hundred
  thousand values wrap round to a negative period, for which every snapshot is too old.
\<close>

theorem retention_period_bounds:
  assumes "0 \<le> sint days"
  shows "(sint (durationDays days) = sint days * 86400000000000 \<longleftrightarrow> sint days \<le> 106751) \<and>
    (sint days \<le> 106751 \<longrightarrow> Duration_String (durationDays days) = hms (nat (sint days) * 86400)) \<and>
    (106752 \<le> sint days \<and> sint days \<le> 213503 \<longrightarrow> sint (durationDays days) < 0)"
proof (intro conjI impI iffI)
  assume "sint (durationDays days) = sint days * 86400000000000"
  moreover have "sint (durationDays days) < 2 ^ 63"
    using sint_range_size [of "durationDays days"] by (simp add: word_size)
  ultimately show "sint days \<le> 106751" by simp
next
  assume d: "sint days \<le> 106751"
  then show e: "sint (durationDays days) = sint days * 86400000000000"
    by (rule sint_durationDays_exact [OF assms])
  show "Duration_String (durationDays days) = hms (nat (sint days) * 86400)"
    using sint_durationDays_exact [OF assms d] assms by (intro Duration_String_seconds) simp
next
  assume "106752 \<le> sint days \<and> sint days \<le> 213503"
  then show "sint (durationDays days) < 0" by (simp add: sint_durationDays_wraps)
qed

lemma retention_period_bounds_witness:
  "Duration_String (durationDays 7) = hms 604800 \<and> sint (durationDays 200000) < 0"
  using retention_period_bounds [of 7] retention_period_bounds [of 200000] by simp

section \<open>Seconds\<close>

text \<open>
  \<open>Duration.Seconds\<close> computes in \<open>float64\<close>: the nearest multiple of the unit in the last of 53
  places, ties to even. The numbers here stay far from overflow and from subnormal numbers.
\<close>

definition power_of_2 :: "int \<Rightarrow> rat" where
  "power_of_2 e = (if 0 \<le> e then 2 ^ nat e else 1 / 2 ^ nat (- e))"

definition round_even :: "rat \<Rightarrow> int" where
  "round_even y =
     (let f = \<lfloor>y\<rfloor>; r = y - of_int f
      in if r < 1 / 2 then f else if 1 / 2 < r then f + 1 else if even f then f else f + 1)"

definition binary_exponent :: "rat \<Rightarrow> int" where
  "binary_exponent x =
     (let (p, q) = quotient_of x; e = int (floorlog 2 (nat p)) - int (floorlog 2 (nat q))
      in if power_of_2 e \<le> x then e else e - 1)"

definition float64 :: "rat \<Rightarrow> rat" where
  "float64 x =
     (if x = 0 then 0
      else let u = power_of_2 (binary_exponent \<bar>x\<bar> - 52) in of_int (round_even (x / u)) * u)"

definition Duration_Seconds :: "Duration \<Rightarrow> rat" where
  "Duration_Seconds d =
     (let sec = sgn (sint d) * (\<bar>sint d\<bar> div 1000000000);
          nsec = sint d - sec * 1000000000
      in float64 (of_int sec + float64 (of_int nsec / 1000000000)))"

text \<open>The conversion of a float to an integer drops the fraction.\<close>

definition int64_of_float :: "rat \<Rightarrow> int" where
  "int64_of_float x = (if 0 \<le> x then \<lfloor>x\<rfloor> else \<lceil>x\<rceil>)"

lemma round_even_int [simp]: "round_even (of_int n) = n"
  by (simp add: round_even_def Let_def)

lemma binary_exponent_int:
  assumes "0 < n" and "n < 2 ^ 53"
  shows "binary_exponent (of_int n) \<le> 52"
proof -
  have "floorlog 2 (nat n) \<le> 53" using assms by (intro floorlog_leI) (simp_all add: nat_less_iff)
  moreover have "floorlog 2 (nat 1) = 1" by (simp add: compute_floorlog)
  ultimately show ?thesis by (simp add: binary_exponent_def quotient_of_int Let_def)
qed

lemma float64_int:
  assumes "\<bar>n\<bar> < 2 ^ 53"
  shows "float64 (of_int n) = of_int n"
proof (cases "n = 0")
  case False
  have "binary_exponent \<bar>of_int n\<bar> \<le> 52"
    using binary_exponent_int [of "\<bar>n\<bar>"] assms False by (simp flip: of_int_abs)
  then obtain k where "power_of_2 (binary_exponent \<bar>of_int n\<bar> - 52) = 1 / 2 ^ k"
    by (cases "binary_exponent \<bar>of_int n\<bar> = 52") (auto simp: power_of_2_def intro: that [of 0])
  moreover have "of_int n * 2 ^ k = (of_int (n * 2 ^ k) :: rat)" by simp
  ultimately show ?thesis
    using False by (simp add: float64_def Let_def del: of_int_mult) (metis of_int_mult of_int_numeral of_int_power round_even_int nonzero_mult_div_cancel_right power_not_zero zero_neq_numeral)
qed (simp add: float64_def)

lemma float64_0: "float64 0 = 0"
  by (simp add: float64_def)

lemma whole_seconds:
  assumes "sint d = n * 1000000000"
  shows "int64_of_float (Duration_Seconds d) = n"
proof -
  have "- (2 ^ 63) \<le> sint d" "sint d < 2 ^ 63"
    using sint_range_size [of d] by (simp_all add: word_size)
  then have n: "\<bar>n\<bar> < 2 ^ 53" using assms by simp
  have "sgn (sint d) * (\<bar>sint d\<bar> div 1000000000) = n"
    by (simp add: assms abs_mult sgn_mult sgn_mult_abs)
  then have "Duration_Seconds d = of_int n"
    by (simp add: Duration_Seconds_def Let_def assms float64_0 float64_int [OF n])
  then show ?thesis by (simp add: int64_of_float_def)
qed

text \<open>Rounding keeps a number within half its size.\<close>

lemma power_of_2_powi: "power_of_2 e = 2 powi e"
  by (simp add: power_of_2_def power_int_def power_one_over)

lemma binary_exponent_le:
  assumes "0 < x"
  shows "power_of_2 (binary_exponent x) \<le> x"
proof -
  obtain p q where pq: "quotient_of x = (p, q)" by (cases "quotient_of x")
  have q: "0 < q" and x: "x = of_int p / of_int q"
    using quotient_of_denom_pos [OF pq] quotient_of_div [OF pq] by simp_all
  with assms have p: "0 < p" by (simp add: zero_less_divide_iff)
  let ?a = "floorlog 2 (nat p)" and ?b = "floorlog 2 (nat q)"
  have a: "2 ^ (?a - 1) \<le> nat p" using floorlog_bounds [of "nat p" 2] p by simp
  have "0 < ?a" using p by (simp add: floorlog_def)
  have b: "nat q < 2 ^ ?b" using floorlog_bounds [of "nat q" 2] q by simp
  from a p have "(2 ^ (?a - 1) :: int) \<le> p" by (simp add: le_nat_iff)
  then have "(2 ^ (?a - 1) :: rat) \<le> of_int p" by (metis of_int_le_iff of_int_numeral of_int_power)
  moreover from b have "q < 2 ^ ?b" by (simp add: nat_less_iff q)
  then have "of_int q \<le> (2 ^ ?b :: rat)" by (metis less_imp_le of_int_le_iff of_int_numeral of_int_power)
  ultimately have "2 ^ (?a - 1) / 2 ^ ?b \<le> x" unfolding x using p q by (intro frac_le) simp_all
  moreover have "power_of_2 (int ?a - int ?b - 1) = 2 ^ (?a - 1) / 2 ^ ?b"
    using \<open>0 < ?a\<close> by (simp add: power_of_2_powi power_int_diff power_diff)
  ultimately show ?thesis by (simp add: binary_exponent_def pq Let_def)
qed

lemma round_even_le: "of_int (round_even y) \<le> y + 1 / 2"
  by (auto simp: round_even_def Let_def) linarith+

lemma float64_negative:
  assumes "x < 0"
  shows "float64 x \<le> x / 2"
proof -
  let ?u = "power_of_2 (binary_exponent \<bar>x\<bar> - 52)"
  have u: "0 < ?u" by (simp add: power_of_2_powi)
  have "?u \<le> power_of_2 (binary_exponent \<bar>x\<bar>)" by (simp add: power_of_2_powi power_int_diff)
  also have "\<dots> \<le> \<bar>x\<bar>" using assms by (intro binary_exponent_le) simp
  finally have le: "?u \<le> - x" using assms by simp
  have "float64 x = of_int (round_even (x / ?u)) * ?u" using assms by (simp add: float64_def Let_def)
  also have "\<dots> \<le> (x / ?u + 1 / 2) * ?u" by (rule mult_right_mono [OF round_even_le]) (use u in simp)
  also have "\<dots> = x + ?u / 2" using u by (simp add: field_simps)
  finally show ?thesis using le by simp
qed

lemma float64_below: "y \<le> - 2 \<Longrightarrow> float64 y \<le> - 1"
  using float64_negative [of y] by simp

lemma negative_seconds:
  assumes "sint d \<le> - 2000000000"
  shows "int64_of_float (Duration_Seconds d) < 0"
proof -
  let ?sec = "sgn (sint d) * (\<bar>sint d\<bar> div 1000000000)"
  let ?nsec = "sint d - ?sec * 1000000000"
  have sec: "?sec = - ((- sint d) div 1000000000)" and "2 \<le> (- sint d) div 1000000000" using assms by simp_all
  then have le: "(of_int ?sec :: rat) \<le> - 2" by (metis (no_types, lifting) neg_le_iff_le of_int_le_iff of_int_minus of_int_numeral)
  have nsec: "?nsec \<le> 0" unfolding sec by (simp add: minus_div_mult_eq_mod [symmetric] algebra_simps)
  let ?frac = "of_int ?nsec / 1000000000 :: rat"
  have "float64 ?frac \<le> 0"
  proof (cases "?nsec = 0")
    case False
    with nsec have "?frac < 0" by (simp only: divide_less_0_iff of_int_less_0_iff) simp
    with float64_negative [OF this] show ?thesis by linarith
  qed (simp only: of_int_0 div_0 float64_0)
  with le have "of_int ?sec + float64 (of_int ?nsec / 1000000000) \<le> - 2" by simp
  then have "Duration_Seconds d \<le> - 1" unfolding Duration_Seconds_def Let_def by (rule float64_below)
  then show ?thesis by (simp add: int64_of_float_def ceiling_less_iff)
qed

end
