(* ===== verification/Resources.thy ===== *)
theory Resources
  imports Cluster KubeObjects GoDuration "HOL-Library.Multiset"
begin

text \<open>
  The Kubernetes objects of a cluster, after the second half of
  \<^verbatim>\<open>cassandra-operator/pkg/cluster/cluster.go\<close>: the stateful set of a rack, the headless service,
  the snapshot cron jobs, and the two edits that mount and unmount a custom config map.
\<close>

section \<open>Metadata and small parts\<close>

text \<open>The loop over \<open>extraLabels\<close> takes the strings two by two; an odd last one is ignored.\<close>

fun add_labels :: "labels \<Rightarrow> string list \<Rightarrow> labels" where
  "add_labels m (k # v # rest) = add_labels (m(k \<mapsto> v)) rest"
| "add_labels m _ = m"

definition objectMetadata :: "Cluster \<Rightarrow> string \<Rightarrow> string list \<Rightarrow> ObjectMeta" where
  "objectMetadata c name extraLabels =
     \<lparr>om_Name = name, om_Namespace = Cluster_Namespace c,
      om_Labels = add_labels [OperatorLabel \<mapsto> Cluster_Name c] extraLabels\<rparr>"

definition customConfigMapVolumeName :: "Cluster \<Rightarrow> string" where
  "customConfigMapVolumeName c = ''cassandra-custom-config-'' @ Name (cdef c)"

definition emptyDir :: "string \<Rightarrow> Volume" where
  "emptyDir name = \<lparr>vol_Name = name, vol_Source = EmptyDirVolume\<rparr>"

definition createConfigMapVolume :: "Cluster \<Rightarrow> ConfigMap \<Rightarrow> Volume" where
  "createConfigMapVolume c cm =
     \<lparr>vol_Name = customConfigMapVolumeName c, vol_Source = ConfigMapVolume (cm_Name cm)\<rparr>"

definition createCustomConfigVolumeMount :: "Cluster \<Rightarrow> VolumeMount" where
  "createCustomConfigVolumeMount c =
     \<lparr>vm_Name = customConfigMapVolumeName c, vm_MountPath = customConfigDir\<rparr>"

definition createPodVolumes :: "Cluster \<Rightarrow> ConfigMap option \<Rightarrow> Volume list" where
  "createPodVolumes c cm =
     [emptyDir ''configuration'', emptyDir ''extra-lib''] @
     (case cm of None \<Rightarrow> [] | Some m \<Rightarrow> [createConfigMapVolume c m]) @
     (if UseEmptyDir (Spec (cdef c)) then [emptyDir (StorageVolumeName (cdef c))] else [])"

definition createVolumeMounts :: "Cluster \<Rightarrow> VolumeMount list" where
  "createVolumeMounts c =
     [\<lparr>vm_Name = StorageVolumeName (cdef c), vm_MountPath = ''/var/lib/cassandra''\<rparr>,
      \<lparr>vm_Name = ''configuration'', vm_MountPath = ''/etc/cassandra''\<rparr>,
      \<lparr>vm_Name = ''extra-lib'', vm_MountPath = ''/extra-lib''\<rparr>]"

definition createResourceRequirements :: "Cluster \<Rightarrow> ResourceRequirements" where
  "createResourceRequirements c =
     \<lparr>rr_Requests = [''cpu'' \<mapsto> CPU (Spec_Pod (Spec (cdef c))), ''memory'' \<mapsto> Memory (Spec_Pod (Spec (cdef c)))],
      rr_Limits = [''memory'' \<mapsto> Memory (Spec_Pod (Spec (cdef c)))]\<rparr>"

definition createCassandraDataPersistentVolumeClaimForRack ::
  "Cluster \<Rightarrow> Rack \<Rightarrow> PersistentVolumeClaim list" where
  "createCassandraDataPersistentVolumeClaimForRack c rack =
     (if \<not> UseEmptyDir (Spec (cdef c)) then
        [\<lparr>pvc_Meta = objectMetadata c (StorageVolumeName (cdef c))
                      [RackLabel, Rack_Name rack, ''app'', Name (cdef c)],
          pvc_StorageClassName = StorageClass rack,
          pvc_AccessModes = [''ReadWriteOnce''],
          pvc_Requests = [''storage'' \<mapsto> StorageSize (Spec_Pod (Spec (cdef c)))]\<rparr>]
      else [])"

definition createEnvironmentVariableDefinition :: "Cluster \<Rightarrow> Rack \<Rightarrow> EnvVar list" where
  "createEnvironmentVariableDefinition c rack =
     (let value = (\<lambda>n v. \<lparr>env_Name = n, env_Value = v, env_FieldPath = None\<rparr>)
      in [value ''CLUSTER_NAMESPACE'' (Namespace (cdef c)),
          value ''CLUSTER_NAME'' (Name (cdef c)),
          value ''CLUSTER_CURRENT_RACK'' (Rack_Name rack),
          value ''CLUSTER_DATA_CENTER'' (DC (Spec (cdef c))),
          \<lparr>env_Name = ''NODE_LISTEN_ADDRESS'', env_Value = [], env_FieldPath = Some ''status.podIP''\<rparr>,
          value ''POD_CPU_MILLICORES'' (itoa (q_MilliValue (CPU (Spec_Pod (Spec (cdef c)))))),
          value ''POD_MEMORY_BYTES'' (itoa (q_Value (Memory (Spec_Pod (Spec (cdef c))))))])"

section \<open>Containers\<close>

text \<open>\<open>createProbe\<close> reads through its argument: a nil probe panics.\<close>

definition createProbe :: "Probe option \<Rightarrow> string list \<Rightarrow> panic + ExecProbe" where
  "createProbe probe command =
     (case probe of
        None \<Rightarrow> Inl NilDereference
      | Some p \<Rightarrow> Inr \<lparr>ep_Command = command, ep_InitialDelaySeconds = InitialDelaySeconds p,
          ep_PeriodSeconds = PeriodSeconds p, ep_TimeoutSeconds = TimeoutSeconds p,
          ep_FailureThreshold = FailureThreshold p, ep_SuccessThreshold = SuccessThreshold p\<rparr>)"

definition readiness_command :: string where
  "readiness_command =
     ''nodetool status | grep -E '' @ [CHR 0x22] @ ''^UN'' @ [CHR 0x5C] @ ''s+${NODE_LISTEN_ADDRESS}'' @ [CHR 0x22]"

definition createCassandraContainer :: "Cluster \<Rightarrow> panic + Container" where
  "createCassandraContainer c =
     (let pod = Spec_Pod (Spec (cdef c));
          port = (\<lambda>n p. \<lparr>cp_Name = n, cp_Protocol = ''TCP'', cp_Port = p\<rparr>)
      in case (createProbe (LivenessProbe pod) [''/bin/sh'', ''-c'', ''nodetool info''],
               createProbe (ReadinessProbe pod) [''/bin/sh'', ''-c'', readiness_command]) of
           (Inr live, Inr ready) \<Rightarrow>
             Inr \<lparr>ct_Name = cassandraContainerName, ct_Image = Image pod, ct_Command = [],
               ct_Ports = [port ''internode'' 7000, port ''jmx-exporter'' 7070,
                           port ''cassandra-jmx'' 7199, port ''jolokia'' 7777, port ''client'' 9042],
               ct_Env = [\<lparr>env_Name = ''EXTRA_CLASSPATH'',
                           env_Value = ''/extra-lib/cassandra-seed-provider.jar'',
                           env_FieldPath = None\<rparr>],
               ct_Resources = createResourceRequirements c,
               ct_VolumeMounts = createVolumeMounts c,
               ct_LivenessProbe = Some live, ct_ReadinessProbe = Some ready,
               ct_PreStop = Some [''/bin/sh'', ''-c'', ''nodetool drain'']\<rparr>
         | _ \<Rightarrow> Inl NilDereference)"

definition createInitConfigContainer :: "Cluster \<Rightarrow> Container" where
  "createInitConfigContainer c =
     empty_container\<lparr>ct_Name := ''init-config'', ct_Image := Image (Spec_Pod (Spec (cdef c))),
       ct_Command := [''sh'', ''-c'', ''cp -vr /etc/cassandra/* /configuration''],
       ct_VolumeMounts := [\<lparr>vm_Name = ''configuration'', vm_MountPath = ''/configuration''\<rparr>],
       ct_Resources := createResourceRequirements c\<rparr>"

definition createCassandraBootstrapperContainer ::
  "Cluster \<Rightarrow> Rack \<Rightarrow> ConfigMap option \<Rightarrow> Container" where
  "createCassandraBootstrapperContainer c rack cm =
     empty_container\<lparr>ct_Name := cassandraBootstrapperContainerName,
       ct_Env := createEnvironmentVariableDefinition c rack,
       ct_Image := BootstrapperImage (Spec_Pod (Spec (cdef c))),
       ct_Resources := createResourceRequirements c,
       ct_VolumeMounts :=
         [\<lparr>vm_Name = ''configuration'', vm_MountPath = ''/configuration''\<rparr>,
          \<lparr>vm_Name = ''extra-lib'', vm_MountPath = ''/extra-lib''\<rparr>] @
         (case cm of None \<Rightarrow> [] | Some _ \<Rightarrow> [createCustomConfigVolumeMount c])\<rparr>"

section \<open>The stateful set of a rack\<close>

definition rack_affinity :: "Cluster \<Rightarrow> Rack \<Rightarrow> Affinity" where
  "rack_affinity c rack =
     \<lparr>aff_PodAntiAffinity =
        [\<lparr>pat_MatchLabels = [OperatorLabel \<mapsto> Name (cdef c)], pat_TopologyKey = ''kubernetes.io/hostname''\<rparr>],
      aff_NodeAffinity =
        [[\<lparr>nsr_Key = ''failure-domain.beta.kubernetes.io/zone'', nsr_Operator = ''In'',
           nsr_Values = [Zone rack]\<rparr>]]\<rparr>"

definition createStatefulSetForRack ::
  "Cluster \<Rightarrow> Rack \<Rightarrow> ConfigMap option \<Rightarrow> panic + StatefulSet" where
  "createStatefulSetForRack c rack cm =
     (case createCassandraContainer c of
        Inl p \<Rightarrow> Inl p
      | Inr cassandra \<Rightarrow>
          (let ls = [OperatorLabel \<mapsto> Name (cdef c), RackLabel \<mapsto> Rack_Name rack, ''app'' \<mapsto> Name (cdef c)]
           in Inr \<lparr>sts_Meta = objectMetadata c (RackName (cdef c) rack) [RackLabel, Rack_Name rack],
                sts_Generation = 0,
                sts_Selector = ls,
                sts_Replicas = Some (Replicas rack),
                sts_ServiceName = Name (cdef c),
                sts_Template =
                  \<lparr>pt_Name = [], pt_Namespace = [], pt_Labels = ls,
                   pt_Annotations =
                     (case cm of None \<Rightarrow> None
                      | Some _ \<Rightarrow> Some [ConfigHashAnnotation \<mapsto> ConfigMapHash cm]),
                   pt_Spec =
                     \<lparr>ps_ServiceAccountName = NodeServiceAccountName,
                      ps_RestartPolicy = [],
                      ps_InitContainers =
                        [createInitConfigContainer c, createCassandraBootstrapperContainer c rack cm],
                      ps_Containers = [cassandra],
                      ps_Volumes = createPodVolumes c cm,
                      ps_Affinity = Some (rack_affinity c rack)\<rparr>\<rparr>,
                sts_VolumeClaimTemplates = createCassandraDataPersistentVolumeClaimForRack c rack\<rparr>))"

section \<open>The service and the snapshot jobs\<close>

definition CreateService :: "Cluster \<Rightarrow> Service" where
  "CreateService c =
     \<lparr>svc_Meta = objectMetadata c (Name (cdef c)) [''app'', Name (cdef c)],
      svc_Selector = [''app'' \<mapsto> Name (cdef c)],
      svc_ClusterIP = ''None'',
      svc_Ports = [\<lparr>sp_Name = ''cassandra'', sp_Port = 9042, sp_TargetPort = 9042\<rparr>,
                   \<lparr>sp_Name = ''jolokia'', sp_Port = 7777, sp_TargetPort = 7777\<rparr>]\<rparr>"

definition pod_selector :: "Cluster \<Rightarrow> string" where
  "pod_selector c = OperatorLabel @ ''='' @ Cluster_Name c @ '',app='' @ Cluster_Name c"

definition CreateSnapshotContainer :: "Cluster \<Rightarrow> Snapshot \<Rightarrow> Container" where
  "CreateSnapshotContainer c snapshot =
     empty_container\<lparr>ct_Name := SnapshotJobName (cdef c), ct_Image := Snapshot_Image snapshot,
       ct_Command :=
         [''/cassandra-snapshot'', ''create'', ''-n'', Cluster_Namespace c, ''-l'', pod_selector c] @
         (case Snapshot_TimeoutSeconds snapshot of None \<Rightarrow> []
          | Some t \<Rightarrow> [''-t'', Duration_String (durationSeconds t)]) @
         (if length (elems (Keyspaces snapshot)) > 0
          then [''-k'', Join (elems (Keyspaces snapshot)) '',''] else [])\<rparr>"

text \<open>
  \<open>CreateSnapshotCleanupContainer\<close> reads the retention policy through its pointer.
\<close>

definition CreateSnapshotCleanupContainer :: "Cluster \<Rightarrow> Snapshot \<Rightarrow> panic + Container" where
  "CreateSnapshotCleanupContainer c snapshot =
     (case Snapshot_RetentionPolicy snapshot of
        None \<Rightarrow> Inl NilDereference
      | Some r \<Rightarrow>
          Inr (empty_container\<lparr>ct_Name := SnapshotCleanupJobName (cdef c),
            ct_Image := Snapshot_Image snapshot,
            ct_Command :=
              [''/cassandra-snapshot'', ''cleanup'', ''-n'', Cluster_Namespace c, ''-l'', pod_selector c] @
              (case RetentionPeriodDays r of None \<Rightarrow> []
               | Some d \<Rightarrow> [''-r'', Duration_String (durationDays d)]) @
              (case CleanupTimeoutSeconds r of None \<Rightarrow> []
               | Some t \<Rightarrow> [''-t'', Duration_String (durationSeconds t)])\<rparr>))"

definition createCronJob :: "Cluster \<Rightarrow> string \<Rightarrow> string \<Rightarrow> string \<Rightarrow> Container \<Rightarrow> CronJob" where
  "createCronJob c objectName serviceAccountName schedule container =
     \<lparr>cj_Meta = objectMetadata c objectName [''app'', objectName],
      cj_Schedule = schedule,
      cj_ConcurrencyPolicy = ''Forbid'',
      cj_JobMeta = objectMetadata c objectName [''app'', objectName],
      cj_Template =
        (let m = objectMetadata c objectName [''app'', objectName]
         in \<lparr>pt_Name = om_Name m, pt_Namespace = om_Namespace m, pt_Labels = om_Labels m,
             pt_Annotations = None,
             pt_Spec = \<lparr>ps_ServiceAccountName = serviceAccountName, ps_RestartPolicy = ''OnFailure'',
               ps_InitContainers = [], ps_Containers = [container], ps_Volumes = [],
               ps_Affinity = None\<rparr>\<rparr>)\<rparr>"

text \<open>\<open>CreateSnapshotJob\<close> and \<open>CreateSnapshotCleanupJob\<close> return nil when there is nothing to run. The
  last branch of the second cannot be taken: an enabled policy is not nil.\<close>

definition CreateSnapshotJob :: "Cluster \<Rightarrow> CronJob option" where
  "CreateSnapshotJob c =
     (case Spec_Snapshot (Spec (cdef c)) of
        None \<Rightarrow> None
      | Some s \<Rightarrow> Some (createCronJob c (SnapshotJobName (cdef c)) SnapshotServiceAccountName
                          (Schedule s) (CreateSnapshotContainer c s)))"

definition CreateSnapshotCleanupJob :: "Cluster \<Rightarrow> CronJob option" where
  "CreateSnapshotCleanupJob c =
     (case Spec_Snapshot (Spec (cdef c)) of
        None \<Rightarrow> None
      | Some s \<Rightarrow>
          (if \<not> HasRetentionPolicyEnabled s then None
           else (case (Snapshot_RetentionPolicy s, CreateSnapshotCleanupContainer c s) of
                   (Some r, Inr container) \<Rightarrow>
                     Some (createCronJob c (SnapshotCleanupJobName (cdef c)) SnapshotServiceAccountName
                             (CleanupSchedule r) container)
                 | _ \<Rightarrow> None)))"

section \<open>Mounting and unmounting a custom config map\<close>

definition update_pod :: "(PodSpec \<Rightarrow> PodSpec) \<Rightarrow> StatefulSet \<Rightarrow> StatefulSet" where
  "update_pod f sts =
     sts\<lparr>sts_Template := (sts_Template sts)\<lparr>pt_Spec := f (pt_Spec (sts_Template sts))\<rparr>\<rparr>"

definition update_annotations ::
  "((string \<rightharpoonup> string) option \<Rightarrow> (string \<rightharpoonup> string) option) \<Rightarrow> StatefulSet \<Rightarrow> StatefulSet" where
  "update_annotations f sts =
     sts\<lparr>sts_Template := (sts_Template sts)\<lparr>pt_Annotations := f (pt_Annotations (sts_Template sts))\<rparr>\<rparr>"

definition is_bootstrapper :: "Container \<Rightarrow> bool" where
  "is_bootstrapper ct \<longleftrightarrow> ct_Name ct = cassandraBootstrapperContainerName"

definition AddCustomConfigVolumeToStatefulSet :: "Cluster \<Rightarrow> StatefulSet \<Rightarrow> ConfigMap \<Rightarrow> StatefulSet" where
  "AddCustomConfigVolumeToStatefulSet c sts cm =
     update_pod (\<lambda>p. p\<lparr>ps_Volumes := ps_Volumes p @ [createConfigMapVolume c cm],
         ps_InitContainers := map (\<lambda>ct. if is_bootstrapper ct
             then ct\<lparr>ct_VolumeMounts := ct_VolumeMounts ct @ [createCustomConfigVolumeMount c]\<rparr>
             else ct) (ps_InitContainers p)\<rparr>)
       (update_annotations (\<lambda>a. Some ((case a of None \<Rightarrow> Map.empty | Some m \<Rightarrow> m)
           (ConfigHashAnnotation \<mapsto> ConfigMapHash (Some cm)))) sts)"

text \<open>
  The list of remaining mounts is declared outside the loop over the init containers, so it
  accumulates from one bootstrapper container to the next.
\<close>

fun remove_mounts :: "string \<Rightarrow> VolumeMount list \<Rightarrow> Container list \<Rightarrow> Container list" where
  "remove_mounts vol acc [] = []"
| "remove_mounts vol acc (ct # cts) =
     (if is_bootstrapper ct
      then (let acc' = acc @ filter (\<lambda>m. vm_Name m \<noteq> vol) (ct_VolumeMounts ct)
            in ct\<lparr>ct_VolumeMounts := acc'\<rparr> # remove_mounts vol acc' cts)
      else ct # remove_mounts vol acc cts)"

definition RemoveCustomConfigVolumeFromStatefulSet ::
  "Cluster \<Rightarrow> StatefulSet \<Rightarrow> ConfigMap \<Rightarrow> StatefulSet" where
  "RemoveCustomConfigVolumeFromStatefulSet c sts cm =
     update_pod (\<lambda>p. p\<lparr>ps_InitContainers :=
           remove_mounts (customConfigMapVolumeName c) [] (ps_InitContainers p)\<rparr>)
       (update_annotations (map_option (\<lambda>m. m(ConfigHashAnnotation := None)))
         (update_pod (\<lambda>p. p\<lparr>ps_Volumes :=
             filter (\<lambda>v. vol_Name v \<noteq> customConfigMapVolumeName c) (ps_Volumes p)\<rparr>) sts))"

section \<open>Well-formed stateful sets\<close>

definition volume_names :: "StatefulSet \<Rightarrow> string set" where
  "volume_names sts =
     vol_Name ` set (ps_Volumes (pt_Spec (sts_Template sts))) \<union>
     (\<lambda>v. om_Name (pvc_Meta v)) ` set (sts_VolumeClaimTemplates sts)"

definition init_containers :: "StatefulSet \<Rightarrow> Container list" where
  "init_containers sts = ps_InitContainers (pt_Spec (sts_Template sts))"

definition main_containers :: "StatefulSet \<Rightarrow> Container list" where
  "main_containers sts = ps_Containers (pt_Spec (sts_Template sts))"

definition mount_names :: "Container \<Rightarrow> string set" where
  "mount_names ct = vm_Name ` set (ct_VolumeMounts ct)"

text \<open>
  Kubernetes rejects a pod that mounts a volume it does not declare: every mount of every container
  names a volume or a volume claim template. The second clause is what makes unmounting safe: only
  the bootstrapper mounts the custom config volume, and no claim carries its name.
\<close>

definition wf_sts :: "Cluster \<Rightarrow> StatefulSet \<Rightarrow> bool" where
  "wf_sts c sts \<longleftrightarrow>
     (\<forall>ct \<in> set (init_containers sts) \<union> set (main_containers sts). mount_names ct \<subseteq> volume_names sts) \<and>
     (\<forall>ct \<in> set (init_containers sts). \<not> is_bootstrapper ct \<longrightarrow> customConfigMapVolumeName c \<notin> mount_names ct) \<and>
     (\<forall>ct \<in> set (main_containers sts). customConfigMapVolumeName c \<notin> mount_names ct)"

lemma update_pod_simps [resource_simps]:
  "pt_Spec (sts_Template (update_pod f s)) = f (pt_Spec (sts_Template s))"
  "pt_Annotations (sts_Template (update_pod f s)) = pt_Annotations (sts_Template s)"
  "pt_Labels (sts_Template (update_pod f s)) = pt_Labels (sts_Template s)"
  "sts_Meta (update_pod f s) = sts_Meta s" "sts_Replicas (update_pod f s) = sts_Replicas s"
  "sts_Selector (update_pod f s) = sts_Selector s"
  "sts_VolumeClaimTemplates (update_pod f s) = sts_VolumeClaimTemplates s"
  by (simp_all add: update_pod_def)

lemma update_annotations_simps [resource_simps]:
  "pt_Spec (sts_Template (update_annotations g s)) = pt_Spec (sts_Template s)"
  "pt_Annotations (sts_Template (update_annotations g s)) = g (pt_Annotations (sts_Template s))"
  "pt_Labels (sts_Template (update_annotations g s)) = pt_Labels (sts_Template s)"
  "sts_Meta (update_annotations g s) = sts_Meta s"
  "sts_Replicas (update_annotations g s) = sts_Replicas s"
  "sts_Selector (update_annotations g s) = sts_Selector s"
  "sts_VolumeClaimTemplates (update_annotations g s) = sts_VolumeClaimTemplates s"
  by (simp_all add: update_annotations_def)

lemma set_remove_mounts:
  "ct \<in> set (remove_mounts vol acc cts) \<Longrightarrow>
     (\<not> is_bootstrapper ct \<and> ct \<in> set cts) \<or>
     (is_bootstrapper ct \<and>
      mount_names ct \<subseteq> (vm_Name ` set acc \<union> (\<Union>b \<in> {b \<in> set cts. is_bootstrapper b}. mount_names b - {vol})))"
proof (induction vol acc cts rule: remove_mounts.induct)
  case (1 vol acc)
  then show ?case by simp
next
  case (2 vol acc b cts)
  let ?acc = "acc @ filter (\<lambda>m. vm_Name m \<noteq> vol) (ct_VolumeMounts b)"
  have acc: "vm_Name ` set ?acc = vm_Name ` set acc \<union> (mount_names b - {vol})"
    by (auto simp: mount_names_def)
  show ?case
  proof (cases "is_bootstrapper b")
    case True
    from "2.prems" True consider "ct = b\<lparr>ct_VolumeMounts := ?acc\<rparr>"
      | "ct \<in> set (remove_mounts vol ?acc cts)" by (auto simp: Let_def)
    then show ?thesis
    proof cases
      case 1
      then have "is_bootstrapper ct" using True by (simp add: is_bootstrapper_def)
      moreover have "mount_names ct = vm_Name ` set ?acc" using 1 by (simp add: mount_names_def)
      ultimately show ?thesis using True acc by auto
    next
      case 2
      then show ?thesis using "2.IH"(1) [OF True refl 2] True unfolding acc by auto
    qed
  next
    case False
    with "2.prems" "2.IH"(2) show ?thesis by auto
  qed
qed

lemma remove_mounts_id:
  assumes "length (filter is_bootstrapper cts) \<le> 1"
    and "\<forall>ct \<in> set cts. vol \<notin> mount_names ct"
  shows "remove_mounts vol [] (map (\<lambda>ct. if is_bootstrapper ct
      then ct\<lparr>ct_VolumeMounts := ct_VolumeMounts ct @ [\<lparr>vm_Name = vol, vm_MountPath = path\<rparr>]\<rparr> else ct) cts) = cts"
proof -
  have none: "\<forall>ct \<in> set cts. \<not> is_bootstrapper ct \<Longrightarrow> remove_mounts vol acc cts = cts" for acc cts
    by (induction cts) auto
  have keep: "vol \<notin> mount_names ct \<Longrightarrow> filter (\<lambda>m. vm_Name m \<noteq> vol) (ct_VolumeMounts ct) = ct_VolumeMounts ct" for ct
    by (auto simp: mount_names_def filter_id_conv)
  from assms show ?thesis
  proof (induction cts)
    case Nil
    then show ?case by simp
  next
    case (Cons ct cts)
    show ?case
    proof (cases "is_bootstrapper ct")
      case True
      then have rest: "\<forall>ct \<in> set cts. \<not> is_bootstrapper ct"
        using Cons.prems(1) by (auto simp: filter_empty_conv)
      have same: "map (\<lambda>ct. if is_bootstrapper ct
          then ct\<lparr>ct_VolumeMounts := ct_VolumeMounts ct @ [\<lparr>vm_Name = vol, vm_MountPath = path\<rparr>]\<rparr> else ct) cts = cts"
        using rest by (intro map_idI) simp
      have b: "is_bootstrapper (ct\<lparr>ct_VolumeMounts := xs\<rparr>)" for xs
        using True by (simp add: is_bootstrapper_def)
      from Cons.prems(2) True show ?thesis
        by (simp add: same b none [OF rest] Let_def keep)
    next
      case False
      with Cons show ?thesis by simp
    qed
  qed
qed

section \<open>The contract of an edit\<close>

text \<open>
  \<open>updateStatefulSet\<close> fetches a rack's stateful set, applies one of two edits and writes the result
  back. What it needs of the edit: it leaves the identity, the replicas, the selector, the labels,
  the claims and the main containers alone, and keeps the pod well-formed.
\<close>

locale rack_edit =
  fixes edit :: "Cluster \<Rightarrow> StatefulSet \<Rightarrow> ConfigMap \<Rightarrow> StatefulSet"
  assumes edit_meta: "sts_Meta (edit c s m) = sts_Meta s"
    and edit_replicas: "sts_Replicas (edit c s m) = sts_Replicas s"
    and edit_selector: "sts_Selector (edit c s m) = sts_Selector s"
    and edit_labels: "pt_Labels (sts_Template (edit c s m)) = pt_Labels (sts_Template s)"
    and edit_claims: "sts_VolumeClaimTemplates (edit c s m) = sts_VolumeClaimTemplates s"
    and edit_main: "main_containers (edit c s m) = main_containers s"
    and edit_wf: "wf_sts c s \<Longrightarrow> wf_sts c (edit c s m)"
begin

lemmas edit_frame = edit_meta edit_replicas edit_selector edit_labels edit_claims edit_main

lemma edits_wf: "wf_sts c s \<Longrightarrow> wf_sts c (fold (\<lambda>m s. edit c s m) ms s)"
  by (induction ms arbitrary: s) (simp_all add: edit_wf)

lemma edits_meta: "sts_Meta (fold (\<lambda>m s. edit c s m) ms s) = sts_Meta s"
  by (induction ms arbitrary: s) (simp_all add: edit_meta)

end

lemma add_parts [resource_simps]:
  "sts_Meta (AddCustomConfigVolumeToStatefulSet c s m) = sts_Meta s"
  "sts_Replicas (AddCustomConfigVolumeToStatefulSet c s m) = sts_Replicas s"
  "sts_Selector (AddCustomConfigVolumeToStatefulSet c s m) = sts_Selector s"
  "pt_Labels (sts_Template (AddCustomConfigVolumeToStatefulSet c s m)) = pt_Labels (sts_Template s)"
  "sts_VolumeClaimTemplates (AddCustomConfigVolumeToStatefulSet c s m) = sts_VolumeClaimTemplates s"
  "main_containers (AddCustomConfigVolumeToStatefulSet c s m) = main_containers s"
  "init_containers (AddCustomConfigVolumeToStatefulSet c s m) =
     map (\<lambda>ct. if is_bootstrapper ct
       then ct\<lparr>ct_VolumeMounts := ct_VolumeMounts ct @ [createCustomConfigVolumeMount c]\<rparr> else ct)
     (init_containers s)"
  "volume_names (AddCustomConfigVolumeToStatefulSet c s m) =
     insert (customConfigMapVolumeName c) (volume_names s)"
  by (simp_all add: AddCustomConfigVolumeToStatefulSet_def main_containers_def init_containers_def
      volume_names_def resource_simps createConfigMapVolume_def)

lemma remove_parts [resource_simps]:
  "sts_Meta (RemoveCustomConfigVolumeFromStatefulSet c s m) = sts_Meta s"
  "sts_Replicas (RemoveCustomConfigVolumeFromStatefulSet c s m) = sts_Replicas s"
  "sts_Selector (RemoveCustomConfigVolumeFromStatefulSet c s m) = sts_Selector s"
  "pt_Labels (sts_Template (RemoveCustomConfigVolumeFromStatefulSet c s m)) = pt_Labels (sts_Template s)"
  "sts_VolumeClaimTemplates (RemoveCustomConfigVolumeFromStatefulSet c s m) = sts_VolumeClaimTemplates s"
  "main_containers (RemoveCustomConfigVolumeFromStatefulSet c s m) = main_containers s"
  "init_containers (RemoveCustomConfigVolumeFromStatefulSet c s m) =
     remove_mounts (customConfigMapVolumeName c) [] (init_containers s)"
  by (simp_all add: RemoveCustomConfigVolumeFromStatefulSet_def main_containers_def
      init_containers_def resource_simps)

lemma mount_names_bootstrapper [resource_simps]:
  "mount_names (ct\<lparr>ct_VolumeMounts := ct_VolumeMounts ct @ [createCustomConfigVolumeMount c]\<rparr>) =
     insert (customConfigMapVolumeName c) (mount_names ct)"
  "is_bootstrapper (ct\<lparr>ct_VolumeMounts := ms\<rparr>) = is_bootstrapper ct"
  by (simp_all add: mount_names_def createCustomConfigVolumeMount_def is_bootstrapper_def)

lemma add_wf:
  assumes "wf_sts c s"
  shows "wf_sts c (AddCustomConfigVolumeToStatefulSet c s m)"
  using assms unfolding wf_sts_def by (fastforce simp: resource_simps)

lemma remove_wf:
  assumes wf: "wf_sts c s"
  shows "wf_sts c (RemoveCustomConfigVolumeFromStatefulSet c s m)"
proof -
  let ?t = "RemoveCustomConfigVolumeFromStatefulSet c s m"
  let ?vol = "customConfigMapVolumeName c"
  have init: "init_containers ?t = remove_mounts ?vol [] (init_containers s)"
    and main: "main_containers ?t = main_containers s"
    by (simp_all add: resource_simps)
  have vols: "volume_names s - {?vol} \<subseteq> volume_names ?t"
    by (auto simp: RemoveCustomConfigVolumeFromStatefulSet_def volume_names_def resource_simps)
  have i: "mount_names ct \<subseteq> volume_names ?t \<and> (\<not> is_bootstrapper ct \<longrightarrow> ?vol \<notin> mount_names ct)"
    if "ct \<in> set (init_containers ?t)" for ct
  proof -
    from set_remove_mounts [OF that [unfolded init]]
    consider "\<not> is_bootstrapper ct" "ct \<in> set (init_containers s)"
      | "is_bootstrapper ct"
        "mount_names ct \<subseteq> (\<Union>b \<in> set (init_containers s). mount_names b - {?vol})" by auto
    then show ?thesis
    proof cases
      case 1
      then have "mount_names ct \<subseteq> volume_names s - {?vol}" using wf by (auto simp: wf_sts_def)
      then show ?thesis using 1 vols by blast
    next
      case 2
      then have "mount_names ct \<subseteq> volume_names s - {?vol}" using wf unfolding wf_sts_def by blast
      then show ?thesis using 2 vols by blast
    qed
  qed
  have m: "mount_names ct \<subseteq> volume_names ?t \<and> ?vol \<notin> mount_names ct"
    if "ct \<in> set (main_containers ?t)" for ct
    using that wf vols unfolding main wf_sts_def by blast
  show ?thesis using i m by (auto simp: wf_sts_def)
qed

interpretation add_config: rack_edit AddCustomConfigVolumeToStatefulSet
  by unfold_locales (simp_all add: resource_simps add_wf)

interpretation remove_config: rack_edit RemoveCustomConfigVolumeFromStatefulSet
  by unfold_locales (simp_all add: resource_simps remove_wf)

section \<open>Created stateful sets\<close>

lemma createCassandraContainer_wf:
  assumes "wf_cluster cron_ok c"
  shows "\<exists>ct. createCassandraContainer c = Inr ct"
  using assms by (auto simp: wf_cluster_def createCassandraContainer_def createProbe_def Let_def)

lemma createCassandraContainer_parts:
  assumes "createCassandraContainer c = Inr ct"
  shows "ct_Name ct = cassandraContainerName" and "ct_VolumeMounts ct = createVolumeMounts c"
  using assms by (auto simp: createCassandraContainer_def Let_def split: sum.splits)

lemma createStatefulSetForRack_Inr:
  "createStatefulSetForRack c rack cm = Inr sts \<Longrightarrow> \<exists>ct. createCassandraContainer c = Inr ct"
  by (auto simp: createStatefulSetForRack_def split: sum.splits)

lemma created_parts:
  assumes "createStatefulSetForRack c rack cm = Inr sts"
  shows "om_Name (sts_Meta sts) = RackName (cdef c) rack"
    and "om_Namespace (sts_Meta sts) = Namespace (cdef c)"
    and "sts_Replicas sts = Some (Replicas rack)"
    and "sts_Selector sts = pt_Labels (sts_Template sts)"
    and "init_containers sts =
      [createInitConfigContainer c, createCassandraBootstrapperContainer c rack cm]"
    and "\<exists>ct. main_containers sts = [ct] \<and> ct_VolumeMounts ct = createVolumeMounts c"
    and "ps_Volumes (pt_Spec (sts_Template sts)) = createPodVolumes c cm"
    and "sts_VolumeClaimTemplates sts = createCassandraDataPersistentVolumeClaimForRack c rack"
    and "pt_Annotations (sts_Template sts) =
      (case cm of None \<Rightarrow> None | Some _ \<Rightarrow> Some [ConfigHashAnnotation \<mapsto> ConfigMapHash cm])"
  using assms createCassandraContainer_parts [of c]
  by (auto simp: createStatefulSetForRack_def objectMetadata_def init_containers_def
      main_containers_def Cluster_Namespace_def Let_def split: sum.splits)

lemma storage_declared:
  "createStatefulSetForRack c rack cm = Inr sts \<Longrightarrow> StorageVolumeName (cdef c) \<in> volume_names sts"
  by (auto simp: volume_names_def created_parts createPodVolumes_def emptyDir_def
      createCassandraDataPersistentVolumeClaimForRack_def objectMetadata_def)

lemma bootstrapper_names [simp]:
  "is_bootstrapper (createCassandraBootstrapperContainer c rack cm)"
  "\<not> is_bootstrapper (createInitConfigContainer c)"
  by (simp_all add: is_bootstrapper_def createCassandraBootstrapperContainer_def
      createInitConfigContainer_def cassandraBootstrapperContainerName_def)

lemma created_mounts:
  "mount_names (createInitConfigContainer c) = {''configuration''}"
  "mount_names (createCassandraBootstrapperContainer c rack cm) =
     {''configuration'', ''extra-lib''} \<union>
     (case cm of None \<Rightarrow> {} | Some _ \<Rightarrow> {customConfigMapVolumeName c})"
  "ct_VolumeMounts ct = createVolumeMounts c \<Longrightarrow>
     mount_names ct = {StorageVolumeName (cdef c), ''configuration'', ''extra-lib''}"
  by (auto simp: mount_names_def createInitConfigContainer_def createVolumeMounts_def
      createCassandraBootstrapperContainer_def createCustomConfigVolumeMount_def split: option.split)

lemma volume_name_neqs [simp]:
  "customConfigMapVolumeName c \<noteq> ''configuration''" "customConfigMapVolumeName c \<noteq> ''extra-lib''"
  "customConfigMapVolumeName c \<noteq> StorageVolumeName d"
  "StorageVolumeName d \<noteq> ''configuration''" "StorageVolumeName d \<noteq> ''extra-lib''"
  by (simp_all add: customConfigMapVolumeName_def StorageVolumeName_def)

lemmas volume_name_neqs_sym [simp] = volume_name_neqs [symmetric]

lemma created_wf:
  assumes cr: "createStatefulSetForRack c rack cm = Inr sts"
  shows "wf_sts c sts"
proof -
  obtain ct where ct: "main_containers sts = [ct]" "ct_VolumeMounts ct = createVolumeMounts c"
    using created_parts(6) [OF cr] by blast
  have v: "{''configuration'', ''extra-lib'', StorageVolumeName (cdef c)} \<union>
      (case cm of None \<Rightarrow> {} | Some _ \<Rightarrow> {customConfigMapVolumeName c}) \<subseteq> volume_names sts"
    using storage_declared [OF cr]
    by (auto simp: volume_names_def created_parts(7) [OF cr] createPodVolumes_def emptyDir_def
        createConfigMapVolume_def split: option.split)
  show ?thesis
    using v
    by (auto simp: wf_sts_def created_parts(5) [OF cr] ct(1) created_mounts created_mounts(3) [OF ct(2)])
qed

definition all_volume_names :: "StatefulSet \<Rightarrow> string list" where
  "all_volume_names sts =
     map vol_Name (ps_Volumes (pt_Spec (sts_Template sts))) @
     map (\<lambda>v. om_Name (pvc_Meta v)) (sts_VolumeClaimTemplates sts)"

lemma created_distinct:
  assumes cr: "createStatefulSetForRack c rack cm = Inr sts"
  shows "distinct (all_volume_names sts)"
  using volume_name_neqs(3) [of c "cdef c"]
  by (auto simp: all_volume_names_def created_parts(7,8) [OF cr] createPodVolumes_def emptyDir_def
      createConfigMapVolume_def createCassandraDataPersistentVolumeClaimForRack_def
      objectMetadata_def split: option.split)

text \<open>Unmounting undoes mounting, up to the annotation map, which is no longer nil.\<close>

lemma remove_add:
  assumes "customConfigMapVolumeName c \<notin> volume_names s"
    and "length (filter is_bootstrapper (init_containers s)) \<le> 1"
    and "\<forall>ct \<in> set (init_containers s). customConfigMapVolumeName c \<notin> mount_names ct"
  shows "RemoveCustomConfigVolumeFromStatefulSet c (AddCustomConfigVolumeToStatefulSet c s m) m' =
    update_annotations (\<lambda>a. Some ((case a of None \<Rightarrow> Map.empty | Some a \<Rightarrow> a)(ConfigHashAnnotation := None))) s"
proof -
  have v: "filter (\<lambda>v. vol_Name v \<noteq> customConfigMapVolumeName c) (ps_Volumes (pt_Spec (sts_Template s))) =
      ps_Volumes (pt_Spec (sts_Template s))"
    using assms(1) unfolding filter_id_conv volume_names_def by (metis UnI1 image_eqI)
  have i: "remove_mounts (customConfigMapVolumeName c) [] (map (\<lambda>ct. if is_bootstrapper ct
      then ct\<lparr>ct_VolumeMounts := ct_VolumeMounts ct @ [createCustomConfigVolumeMount c]\<rparr> else ct)
      (ps_InitContainers (pt_Spec (sts_Template s)))) = ps_InitContainers (pt_Spec (sts_Template s))"
    using remove_mounts_id [OF assms(2,3), of customConfigDir]
    unfolding createCustomConfigVolumeMount_def init_containers_def .
  have c: "vol_Name (createConfigMapVolume c m) = customConfigMapVolumeName c"
    by (simp add: createConfigMapVolume_def)
  show ?thesis
    by (simp add: RemoveCustomConfigVolumeFromStatefulSet_def AddCustomConfigVolumeToStatefulSet_def
        update_pod_def update_annotations_def v i c)
qed

lemma created_no_custom:
  assumes cr: "createStatefulSetForRack c rack None = Inr s"
  shows "customConfigMapVolumeName c \<notin> volume_names s"
    and "length (filter is_bootstrapper (init_containers s)) \<le> 1"
    and "\<forall>ct \<in> set (init_containers s). customConfigMapVolumeName c \<notin> mount_names ct"
  using volume_name_neqs(3) [of c "cdef c"]
  by (auto simp: volume_names_def created_parts [OF cr] created_mounts createPodVolumes_def
      emptyDir_def createCassandraDataPersistentVolumeClaimForRack_def objectMetadata_def)

lemma add_created_parts:
  assumes s0: "createStatefulSetForRack c rack None = Inr s0"
    and s1: "createStatefulSetForRack c rack (Some m) = Inr s1"
  shows "AddCustomConfigVolumeToStatefulSet c s0 m =
    update_pod (\<lambda>p. p\<lparr>ps_Volumes := createPodVolumes c None @ [createConfigMapVolume c m]\<rparr>) s1"
proof -
  obtain ct where ct: "createCassandraContainer c = Inr ct" using createStatefulSetForRack_Inr [OF s0] ..
  have b: "(createCassandraBootstrapperContainer c rack None)\<lparr>ct_VolumeMounts :=
      ct_VolumeMounts (createCassandraBootstrapperContainer c rack None) @ [createCustomConfigVolumeMount c]\<rparr> =
      createCassandraBootstrapperContainer c rack (Some m)"
    by (simp add: createCassandraBootstrapperContainer_def)
  show ?thesis
    using s0 [symmetric] s1 [symmetric]
    by (simp add: createStatefulSetForRack_def ct Let_def AddCustomConfigVolumeToStatefulSet_def
        update_pod_def update_annotations_def b)
qed

section \<open>Properties\<close>

definition sample_cluster :: Cluster where
  "sample_cluster = \<lparr>cdef = stored sample_definition, Online = False\<rparr>"

definition sample_rack :: Rack where
  "sample_rack = \<lparr>Rack_Name = ''a'', Zone = ''z1'', StorageClass = ''sc1'', Replicas = 2\<rparr>"

definition sample_config :: ConfigMap where
  "sample_config = \<lparr>cm_Name = ''mycluster-config'', cm_Namespace = ''mynamespace'',
     Data = Some (fmap_of_list [(''cassandra.yaml'', ''x: 1'')]), BinaryData = fmempty\<rparr>"

lemma sample_cluster_wf: "wf_cluster (\<lambda>_. True) sample_cluster"
  using wf_cluster_stored [OF sample_definition_valid, of zero_Cluster]
  by (simp add: sample_cluster_def zero_Cluster_def)



fun config_edit :: "Cluster \<Rightarrow> ConfigMap + ConfigMap \<Rightarrow> StatefulSet \<Rightarrow> StatefulSet" where
  "config_edit c (Inl m) sts = AddCustomConfigVolumeToStatefulSet c sts m"
| "config_edit c (Inr m) sts = RemoveCustomConfigVolumeFromStatefulSet c sts m"

lemma config_edit_keeps:
  "wf_sts c sts \<Longrightarrow> wf_sts c (config_edit c e sts)"
  "sts_Meta (config_edit c e sts) = sts_Meta sts"
  "sts_Replicas (config_edit c e sts) = sts_Replicas sts"
  "sts_Selector (config_edit c e sts) = sts_Selector sts"
  "sts_VolumeClaimTemplates (config_edit c e sts) = sts_VolumeClaimTemplates sts"
  by (cases e; simp add: add_config.edit_frame remove_config.edit_frame add_config.edit_wf
      remove_config.edit_wf)+


lemma sample_created:
  "\<exists>sts. createStatefulSetForRack sample_cluster sample_rack None = Inr sts"
  using createCassandraContainer_wf [OF sample_cluster_wf]
  by (auto simp: createStatefulSetForRack_def Let_def)


text \<open>
  (C36) Removing a custom config map undoes adding one: on a stateful set that does not use the custom
  config volume and has at most one bootstrapper container, the two edits give back the original,
  except that a nil annotation map has become an empty one and the hash annotation is gone.
\<close>

theorem config_roundtrip:
  assumes "customConfigMapVolumeName c \<notin> volume_names sts"
    and "length (filter is_bootstrapper (init_containers sts)) \<le> 1"
    and "\<forall>ct \<in> set (init_containers sts). customConfigMapVolumeName c \<notin> mount_names ct"
  shows "RemoveCustomConfigVolumeFromStatefulSet c (AddCustomConfigVolumeToStatefulSet c sts m) m' =
    update_annotations
      (\<lambda>a. Some ((case a of None \<Rightarrow> Map.empty | Some a \<Rightarrow> a)(ConfigHashAnnotation := None))) sts"
  using assms by (rule remove_add)

theorem config_roundtrip_witness:
  "\<exists>sts. createStatefulSetForRack sample_cluster sample_rack None = Inr sts \<and>
     RemoveCustomConfigVolumeFromStatefulSet sample_cluster
       (AddCustomConfigVolumeToStatefulSet sample_cluster sts sample_config) sample_config =
     update_annotations (\<lambda>_. Some Map.empty) sts"
proof -
  obtain sts where cr: "createStatefulSetForRack sample_cluster sample_rack None = Inr sts"
    using sample_created ..
  have a: "pt_Annotations (sts_Template sts) = None" using created_parts(9) [OF cr] by simp
  from config_roundtrip [OF created_no_custom [OF cr], of sample_config sample_config] cr a
  show ?thesis by (simp add: update_annotations_def)
qed

text \<open>
  (C37) Adding a config map to a rack that was created without one gives the stateful set that
  creating the rack with the config map would have given, down to the hash annotation; only the
  order of the volumes can differ, and it does not when the storage is persistent.
\<close>

theorem add_config_matches_creation:
  assumes "createStatefulSetForRack c rack None = Inr s0"
    and "createStatefulSetForRack c rack (Some m) = Inr s1"
  shows "update_pod (\<lambda>p. p\<lparr>ps_Volumes := []\<rparr>) (AddCustomConfigVolumeToStatefulSet c s0 m) =
      update_pod (\<lambda>p. p\<lparr>ps_Volumes := []\<rparr>) s1 \<and>
    mset (ps_Volumes (pt_Spec (sts_Template (AddCustomConfigVolumeToStatefulSet c s0 m)))) =
      mset (ps_Volumes (pt_Spec (sts_Template s1))) \<and>
    (UseEmptyDir (Spec (cdef c)) \<or> AddCustomConfigVolumeToStatefulSet c s0 m = s1)"
proof (intro conjI)
  have v: "ps_Volumes (pt_Spec (sts_Template s1)) = createPodVolumes c (Some m)"
    using created_parts(7) [OF assms(2)] .
  note e = add_created_parts [OF assms]
  show "update_pod (\<lambda>p. p\<lparr>ps_Volumes := []\<rparr>) (AddCustomConfigVolumeToStatefulSet c s0 m) =
      update_pod (\<lambda>p. p\<lparr>ps_Volumes := []\<rparr>) s1"
    by (simp add: e update_pod_def)
  show "mset (ps_Volumes (pt_Spec (sts_Template (AddCustomConfigVolumeToStatefulSet c s0 m)))) =
      mset (ps_Volumes (pt_Spec (sts_Template s1)))"
    by (simp add: e resource_simps v createPodVolumes_def)
  show "UseEmptyDir (Spec (cdef c)) \<or> AddCustomConfigVolumeToStatefulSet c s0 m = s1"
  proof (cases "UseEmptyDir (Spec (cdef c))")
    case False
    then have "createPodVolumes c None @ [createConfigMapVolume c m] = ps_Volumes (pt_Spec (sts_Template s1))"
      by (simp add: v createPodVolumes_def)
    then show ?thesis by (simp add: e update_pod_def)
  qed simp
qed

theorem add_config_matches_creation_witness:
  "\<exists>s0 s1. createStatefulSetForRack sample_cluster sample_rack None = Inr s0 \<and>
     createStatefulSetForRack sample_cluster sample_rack (Some sample_config) = Inr s1 \<and>
     AddCustomConfigVolumeToStatefulSet sample_cluster s0 sample_config = s1"
proof -
  obtain ct where "createCassandraContainer sample_cluster = Inr ct"
    using createCassandraContainer_wf [OF sample_cluster_wf] ..
  then obtain s0 s1 where "createStatefulSetForRack sample_cluster sample_rack None = Inr s0"
    "createStatefulSetForRack sample_cluster sample_rack (Some sample_config) = Inr s1"
    by (auto simp: createStatefulSetForRack_def Let_def)
  with add_config_matches_creation [OF this] show ?thesis
    by (auto simp: sample_cluster_def sample_definition_def)
qed

text \<open>
  Adding a config map is not idempotent: on a stateful set that already mounts the cluster's
  config map, as after a restart of the operator replays the creation event of the config map, the
  edit declares the volume a second time, so that two volumes have one name and the API server
  rejects the update.
\<close>

theorem add_config_twice_duplicates:
  assumes "createStatefulSetForRack c rack (Some m) = Inr sts"
  shows "\<not> distinct (all_volume_names (AddCustomConfigVolumeToStatefulSet c sts m))"
proof -
  have "vol_Name (createConfigMapVolume c m) \<in> set (map vol_Name (createPodVolumes c (Some m)))"
    by (simp add: createPodVolumes_def)
  then show ?thesis
    by (simp add: all_volume_names_def AddCustomConfigVolumeToStatefulSet_def resource_simps
        created_parts(7) [OF assms])
qed

theorem add_config_twice_duplicates_witness:
  "\<exists>sts. createStatefulSetForRack sample_cluster sample_rack (Some sample_config) = Inr sts \<and>
     \<not> distinct (all_volume_names (AddCustomConfigVolumeToStatefulSet sample_cluster sts sample_config))"
proof -
  obtain ct where "createCassandraContainer sample_cluster = Inr ct"
    using createCassandraContainer_wf [OF sample_cluster_wf] ..
  then obtain s1 where "createStatefulSetForRack sample_cluster sample_rack (Some sample_config) = Inr s1"
    by (auto simp: createStatefulSetForRack_def Let_def)
  with add_config_twice_duplicates [OF this] show ?thesis by blast
qed

end
