(* ===== verification/Adjuster.thy ===== *)
theory Adjuster
  imports Cluster
begin

text \<open>
  The difference of two definitions of a cluster, after
  \<^verbatim>\<open>cassandra-operator/pkg/operator/operations/adjuster/adjuster.go\<close>: which racks are new, kept
  or gone, which changes are refused, the ordered list of changes to apply and the JSON patches
  that carry them. The patches are the exact strings that the code sends; Go's template engine is
  modelled as far as the template uses it: texts and fields, written one after the other until a
  field of a nil probe stops the execution (the code ignores the error and sends what was
  written).
\<close>

section \<open>Patches\<close>

definition nl :: string where
  "nl = [CHR 0x0A]"

definition tab :: string where
  "tab = [CHR 0x09]"

definition quoted :: "string \<Rightarrow> string" where
  "quoted s = [dquote] @ s @ [dquote]"

record patchProperties =
  Props_Replicas :: int32
  PodBootstrapperImage :: string
  PodCPU :: string
  PodMemory :: string
  PodLivenessProbe :: "Probe option"
  PodReadinessProbe :: "Probe option"

datatype template_part = Text string | Field "patchProperties \<Rightarrow> string option"

text \<open>Executing a template writes its parts in order and stops at a field that fails.\<close>

fun Execute :: "template_part list \<Rightarrow> patchProperties \<Rightarrow> string" where
  "Execute [] p = []"
| "Execute (Text s # ts) p = s @ Execute ts p"
| "Execute (Field f # ts) p = (case f p of None \<Rightarrow> [] | Some s \<Rightarrow> s @ Execute ts p)"

definition probe_field ::
    "(patchProperties \<Rightarrow> Probe option) \<Rightarrow> (Probe \<Rightarrow> int32) \<Rightarrow> patchProperties \<Rightarrow> string option" where
  "probe_field pr field p = map_option (\<lambda>q. itoa (sint (field q))) (pr p)"

definition statefulSetPatchTemplate :: "template_part list" where
  "statefulSetPatchTemplate =
     [Text (''{'' @ nl @
     ''  '' @ quoted ''spec'' @ '': {'' @ nl @
     ''    '' @ quoted ''replicas'' @ '': ''),
      Field (\<lambda>p. Some (itoa (sint (Props_Replicas p)))),
      Text ('','' @ nl @
     ''    '' @ quoted ''template'' @ '': {'' @ nl @
     ''      '' @ quoted ''spec'' @ '': {'' @ nl @
     tab @ tab @ quoted ''initContainers'' @ '': [{'' @ nl @
     ''           '' @ quoted ''name'' @ '': '' @ quoted ''cassandra-bootstrapper'' @ '','' @
     tab @ nl @
     ''           '' @ quoted ''image'' @ '': '' @ [dquote]),
      Field (\<lambda>p. Some (PodBootstrapperImage p)),
      Text ([dquote] @ tab @ nl @
     tab @ tab @ ''}],'' @ nl @
     ''        '' @ quoted ''containers'' @ '': [{'' @ nl @
     ''           '' @ quoted ''name'' @ '': '' @ quoted ''cassandra'' @ '','' @ nl @
     ''           '' @ quoted ''livenessProbe'' @ '': {'' @ nl @
     ''             '' @ quoted ''failureThreshold'' @ '': ''),
      Field (probe_field PodLivenessProbe FailureThreshold),
      Text ('','' @ nl @
     ''             '' @ quoted ''initialDelaySeconds'' @ '': ''),
      Field (probe_field PodLivenessProbe InitialDelaySeconds),
      Text ('','' @ nl @
     ''             '' @ quoted ''periodSeconds'' @ '': ''),
      Field (probe_field PodLivenessProbe PeriodSeconds),
      Text ('','' @ nl @
     ''             '' @ quoted ''successThreshold'' @ '': ''),
      Field (probe_field PodLivenessProbe SuccessThreshold),
      Text ('','' @ nl @
     ''             '' @ quoted ''timeoutSeconds'' @ '': ''),
      Field (probe_field PodLivenessProbe TimeoutSeconds),
      Text (nl @
     ''           },'' @ nl @
     ''           '' @ quoted ''readinessProbe'' @ '': {'' @ nl @
     ''             '' @ quoted ''failureThreshold'' @ '': ''),
      Field (probe_field PodReadinessProbe FailureThreshold),
      Text ('','' @ nl @
     ''             '' @ quoted ''initialDelaySeconds'' @ '': ''),
      Field (probe_field PodReadinessProbe InitialDelaySeconds),
      Text ('','' @ nl @
     ''             '' @ quoted ''periodSeconds'' @ '': ''),
      Field (probe_field PodReadinessProbe PeriodSeconds),
      Text ('','' @ nl @
     ''             '' @ quoted ''successThreshold'' @ '': ''),
      Field (probe_field PodReadinessProbe SuccessThreshold),
      Text ('','' @ nl @
     ''             '' @ quoted ''timeoutSeconds'' @ '': ''),
      Field (probe_field PodReadinessProbe TimeoutSeconds),
      Text (nl @
     ''           },'' @ nl @
     ''           '' @ quoted ''resources'' @ '': {'' @ nl @
     ''             '' @ quoted ''requests'' @ '': {'' @ nl @
     ''               '' @ quoted ''cpu'' @ '': '' @ [dquote]),
      Field (\<lambda>p. Some (PodCPU p)),
      Text ([dquote] @ '','' @ nl @
     ''               '' @ quoted ''memory'' @ '': '' @ [dquote]),
      Field (\<lambda>p. Some (PodMemory p)),
      Text ([dquote] @ nl @
     ''             },'' @ nl @
     tab @ tab @ tab @ '' '' @ quoted ''limits'' @ '': {'' @ nl @
     ''               '' @ quoted ''memory'' @ '': '' @ [dquote]),
      Field (\<lambda>p. Some (PodMemory p)),
      Text ([dquote] @ nl @
     ''             }'' @ nl @
     tab @ ''       }'' @ nl @
     ''        }]'' @ nl @
     ''      }'' @ nl @
     ''    }'' @ nl @
     ''  }'' @ nl @
     ''}'')]"

definition updateAnnotationPatchFormat :: "string \<Rightarrow> string \<Rightarrow> string" where
  "updateAnnotationPatchFormat k v =
     ''{'' @ nl @
     ''  '' @ quoted ''spec'' @ '': {'' @ nl @
     ''    '' @ quoted ''template'' @ '': {'' @ nl @
     ''      '' @ quoted ''metadata'' @ '': {'' @ nl @
     tab @ tab @ quoted ''annotations'' @ '': {'' @ nl @
     tab @ tab @ tab @ [dquote] @ k @
     quoted '': '' @ v @
     [dquote] @ nl @
     tab @ tab @ ''}'' @ nl @
     ''      }'' @ nl @
     ''    }'' @ nl @
     ''  }'' @ nl @
     ''}''"

definition scaleDownPatchTemplate :: "int \<Rightarrow> string" where
  "scaleDownPatchTemplate n =
     ''{'' @ quoted ''spec'' @ '': {'' @ quoted ''replicas'' @ '': '' @ itoa n @ ''}}''"

section \<open>Changes\<close>

datatype ClusterChangeType = AddRack | deleteRack | scaleDownRack | UpdateRack

record ClusterChange =
  Change_Rack :: Rack
  ChangeType :: ClusterChangeType
  Patch :: string
  nodesToScaleDown :: int

record matchedRack =
  mr_old :: Rack
  mr_new :: Rack

definition findRack :: "Rack \<Rightarrow> Rack list \<Rightarrow> Rack option" where
  "findRack rackToFind racks = find (\<lambda>rack. Rack_Name rack = Rack_Name rackToFind) racks"

text \<open>The added, the matched and the removed racks.\<close>

fun matched_or_removed :: "Rack list \<Rightarrow> Rack list \<Rightarrow> matchedRack list \<times> Rack list" where
  "matched_or_removed [] new_racks = ([], [])"
| "matched_or_removed (oldRack # rest) new_racks =
     (let (matched, removed) = matched_or_removed rest new_racks
      in case findRack oldRack new_racks of
           Some foundRack \<Rightarrow> (\<lparr>mr_old = oldRack, mr_new = foundRack\<rparr> # matched, removed)
         | None \<Rightarrow> (matched, oldRack # removed))"

definition matchRacks ::
    "CassandraSpec \<Rightarrow> CassandraSpec \<Rightarrow> Rack list \<times> matchedRack list \<times> Rack list" where
  "matchRacks oldCluster newCluster =
     (let (matchedRacks, removedRacks) = matched_or_removed (Racks oldCluster) (Racks newCluster);
          addedRacks = filter (\<lambda>r. findRack r (Racks oldCluster) = None) (Racks newCluster)
      in (addedRacks, matchedRacks, removedRacks))"

definition scaledUpRacks :: "matchedRack list \<Rightarrow> Rack list" where
  "scaledUpRacks ms = map mr_new (filter (\<lambda>m. Replicas (mr_old m) <s Replicas (mr_new m)) ms)"

definition scaledDownRacks :: "matchedRack list \<Rightarrow> matchedRack list" where
  "scaledDownRacks ms = filter (\<lambda>m. Replicas (mr_new m) <s Replicas (mr_old m)) ms"

definition podSpecHasChanged :: "CassandraSpec \<Rightarrow> CassandraSpec \<Rightarrow> bool" where
  "podSpecHasChanged oldCluster newCluster \<longleftrightarrow>
     CPU (Spec_Pod oldCluster) \<noteq> CPU (Spec_Pod newCluster) \<or>
     Memory (Spec_Pod oldCluster) \<noteq> Memory (Spec_Pod newCluster) \<or>
     LivenessProbe (Spec_Pod oldCluster) \<noteq> LivenessProbe (Spec_Pod newCluster) \<or>
     ReadinessProbe (Spec_Pod oldCluster) \<noteq> ReadinessProbe (Spec_Pod newCluster) \<or>
     BootstrapperImage (Spec_Pod oldCluster) \<noteq> BootstrapperImage (Spec_Pod newCluster)"

section \<open>Forbidden changes\<close>

datatype adjust_error =
    ChangingDC string
  | ChangingImage string
  | ChangingUseEmptyDir bool
  | ChangingStorageClass string string
  | ChangingZone string string

definition squoted :: "string \<Rightarrow> string" where
  "squoted s = [CHR 0x27] @ s @ [CHR 0x27]"

fun adjust_message :: "adjust_error \<Rightarrow> string" where
  "adjust_message (ChangingDC dc) =
     ''changing dc is forbidden. The dc used will continue to be '' @ squoted dc"
| "adjust_message (ChangingImage img) =
     ''changing image is forbidden. The image used will continue to be '' @ squoted img"
| "adjust_message (ChangingUseEmptyDir b) =
     ''changing useEmptyDir is forbidden. The useEmptyDir used will continue to be '' @
     squoted (if b then ''true'' else ''false'')"
| "adjust_message (ChangingStorageClass rack sc) =
     ''changing storageClass for rack '' @ squoted rack @
     '' is forbidden. The storageClass used will continue to be '' @ squoted sc"
| "adjust_message (ChangingZone rack zone) =
     ''changing zone for rack '' @ squoted rack @
     '' is forbidden. The zone used will continue to be '' @ squoted zone"

fun ensureRacksAllowed :: "matchedRack list \<Rightarrow> adjust_error option" where
  "ensureRacksAllowed [] = None"
| "ensureRacksAllowed (m # ms) =
     (if StorageClass (mr_new m) \<noteq> StorageClass (mr_old m)
      then Some (ChangingStorageClass (Rack_Name (mr_old m)) (StorageClass (mr_old m)))
      else if Zone (mr_new m) \<noteq> Zone (mr_old m)
      then Some (ChangingZone (Rack_Name (mr_old m)) (Zone (mr_old m)))
      else ensureRacksAllowed ms)"

definition ensureChangeIsAllowed ::
    "CassandraSpec \<Rightarrow> CassandraSpec \<Rightarrow> matchedRack list \<Rightarrow> adjust_error option" where
  "ensureChangeIsAllowed oldCluster newCluster matchedRacks =
     (if DC oldCluster \<noteq> DC newCluster
      then Some (ChangingDC (if DC oldCluster = [] then DefaultDCName else DC oldCluster))
      else if Image (Spec_Pod oldCluster) \<noteq> Image (Spec_Pod newCluster)
      then Some (ChangingImage (if Image (Spec_Pod oldCluster) = [] then DefaultCassandraImage
                                else Image (Spec_Pod oldCluster)))
      else if UseEmptyDir oldCluster \<noteq> UseEmptyDir newCluster
      then Some (ChangingUseEmptyDir (UseEmptyDir oldCluster))
      else ensureRacksAllowed matchedRacks)"

section \<open>The list of changes\<close>

definition patch_properties :: "Rack \<Rightarrow> CassandraSpec \<Rightarrow> patchProperties" where
  "patch_properties rack newCluster =
     \<lparr>Props_Replicas = Replicas rack,
      PodBootstrapperImage = BootstrapperImage (Spec_Pod newCluster),
      PodCPU = q_String (CPU (Spec_Pod newCluster)),
      PodMemory = q_String (Memory (Spec_Pod newCluster)),
      PodLivenessProbe = LivenessProbe (Spec_Pod newCluster),
      PodReadinessProbe = ReadinessProbe (Spec_Pod newCluster)\<rparr>"

definition patchForRack :: "Rack \<Rightarrow> CassandraSpec \<Rightarrow> string" where
  "patchForRack rack newCluster =
     Execute statefulSetPatchTemplate (patch_properties rack newCluster)"

definition scaleDownPatchForRack :: "int \<Rightarrow> string" where
  "scaleDownPatchForRack n = scaleDownPatchTemplate n"

definition add_change :: "Rack \<Rightarrow> ClusterChange" where
  "add_change rack = \<lparr>Change_Rack = rack, ChangeType = AddRack, Patch = [], nodesToScaleDown = 0\<rparr>"

definition delete_change :: "Rack \<Rightarrow> ClusterChange" where
  "delete_change rack =
     \<lparr>Change_Rack = rack, ChangeType = deleteRack, Patch = [], nodesToScaleDown = 0\<rparr>"

definition scale_down_change :: "matchedRack \<Rightarrow> ClusterChange" where
  "scale_down_change m =
     (let n = sint (Replicas (mr_old m) - Replicas (mr_new m))
      in \<lparr>Change_Rack = mr_new m, ChangeType = scaleDownRack, Patch = scaleDownPatchForRack n,
          nodesToScaleDown = n\<rparr>)"

definition update_change :: "CassandraSpec \<Rightarrow> Rack \<Rightarrow> ClusterChange" where
  "update_change newCluster rack =
     \<lparr>Change_Rack = rack, ChangeType = UpdateRack, Patch = patchForRack rack newCluster,
      nodesToScaleDown = 0\<rparr>"

definition ChangesForCluster ::
    "CassandraSpec \<Rightarrow> CassandraSpec \<Rightarrow> adjust_error + ClusterChange list" where
  "ChangesForCluster oldCluster newCluster =
     (let (addedRacks, matchedRacks, deletedRacks) = matchRacks oldCluster newCluster
      in case ensureChangeIsAllowed oldCluster newCluster matchedRacks of
           Some err \<Rightarrow> Inl err
         | None \<Rightarrow>
             Inr (map add_change addedRacks @
                  map delete_change deletedRacks @
                  map scale_down_change (scaledDownRacks matchedRacks) @
                  (if podSpecHasChanged oldCluster newCluster
                   then map (\<lambda>m. update_change newCluster (mr_new m)) matchedRacks
                   else map (update_change newCluster) (scaledUpRacks matchedRacks))))"

definition CreateConfigMapHashPatchForRack :: "Rack \<Rightarrow> ConfigMap \<Rightarrow> ClusterChange" where
  "CreateConfigMapHashPatchForRack rack configMap =
     \<lparr>Change_Rack = rack, ChangeType = UpdateRack,
      Patch = updateAnnotationPatchFormat ConfigHashAnnotation (ConfigMapHash (Some configMap)),
      nodesToScaleDown = 0\<rparr>"

section \<open>Change types are ordered by the phase they are applied in\<close>

fun phase :: "ClusterChangeType \<Rightarrow> nat" where
  "phase AddRack = 0"
| "phase deleteRack = 1"
| "phase scaleDownRack = 2"
| "phase UpdateRack = 3"

lemma phase_inject [simp]: "phase x = phase y \<longleftrightarrow> x = y"
  by (cases x; cases y) simp_all

instantiation ClusterChangeType :: linorder
begin

definition less_eq_ClusterChangeType :: "ClusterChangeType \<Rightarrow> ClusterChangeType \<Rightarrow> bool" where
  "less_eq_ClusterChangeType x y \<longleftrightarrow> phase x \<le> phase y"

definition less_ClusterChangeType :: "ClusterChangeType \<Rightarrow> ClusterChangeType \<Rightarrow> bool" where
  "less_ClusterChangeType x y \<longleftrightarrow> phase x < phase y"

instance
  by standard (auto simp: less_eq_ClusterChangeType_def less_ClusterChangeType_def)

end

section \<open>Matching racks\<close>

lemma findRack_Some:
  "findRack r racks = Some r' \<Longrightarrow> r' \<in> set racks \<and> Rack_Name r' = Rack_Name r"
  by (auto simp: findRack_def find_Some_iff)

lemma findRack_None: "findRack r racks = None \<longleftrightarrow> Rack_Name r \<notin> Rack_Name ` set racks"
  unfolding findRack_def find_None_iff image_iff by metis

lemma findRack_distinct:
  assumes "distinct (map Rack_Name racks)"
  shows "findRack r racks = Some r' \<longleftrightarrow> r' \<in> set racks \<and> Rack_Name r' = Rack_Name r"
proof
  assume "r' \<in> set racks \<and> Rack_Name r' = Rack_Name r"
  moreover from this obtain r'' where r'': "findRack r racks = Some r''"
    by (cases "findRack r racks") (auto simp: findRack_None image_iff)
  ultimately show "findRack r racks = Some r'"
    using findRack_Some [OF r''] distinct_map_unique [OF assms] by metis
qed (rule findRack_Some)

lemma matched_or_removed_eq:
  "matched_or_removed olds news =
     (map (\<lambda>r. \<lparr>mr_old = r, mr_new = the (findRack r news)\<rparr>)
        (filter (\<lambda>r. findRack r news \<noteq> None) olds),
      filter (\<lambda>r. findRack r news = None) olds)"
  by (induction olds) (auto split: option.split)

definition matched :: "CassandraSpec \<Rightarrow> CassandraSpec \<Rightarrow> matchedRack list" where
  "matched old new = fst (snd (matchRacks old new))"

definition deleted :: "CassandraSpec \<Rightarrow> CassandraSpec \<Rightarrow> Rack list" where
  "deleted old new = snd (snd (matchRacks old new))"

definition added :: "CassandraSpec \<Rightarrow> CassandraSpec \<Rightarrow> Rack list" where
  "added old new = fst (matchRacks old new)"

lemma matchRacks_eq: "matchRacks old new = (added old new, matched old new, deleted old new)"
  by (simp add: added_def matched_def deleted_def)

lemma set_added: "set (added old new) = {r \<in> set (Racks new). Rack_Name r \<notin> Rack_Name ` set (Racks old)}"
  by (auto simp: added_def matchRacks_def matched_or_removed_eq findRack_None)

lemma set_deleted:
  "set (deleted old new) = {r \<in> set (Racks old). Rack_Name r \<notin> Rack_Name ` set (Racks new)}"
  by (auto simp: deleted_def matchRacks_def matched_or_removed_eq findRack_None)

lemma set_matched_find:
  "set (matched old new) =
     {\<lparr>mr_old = r, mr_new = r'\<rparr> |r r'. r \<in> set (Racks old) \<and> findRack r (Racks new) = Some r'}"
  by (force simp: matched_def matchRacks_def matched_or_removed_eq)

lemma set_matched:
  assumes "distinct (map Rack_Name (Racks new))"
  shows "set (matched old new) =
    {\<lparr>mr_old = r, mr_new = r'\<rparr> |r r'.
       r \<in> set (Racks old) \<and> r' \<in> set (Racks new) \<and> Rack_Name r' = Rack_Name r}"
  by (simp add: set_matched_find findRack_distinct [OF assms])

lemma matched_names:
  assumes "distinct (map Rack_Name (Racks old))"
  shows "distinct (map (\<lambda>m. Rack_Name (mr_new m)) (matched old new))"
proof -
  have "map (\<lambda>m. Rack_Name (mr_new m)) (matched old new) =
      map Rack_Name (filter (\<lambda>r. findRack r (Racks new) \<noteq> None) (Racks old))"
    by (auto simp: matched_def matchRacks_def matched_or_removed_eq dest: findRack_Some)
  then show ?thesis using assms distinct_map_filter by metis
qed

section \<open>Forbidden changes, without the order of the checks\<close>

definition forbidden_change :: "CassandraSpec \<Rightarrow> CassandraSpec \<Rightarrow> bool" where
  "forbidden_change old new \<longleftrightarrow>
     DC old \<noteq> DC new \<or> Image (Spec_Pod old) \<noteq> Image (Spec_Pod new) \<or>
     UseEmptyDir old \<noteq> UseEmptyDir new \<or>
     (\<exists>r \<in> set (Racks old). \<exists>r'. findRack r (Racks new) = Some r' \<and>
        (StorageClass r' \<noteq> StorageClass r \<or> Zone r' \<noteq> Zone r))"

lemma ensureRacksAllowed_None:
  "ensureRacksAllowed ms = None \<longleftrightarrow>
     (\<forall>m \<in> set ms. StorageClass (mr_new m) = StorageClass (mr_old m) \<and>
        Zone (mr_new m) = Zone (mr_old m))"
  by (induction ms) auto

lemma ensureChangeIsAllowed_None:
  "ensureChangeIsAllowed old new (matched old new) = None \<longleftrightarrow> \<not> forbidden_change old new"
proof -
  have all: "(\<forall>m \<in> set (matched old new). P m) \<longleftrightarrow>
      (\<forall>r \<in> set (Racks old). \<forall>r'. findRack r (Racks new) = Some r' \<longrightarrow>
         P \<lparr>mr_old = r, mr_new = r'\<rparr>)" for P
    by (auto simp: set_matched_find)
  show ?thesis
    by (auto simp: ensureChangeIsAllowed_def forbidden_change_def ensureRacksAllowed_None all)
qed

definition updated_racks :: "CassandraSpec \<Rightarrow> CassandraSpec \<Rightarrow> Rack list" where
  "updated_racks old new =
     (if podSpecHasChanged old new then map mr_new (matched old new)
      else scaledUpRacks (matched old new))"

lemma ChangesForCluster_allowed:
  "\<not> forbidden_change old new \<Longrightarrow> ChangesForCluster old new =
     Inr (map add_change (added old new) @ map delete_change (deleted old new) @
          map scale_down_change (scaledDownRacks (matched old new)) @
          map (update_change new) (updated_racks old new))"
  by (simp add: ChangesForCluster_def matchRacks_eq updated_racks_def
      flip: ensureChangeIsAllowed_None)

lemma ChangesForCluster_forbidden:
  "forbidden_change old new \<Longrightarrow> \<exists>err. ChangesForCluster old new = Inl err"
  using ensureChangeIsAllowed_None [of old new]
  by (auto simp: ChangesForCluster_def matchRacks_eq split: option.split)

lemma ChangesForCluster_Inr:
  "ChangesForCluster old new = Inr cs \<longleftrightarrow> \<not> forbidden_change old new \<and>
     cs = map add_change (added old new) @ map delete_change (deleted old new) @
          map scale_down_change (scaledDownRacks (matched old new)) @
          map (update_change new) (updated_racks old new)"
  using ChangesForCluster_forbidden [of old new] ChangesForCluster_allowed [of old new]
  by (cases "forbidden_change old new") auto

text \<open>What an error says: the field that may not change and the value that stays in use.\<close>

fun reports :: "CassandraSpec \<Rightarrow> CassandraSpec \<Rightarrow> adjust_error \<Rightarrow> bool" where
  "reports old new (ChangingDC dc) \<longleftrightarrow>
     DC old \<noteq> DC new \<and> dc = (if DC old = [] then DefaultDCName else DC old)"
| "reports old new (ChangingImage img) \<longleftrightarrow>
     Image (Spec_Pod old) \<noteq> Image (Spec_Pod new) \<and>
     img = (if Image (Spec_Pod old) = [] then DefaultCassandraImage else Image (Spec_Pod old))"
| "reports old new (ChangingUseEmptyDir b) \<longleftrightarrow>
     UseEmptyDir old \<noteq> UseEmptyDir new \<and> b = UseEmptyDir old"
| "reports old new (ChangingStorageClass n sc) \<longleftrightarrow>
     (\<exists>r \<in> set (Racks old). \<exists>r'. findRack r (Racks new) = Some r' \<and> Rack_Name r = n \<and>
        StorageClass r = sc \<and> StorageClass r' \<noteq> sc)"
| "reports old new (ChangingZone n z) \<longleftrightarrow>
     (\<exists>r \<in> set (Racks old). \<exists>r'. findRack r (Racks new) = Some r' \<and> Rack_Name r = n \<and>
        Zone r = z \<and> Zone r' \<noteq> z)"

lemma ensureRacksAllowed_reports:
  "ensureRacksAllowed ms = Some err \<Longrightarrow> set ms \<subseteq> set (matched old new) \<Longrightarrow> reports old new err"
proof (induction ms)
  case (Cons m ms)
  from Cons.prems(2) have "m \<in> set (matched old new)" by simp
  then obtain r r' where "m = \<lparr>mr_old = r, mr_new = r'\<rparr>" "r \<in> set (Racks old)"
    "findRack r (Racks new) = Some r'"
    by (auto simp: set_matched_find)
  with Cons show ?case
    by (auto split: if_splits intro!: bexI [of _ r] exI [of _ r'])
qed simp

lemma ensureChangeIsAllowed_reports:
  "ensureChangeIsAllowed old new (matched old new) = Some err \<Longrightarrow> reports old new err"
  using ensureRacksAllowed_reports [of "matched old new" err old new]
  by (auto simp: ensureChangeIsAllowed_def split: if_splits)

text \<open>
  (C18) An update is refused exactly when it changes the data centre, the image, the use of empty
  directories, or the storage class or zone of a rack that stays; the error names a field that
  did change and the value the running cluster has for it.
\<close>

theorem ChangesForCluster_refuses_exactly_forbidden:
  "case ChangesForCluster old new of
     Inl err \<Rightarrow> forbidden_change old new \<and> reports old new err
   | Inr changes \<Rightarrow> \<not> forbidden_change old new"
  using ensureChangeIsAllowed_None [of old new] ensureChangeIsAllowed_reports [of old new]
  by (auto simp: ChangesForCluster_def matchRacks_eq split: option.split)

section \<open>What the changes are\<close>

definition racks_with :: "ClusterChangeType \<Rightarrow> ClusterChange list \<Rightarrow> Rack set" where
  "racks_with t cs = Change_Rack ` {c \<in> set cs. ChangeType c = t}"

lemma change_fields [simp]:
  "ChangeType (add_change r) = AddRack" "Change_Rack (add_change r) = r"
  "ChangeType (delete_change r) = deleteRack" "Change_Rack (delete_change r) = r"
  "ChangeType (scale_down_change m) = scaleDownRack" "Change_Rack (scale_down_change m) = mr_new m"
  "ChangeType (update_change s r) = UpdateRack" "Change_Rack (update_change s r) = r"
  by (simp_all add: add_change_def delete_change_def scale_down_change_def update_change_def Let_def)

lemma racks_with_append [simp]: "racks_with t (cs @ ds) = racks_with t cs \<union> racks_with t ds"
  by (auto simp: racks_with_def)

lemma racks_with_map:
  assumes "\<And>x. ChangeType (f x) = u"
  shows "racks_with t (map f xs) = (if t = u then Change_Rack ` f ` set xs else {})"
  using assms by (auto simp: racks_with_def)

lemma racks_with_simps [simp]:
  "racks_with t (map add_change rs) = (if t = AddRack then set rs else {})"
  "racks_with t (map delete_change rs) = (if t = deleteRack then set rs else {})"
  "racks_with t (map scale_down_change ms) = (if t = scaleDownRack then mr_new ` set ms else {})"
  "racks_with t (map (update_change s) rs) = (if t = UpdateRack then set rs else {})"
  by (simp_all add: racks_with_map image_image)

lemma ClusterChangeType_le [simp]:
  "AddRack \<le> t" "t \<le> UpdateRack" "deleteRack \<le> scaleDownRack"
  by (cases t; simp add: less_eq_ClusterChangeType_def)+

lemma sorted_wrt_map_const: "(\<And>x. f x = c) \<Longrightarrow> sorted (map f xs)" for c :: "'a :: linorder"
  by (induction xs) auto

lemma set_updated:
  assumes "distinct (map Rack_Name (Racks new))"
  shows "set (updated_racks old new) =
    {r' \<in> set (Racks new). \<exists>r \<in> set (Racks old). Rack_Name r = Rack_Name r' \<and>
       (podSpecHasChanged old new \<or> Replicas r <s Replicas r')}"
  unfolding updated_racks_def scaledUpRacks_def
  by (force simp: set_matched [OF assms] image_iff)

lemma set_scaled_down:
  assumes "distinct (map Rack_Name (Racks new))"
  shows "mr_new ` set (scaledDownRacks (matched old new)) =
    {r' \<in> set (Racks new). \<exists>r \<in> set (Racks old). Rack_Name r = Rack_Name r' \<and>
       Replicas r' <s Replicas r}"
  unfolding scaledDownRacks_def
  by (force simp: set_matched [OF assms] image_iff)

text \<open>
  (C17) The changes of an allowed update come in phases (racks to add, then racks to delete, then
  racks to shrink, then racks to update), and each phase holds exactly the racks it should: the
  new ones, the removed ones, the ones with fewer replicas, and, when the pod has changed, every
  rack that stays, otherwise those with more replicas.
\<close>

theorem ChangesForCluster_changes:
  assumes "distinct (map Rack_Name (Racks new))"
    and "ChangesForCluster old new = Inr cs"
  shows "sorted (map ChangeType cs) \<and>
    racks_with AddRack cs =
      {r \<in> set (Racks new). Rack_Name r \<notin> Rack_Name ` set (Racks old)} \<and>
    racks_with deleteRack cs =
      {r \<in> set (Racks old). Rack_Name r \<notin> Rack_Name ` set (Racks new)} \<and>
    racks_with scaleDownRack cs =
      {r' \<in> set (Racks new). \<exists>r \<in> set (Racks old). Rack_Name r = Rack_Name r' \<and>
         Replicas r' <s Replicas r} \<and>
    racks_with UpdateRack cs =
      {r' \<in> set (Racks new). \<exists>r \<in> set (Racks old). Rack_Name r = Rack_Name r' \<and>
         (podSpecHasChanged old new \<or> Replicas r <s Replicas r')}"
proof -
  from assms(2) have cs: "cs = map add_change (added old new) @ map delete_change (deleted old new) @
      map scale_down_change (scaledDownRacks (matched old new)) @
      map (update_change new) (updated_racks old new)"
    by (simp add: ChangesForCluster_Inr)
  have "sorted (map ChangeType cs)"
    unfolding cs by (auto simp: sorted_append comp_def intro!: sorted_wrt_map_const)
  then show ?thesis
    by (simp add: cs set_added set_deleted set_updated [OF assms(1)] set_scaled_down [OF assms(1)])
qed

section \<open>What a patch carries\<close>

text \<open>Reading back the replica count of a patch: the number after its first two lines.\<close>

definition patch_head :: string where
  "patch_head = ''{'' @ nl @ ''  '' @ quoted ''spec'' @ '': {'' @ nl @
     ''    '' @ quoted ''replicas'' @ '': ''"

definition patch_replicas :: "string \<Rightarrow> int option" where
  "patch_replicas s =
     (if prefix patch_head s
      then (case Atoi (takeWhile (\<lambda>c. c \<noteq> CHR '','') (drop (length patch_head) s)) of
              Inl err \<Rightarrow> None
            | Inr n \<Rightarrow> Some n)
      else None)"

lemma itoa_no_comma: "c \<in> set (itoa i) \<Longrightarrow> c \<noteq> CHR '',''"
  by (auto simp: itoa_def is_digit_def split: if_splits dest!: dec_digits)

lemma patchForRack_head:
  "\<exists>rest. patchForRack rack new = patch_head @ itoa (sint (Replicas rack)) @ CHR '','' # rest"
  by (simp add: patchForRack_def statefulSetPatchTemplate_def patch_properties_def patch_head_def)

lemma Atoi_itoa_sint: "Atoi (itoa (sint (w :: int32))) = Inr (sint w)"
  using sint_range_size [of w] by (intro Atoi_itoa) (simp_all add: word_size)

lemma patch_replicas_patchForRack [simp]:
  "patch_replicas (patchForRack rack new) = Some (sint (Replicas rack))"
proof -
  obtain rest where eq:
    "patchForRack rack new = patch_head @ itoa (sint (Replicas rack)) @ CHR '','' # rest"
    using patchForRack_head by blast
  have "takeWhile (\<lambda>c. c \<noteq> CHR '','') (itoa (sint (Replicas rack)) @ CHR '','' # rest) =
      itoa (sint (Replicas rack))"
    by (subst takeWhile_append2) (auto dest: itoa_no_comma)
  then show ?thesis
    by (simp add: patch_replicas_def eq Atoi_itoa_sint)
qed

text \<open>
  The sizes of the stateful sets of a cluster, by rack name, and what the operator does to them
  when it applies a change: a new rack is created with its replicas, a patch sets the number it
  holds, and the other two kinds of change are reported as unsupported and change nothing.
\<close>

type_synonym sizes = "string \<rightharpoonup> int"

definition sizes_of :: "CassandraSpec \<Rightarrow> sizes" where
  "sizes_of s = map_of (map (\<lambda>r. (Rack_Name r, sint (Replicas r))) (Racks s))"

definition apply_size :: "ClusterChange \<Rightarrow> sizes \<Rightarrow> sizes" where
  "apply_size c m =
     (case ChangeType c of
        AddRack \<Rightarrow> m(Rack_Name (Change_Rack c) \<mapsto> sint (Replicas (Change_Rack c)))
      | UpdateRack \<Rightarrow>
          (case patch_replicas (Patch c) of
             None \<Rightarrow> m
           | Some n \<Rightarrow> m(Rack_Name (Change_Rack c) \<mapsto> n))
      | _ \<Rightarrow> m)"

definition put_rack :: "Rack \<Rightarrow> sizes \<Rightarrow> sizes" where
  "put_rack r m = m(Rack_Name r \<mapsto> sint (Replicas r))"

lemma put_rack_same: "put_rack r m (Rack_Name r) = Some (sint (Replicas r))"
  by (simp add: put_rack_def)

lemma apply_size_simps [simp]:
  "apply_size (add_change r) = put_rack r"
  "apply_size (update_change new r) = put_rack r"
  "apply_size (delete_change r) = id"
  "apply_size (scale_down_change m) = id"
  by (auto simp: fun_eq_iff apply_size_def put_rack_def update_change_def)

lemma fold_apply_changes:
  "fold apply_size (map add_change as @ map delete_change ds @ map scale_down_change ms @
     map (update_change new) us) m = fold put_rack us (fold put_rack as m)"
proof -
  have ids: "fold apply_size (map delete_change ds) m = m"
    "fold apply_size (map scale_down_change ms) m = m" for m
    by (induction ds) (simp_all, induction ms, simp_all)
  show ?thesis by (simp add: ids) (simp add: fold_map comp_def)
qed

lemma fold_put_rack_notin:
  "n \<notin> Rack_Name ` set rs \<Longrightarrow> fold put_rack rs m n = m n"
  by (induction rs arbitrary: m) (auto simp: put_rack_def)

lemma fold_put_rack_in:
  assumes "distinct (map Rack_Name rs)" and "r \<in> set rs"
  shows "fold put_rack rs m (Rack_Name r) = Some (sint (Replicas r))"
  using assms
proof (induction rs arbitrary: m)
  case (Cons q rs)
  show ?case
  proof (cases "r = q")
    case True
    with Cons.prems show ?thesis by (simp add: fold_put_rack_notin put_rack_same)
  next
    case False
    with Cons show ?thesis by simp
  qed
qed simp

lemma sizes_of_Some:
  assumes "distinct (map Rack_Name (Racks s))"
  shows "sizes_of s n = Some k \<longleftrightarrow>
    (\<exists>r \<in> set (Racks s). Rack_Name r = n \<and> sint (Replicas r) = k)"
  using assms by (force simp: sizes_of_def map_of_eq_Some_iff comp_def)

lemma sizes_of_None: "sizes_of s n = None \<longleftrightarrow> n \<notin> Rack_Name ` set (Racks s)"
  by (force simp: sizes_of_def map_of_eq_None_iff)

lemma updated_names:
  assumes "distinct (map Rack_Name (Racks old))"
  shows "distinct (map Rack_Name (updated_racks old new))"
  using matched_names [OF assms, of new]
  by (auto simp: updated_racks_def scaledUpRacks_def comp_def distinct_map_filter)

lemma added_names:
  assumes "distinct (map Rack_Name (Racks new))"
  shows "distinct (map Rack_Name (added old new))"
  using assms by (simp add: added_def matchRacks_def case_prod_beta distinct_map_filter)

text \<open>
  (C2) Applying the changes of an allowed update gives every rack of the new definition its new
  size, with one exception that the code means to have: a rack is never shrunk. It is shrunk
  nevertheless, by the patch that carries a change of the pod. Racks that the new definition
  dropped keep running at their old size.
\<close>

theorem ChangesForCluster_converges:
  assumes "distinct (map Rack_Name (Racks old))" and "distinct (map Rack_Name (Racks new))"
    and "ChangesForCluster old new = Inr cs"
  shows "fold apply_size cs (sizes_of old) n =
    (case (sizes_of old n, sizes_of new n) of
       (None, s) \<Rightarrow> s
     | (Some j, None) \<Rightarrow> Some j
     | (Some j, Some k) \<Rightarrow> Some (if podSpecHasChanged old new then k else max j k))"
proof -
  let ?us = "updated_racks old new" and ?as = "added old new"
  let ?m = "fold put_rack ?as (sizes_of old)"
  have fold: "fold apply_size cs (sizes_of old) n = fold put_rack ?us ?m n"
    using assms(3) unfolding ChangesForCluster_Inr by (simp only: fold_apply_changes)
  have us: "distinct (map Rack_Name ?us)" and as: "distinct (map Rack_Name ?as)"
    using assms by (simp_all add: updated_names added_names)
  show ?thesis
  proof (cases "n \<in> Rack_Name ` set (Racks new)")
    case False
    then have "n \<notin> Rack_Name ` set ?us" "n \<notin> Rack_Name ` set ?as"
      by (auto simp: set_updated [OF assms(2)] set_added)
    with False show ?thesis
      by (simp add: fold fold_put_rack_notin split: option.split)
        (simp add: sizes_of_None [THEN iffD2])
  next
    case True
    then obtain r' where r': "r' \<in> set (Racks new)" "n = Rack_Name r'" by auto
    then have new_n: "sizes_of new n = Some (sint (Replicas r'))"
      using assms(2) by (auto simp: sizes_of_Some)
    show ?thesis
    proof (cases "n \<in> Rack_Name ` set (Racks old)")
      case False
      with r' have "r' \<in> set ?as" "n \<notin> Rack_Name ` set ?us"
        by (auto simp: set_updated [OF assms(2)] set_added image_iff)
      moreover from this have "?m n = Some (sint (Replicas r'))"
        using fold_put_rack_in [OF as] r'(2) by simp
      moreover from False have "sizes_of old n = None" by (simp add: sizes_of_None)
      ultimately show ?thesis
        using new_n by (simp add: fold fold_put_rack_notin)
    next
      case True
      then obtain r where r: "r \<in> set (Racks old)" "n = Rack_Name r" by auto
      then have old_n: "sizes_of old n = Some (sint (Replicas r))"
        using assms(1) by (auto simp: sizes_of_Some)
      have "n \<notin> Rack_Name ` set ?as" using True unfolding set_added by blast
      then have m: "?m n = Some (sint (Replicas r))" using old_n by (simp add: fold_put_rack_notin)
      have in_us: "r' \<in> set ?us \<longleftrightarrow> podSpecHasChanged old new \<or> Replicas r <s Replicas r'"
      proof -
        have "x = r" if "x \<in> set (Racks old)" "Rack_Name x = Rack_Name r'" for x
          using distinct_map_unique [OF assms(1) that(1) r(1)] that(2) r(2) r'(2) by simp
        moreover have "Rack_Name r = Rack_Name r'" using r(2) r'(2) by simp
        ultimately have "(\<exists>x \<in> set (Racks old). Rack_Name x = Rack_Name r' \<and> Q x) \<longleftrightarrow> Q r" for Q
          using r(1) by blast
        then show ?thesis
          by (simp add: set_updated [OF assms(2)] r'(1))
      qed
      have notin: "n \<notin> Rack_Name ` set ?us" if "r' \<notin> set ?us"
      proof
        assume "n \<in> Rack_Name ` set ?us"
        then obtain x where x: "x \<in> set ?us" "n = Rack_Name x" by blast
        then have "x \<in> set (Racks new)" by (simp add: set_updated [OF assms(2)])
        with x r' have "x = r'" using distinct_map_unique [OF assms(2)] by metis
        with x that show False by simp
      qed
      show ?thesis
      proof (cases "r' \<in> set ?us")
        case True
        then have "fold put_rack ?us ?m n = Some (sint (Replicas r'))"
          using fold_put_rack_in [OF us] r'(2) by simp
        with True in_us show ?thesis
          by (auto simp: fold old_n new_n word_sless_alt)
      next
        case False
        with in_us notin show ?thesis
          by (auto simp: fold old_n new_n m fold_put_rack_notin word_sless_alt)
      qed
    qed
  qed
qed

lemma same_racks:
  assumes "distinct (map Rack_Name (Racks new))" and "distinct (map Rack_Name (Racks old))"
  shows "(added old new = [] \<and> deleted old new = []) \<longleftrightarrow>
    Rack_Name ` set (Racks old) = Rack_Name ` set (Racks new)"
  unfolding set_empty [symmetric] set_added set_deleted by blast

text \<open>
  The operator leaves the stateful sets alone exactly when the update is allowed, the two
  definitions have the same racks and the pod is the same (or there is no rack at all).
\<close>

theorem ChangesForCluster_nothing_to_do:
  assumes "distinct (map Rack_Name (Racks old))" and "distinct (map Rack_Name (Racks new))"
  shows "ChangesForCluster old new = Inr [] \<longleftrightarrow>
    \<not> forbidden_change old new \<and> set (Racks old) = set (Racks new) \<and>
    (podSpecHasChanged old new \<longrightarrow> Racks old = [])"
proof
  assume eq: "ChangesForCluster old new = Inr []"
  then have allowed: "\<not> forbidden_change old new"
    and names: "Rack_Name ` set (Racks old) = Rack_Name ` set (Racks new)"
    and down: "scaledDownRacks (matched old new) = []" and up: "updated_racks old new = []"
    using same_racks [OF assms(2,1)] by (simp_all add: ChangesForCluster_Inr)
  have sub: "r = r'" if "r \<in> set (Racks old)" "r' \<in> set (Racks new)" "Rack_Name r = Rack_Name r'"
    for r r'
  proof -
    have find: "findRack r (Racks new) = Some r'"
      using that by (simp add: findRack_distinct [OF assms(2)])
    with that(1) allowed have "StorageClass r' = StorageClass r" "Zone r' = Zone r"
      unfolding forbidden_change_def by blast+
    moreover have m: "\<lparr>mr_old = r, mr_new = r'\<rparr> \<in> set (matched old new)"
      using that(1) find by (auto simp: set_matched_find)
    with down up have "\<not> Replicas r' <s Replicas r" "\<not> Replicas r <s Replicas r'"
      by (fastforce simp: scaledDownRacks_def updated_racks_def scaledUpRacks_def filter_empty_conv
          split: if_splits)+
    ultimately show ?thesis
      using that(3) by (intro Rack.equality) (auto simp: word_sless_alt signed_word_eqI)
  qed
  have "set (Racks old) = set (Racks new)"
  proof (intro set_eqI iffI)
    fix r assume r: "r \<in> set (Racks old)"
    then obtain r' where "r' \<in> set (Racks new)" "Rack_Name r = Rack_Name r'" using names by blast
    with sub [OF r] show "r \<in> set (Racks new)" by blast
  next
    fix r' assume r': "r' \<in> set (Racks new)"
    then obtain r where "r \<in> set (Racks old)" "Rack_Name r' = Rack_Name r" using names by blast
    with sub [OF _ r'] show "r' \<in> set (Racks old)" by metis
  qed
  moreover have "Racks old = []" if "podSpecHasChanged old new"
  proof -
    from up that have "matched old new = []" by (simp add: updated_racks_def)
    then have "findRack r (Racks new) = None" if "r \<in> set (Racks old)" for r
      using set_matched_find [of old new] that by (cases "findRack r (Racks new)") auto
    then have "Rack_Name r \<notin> Rack_Name ` set (Racks new)" if "r \<in> set (Racks old)" for r
      using that by (simp only: findRack_None [symmetric])
    then show ?thesis using names by (cases "Racks old") (simp, metis image_eqI list.set_intros(1))
  qed
  ultimately show "\<not> forbidden_change old new \<and> set (Racks old) = set (Racks new) \<and>
      (podSpecHasChanged old new \<longrightarrow> Racks old = [])"
    using allowed by blast
next
  assume r: "\<not> forbidden_change old new \<and> set (Racks old) = set (Racks new) \<and>
    (podSpecHasChanged old new \<longrightarrow> Racks old = [])"
  have same: "mr_old m = mr_new m" if "m \<in> set (matched old new)" for m
    using that r distinct_map_unique [OF assms(2)] by (fastforce simp: set_matched [OF assms(2)])
  have "scaledDownRacks (matched old new) = []" "scaledUpRacks (matched old new) = []"
    using same by (simp_all add: scaledDownRacks_def scaledUpRacks_def filter_empty_conv)
  moreover have "matched old new = []" if "podSpecHasChanged old new"
    using that r by (simp add: matched_def matchRacks_def)
  ultimately show "ChangesForCluster old new = Inr []"
    using r same_racks [OF assms(2,1)] by (simp add: ChangesForCluster_Inr updated_racks_def)
qed

section \<open>Patches are JSON\<close>

text \<open>
  A scanner of the structure of a JSON text: the stack of the brackets that are open and whether
  the scan is inside a string. It fails on a bracket that closes another. Strings hold no escapes
  here.
\<close>

type_synonym scan_state = "(char list \<times> bool) option"

fun scan_char :: "char \<Rightarrow> scan_state \<Rightarrow> scan_state" where
  "scan_char c None = None"
| "scan_char c (Some (open, True)) = Some (open, c \<noteq> dquote)"
| "scan_char c (Some (open, False)) =
     (if c = dquote then Some (open, True)
      else if c = CHR ''{'' \<or> c = CHR ''['' then Some (c # open, False)
      else if c = CHR ''}'' then
        (case open of CHR ''{'' # rest \<Rightarrow> Some (rest, False) | _ \<Rightarrow> None)
      else if c = CHR '']'' then
        (case open of CHR ''['' # rest \<Rightarrow> Some (rest, False) | _ \<Rightarrow> None)
      else Some (open, False))"

definition scan :: "string \<Rightarrow> scan_state \<Rightarrow> scan_state" where
  "scan s = fold scan_char s"

definition json_balanced :: "string \<Rightarrow> bool" where
  "json_balanced s \<longleftrightarrow> scan s (Some ([], False)) = Some ([], False)"

definition plain :: "string \<Rightarrow> bool" where
  "plain s \<longleftrightarrow> dquote \<notin> set s"

lemma scan_append: "scan (s @ t) st = scan t (scan s st)"
  by (simp add: scan_def)

lemma scan_plain: "plain s \<Longrightarrow> scan s (Some (open, True)) = Some (open, True)"
  by (induction s) (auto simp: scan_def plain_def)

lemma digit_neutral:
  "is_digit c \<Longrightarrow> c \<noteq> dquote \<and> c \<noteq> CHR ''{'' \<and> c \<noteq> CHR ''['' \<and> c \<noteq> CHR ''}'' \<and> c \<noteq> CHR '']''"
  by (auto simp: is_digit_def dquote_def)

lemma scan_char_neutral:
  assumes "is_digit c \<or> c = CHR ''-''"
  shows "scan_char c (Some (open, False)) = Some (open, False)"
proof (cases "c = CHR ''-''")
  case True
  then show ?thesis by (simp add: dquote_def)
next
  case False
  with assms digit_neutral [of c] show ?thesis by simp
qed

lemma scan_neutral:
  "list_all (\<lambda>c. is_digit c \<or> c = CHR ''-'') s \<Longrightarrow> scan s (Some (open, False)) = Some (open, False)"
  unfolding scan_def by (induction s) (simp_all add: scan_char_neutral del: scan_char.simps)

lemma scan_itoa: "scan (itoa i) (Some (open, False)) = Some (open, False)"
  by (rule scan_neutral) (auto simp: itoa_def list_all_iff dest: dec_digits)

lemma scan_simps: "scan [] st = st" "scan (c # cs) st = scan cs (scan_char c st)"
  by (simp_all add: scan_def)

lemma scan_quoted: "plain s \<Longrightarrow> scan (quoted s) (Some (open, False)) = Some (open, False)"
  by (simp add: quoted_def scan_append scan_simps scan_plain)

lemmas scan_rules = scan_append scan_itoa scan_plain scan_simps nl_def tab_def quoted_def dquote_def

lemma scan_Execute:
  "scan (Execute [] p) st = st"
  "scan (Execute (Text s # ts) p) st = scan (Execute ts p) (scan s st)"
  "scan (Execute (Field f # ts) p) st =
     (case f p of None \<Rightarrow> st | Some s \<Rightarrow> scan (Execute ts p) (scan s st))"
  by (simp_all add: scan_append scan_simps split: option.split)

text \<open>The three ways the execution of the template can go.\<close>

lemma patch_both_probes:
  assumes "plain (BootstrapperImage (Spec_Pod new))" and "plain (q_String (CPU (Spec_Pod new)))"
    and "plain (q_String (Memory (Spec_Pod new)))"
    and "LivenessProbe (Spec_Pod new) = Some lp" and "ReadinessProbe (Spec_Pod new) = Some rp"
  shows "scan (patchForRack rack new) (Some ([], False)) = Some ([], False)"
  using assms
  by (simp add: patchForRack_def patch_properties_def statefulSetPatchTemplate_def probe_field_def
      scan_Execute scan_rules del: Execute.simps)

lemma patch_no_liveness:
  assumes "plain (BootstrapperImage (Spec_Pod new))" and "LivenessProbe (Spec_Pod new) = None"
  shows "scan (patchForRack rack new) (Some ([], False)) = Some (''{{[{{{{'', False)"
  using assms
  by (simp add: patchForRack_def patch_properties_def statefulSetPatchTemplate_def probe_field_def
      scan_Execute scan_rules del: Execute.simps)

lemma patch_no_readiness:
  assumes "plain (BootstrapperImage (Spec_Pod new))" and "LivenessProbe (Spec_Pod new) = Some lp"
    and "ReadinessProbe (Spec_Pod new) = None"
  shows "scan (patchForRack rack new) (Some ([], False)) = Some (''{{[{{{{'', False)"
  using assms
  by (simp add: patchForRack_def patch_properties_def statefulSetPatchTemplate_def probe_field_def
      scan_Execute scan_rules del: Execute.simps)


section \<open>Witnesses\<close>

text \<open>
  Two definitions that differ as an update may: rack a grows, b shrinks, c goes and d is new. In
  the second pair the memory changes as well.
\<close>

definition rack_of :: "string \<Rightarrow> int32 \<Rightarrow> Rack" where
  "rack_of n k = \<lparr>Rack_Name = n, Zone = ''z1'', StorageClass = ''sc1'', Replicas = k\<rparr>"

definition old_spec :: CassandraSpec where
  "old_spec = (Spec sample_definition)
     \<lparr>Racks := [rack_of ''a'' 2, rack_of ''b'' 5, rack_of ''c'' 1]\<rparr>"

definition new_spec :: "nat \<Rightarrow> CassandraSpec" where
  "new_spec repr = old_spec
     \<lparr>Racks := [rack_of ''a'' 4, rack_of ''b'' 3, rack_of ''d'' 6],
      Spec_Pod := (Spec_Pod old_spec)\<lparr>Memory := (Memory (Spec_Pod old_spec))\<lparr>q_repr := repr\<rparr>\<rparr>\<rparr>"

definition changes_of :: "CassandraSpec \<Rightarrow> CassandraSpec \<Rightarrow> ClusterChange list" where
  "changes_of old new = (case ChangesForCluster old new of Inl _ \<Rightarrow> [] | Inr cs \<Rightarrow> cs)"

lemma old_spec_racks [simp]:
  "Racks old_spec = [rack_of ''a'' 2, rack_of ''b'' 5, rack_of ''c'' 1]"
  "Racks (new_spec repr) = [rack_of ''a'' 4, rack_of ''b'' 3, rack_of ''d'' 6]"
  by (simp_all add: old_spec_def new_spec_def)

lemma rack_of_fields [simp]:
  "Rack_Name (rack_of n k) = n" "Replicas (rack_of n k) = k"
  "Zone (rack_of n k) = ''z1''" "StorageClass (rack_of n k) = ''sc1''"
  by (simp_all add: rack_of_def)

lemma sample_update_allowed: "\<not> forbidden_change old_spec (new_spec repr)"
proof -
  have "DC old_spec = DC (new_spec repr)" "UseEmptyDir old_spec = UseEmptyDir (new_spec repr)"
    "Image (Spec_Pod old_spec) = Image (Spec_Pod (new_spec repr))"
    by (simp_all add: old_spec_def new_spec_def)
  then show ?thesis by (auto simp: forbidden_change_def findRack_def)
qed

lemma sample_changes: "ChangesForCluster old_spec (new_spec repr) = Inr (changes_of old_spec (new_spec repr))"
  using sample_update_allowed [of repr] by (simp add: changes_of_def ChangesForCluster_allowed)

lemma sample_pod_changed: "podSpecHasChanged old_spec (new_spec repr) \<longleftrightarrow> repr \<noteq> 2"
  by (auto simp: podSpecHasChanged_def new_spec_def old_spec_def sample_definition_def)

lemma sample_sizes:
  "sizes_of old_spec ''b'' = Some 5" "sizes_of (new_spec repr) ''b'' = Some 3"
  by (simp_all add: sizes_of_def)

lemma ChangesForCluster_changes_witness:
  "racks_with scaleDownRack (changes_of old_spec (new_spec 2)) = {rack_of ''b'' 3} \<and>
   racks_with UpdateRack (changes_of old_spec (new_spec 2)) = {rack_of ''a'' 4}"
proof -
  have "distinct (map Rack_Name (Racks (new_spec 2)))" by simp
  from ChangesForCluster_changes [OF this sample_changes] show ?thesis
    by (auto simp: sample_pod_changed word_sless_alt)
qed

lemma ChangesForCluster_converges_witness:
  "fold apply_size (changes_of old_spec (new_spec 2)) (sizes_of old_spec) ''b'' = Some 5 \<and>
   fold apply_size (changes_of old_spec (new_spec 9)) (sizes_of old_spec) ''b'' = Some 3"
proof -
  have d: "distinct (map Rack_Name (Racks old_spec))"
    "distinct (map Rack_Name (Racks (new_spec repr)))" for repr by simp_all
  from ChangesForCluster_converges [OF d sample_changes, of 2 "''b''"]
    ChangesForCluster_converges [OF d sample_changes, of 9 "''b''"]
  show ?thesis by (simp add: sample_pod_changed sample_sizes)
qed

lemma ChangesForCluster_nothing_to_do_witness:
  "ChangesForCluster old_spec old_spec = Inr []"
proof -
  have d: "distinct (map Rack_Name (Racks old_spec))" by simp
  have "\<not> forbidden_change old_spec old_spec" "\<not> podSpecHasChanged old_spec old_spec"
    by (auto simp: forbidden_change_def findRack_def podSpecHasChanged_def)
  then show ?thesis using ChangesForCluster_nothing_to_do [OF d d] by blast
qed


end
