(* ===== verification/Runtime.thy ===== *)
theory Runtime
  imports Resources Adjuster
begin

text \<open>
  The machine the operator's code runs on: the state it shares between its operations, the
  libraries and services it calls, and the ways a call can end. The Kubernetes API server, the
  HTTP client, the polling loop of \<^verbatim>\<open>k8s.io/apimachinery/pkg/util/wait\<close>, the random generator and
  Go's map iteration order are not code of the repository: they are the fields of a record that
  every definition takes as an argument, and act on a world of any type.
\<close>

section \<open>Effects\<close>

text \<open>The requests to the API server and to Cassandra's Jolokia agent.\<close>

datatype request =
    GetConfigMap string string
  | CreateServiceReq string Service
  | DeleteServiceReq string string
  | ListServices string string
  | ListStatefulSets string string
  | ListPods string string
  | CreateStatefulSet string StatefulSet
  | PatchStatefulSetReq string string string
  | GetStatefulSet string string
  | UpdateStatefulSetReq string StatefulSet
  | DeleteStatefulSets string string
  | CreateCronJob string "CronJob option"
  | ListCronJobs string string
  | DeleteCronJobReq string string
  | UpdateCronJobReq string CronJob
  | HttpGet string

datatype event_type = EventTypeNormal | EventTypeWarning

text \<open>
  What the code does to the outside, in order: requests, recorded events (with the qualified name
  of the object they are about), sleeps, the end of a wait for a stateful set, and the writes to
  the two Prometheus gauges.
\<close>

datatype effect =
    Request request
  | Event string event_type string string
  | Slept Duration
  | Applied string string
  | SetNodeGauge "string list" int
  | DeleteNodeGauge "string list"
  | SetSizeGauge "string list" int
  | DeleteSizeGauge "string list"

section \<open>State\<close>

text \<open>
  The clusters are a Go map from qualified names to pointers, so two operations can hold the same
  cluster: pointers are indices into a heap. The definitions that events carry live in the cache
  of the informers and are shared as well. \<open>topology\<close> is the \<open>sync.Map\<close> of the metrics reporter.
\<close>

type_synonym ref = nat

record 'w sys =
  clusters :: "(string, ref) fmap"
  cluster_heap :: "ref \<Rightarrow> Cluster option"
  next_cluster :: ref
  cassandra_heap :: "ref \<Rightarrow> Cassandra option"
  topology :: "(string, (string, string) fmap) fmap"
  trace :: "effect list"
  world :: 'w

text \<open>
  How a call ends: it returns, it panics, or it never returns. Go's panics end the whole process.
\<close>

datatype ('a, 's) outcome = Done 'a 's | Panicked panic 's | Hangs

type_synonym ('a, 'w) action = "'w sys \<Rightarrow> ('a, 'w sys) outcome"

definition pass :: "'a \<Rightarrow> ('a, 'w) action" where
  "pass a s = Done a s"

definition panic_with :: "panic \<Rightarrow> ('a, 'w) action" where
  "panic_with p s = Panicked p s"

definition bind :: "('a, 'w) action \<Rightarrow> ('a \<Rightarrow> ('b, 'w) action) \<Rightarrow> ('b, 'w) action" where
  "bind m f s = (case m s of Done a s' \<Rightarrow> f a s' | Panicked p s' \<Rightarrow> Panicked p s' | Hangs \<Rightarrow> Hangs)"

definition seq :: "(unit, 'w) action \<Rightarrow> ('b, 'w) action \<Rightarrow> ('b, 'w) action" where
  "seq m n = bind m (\<lambda>_. n)"

definition gets :: "('w sys \<Rightarrow> 'a) \<Rightarrow> ('a, 'w) action" where
  "gets f s = Done (f s) s"

definition modify :: "('w sys \<Rightarrow> 'w sys) \<Rightarrow> (unit, 'w) action" where
  "modify f s = Done () (f s)"

definition perform :: "effect \<Rightarrow> (unit, 'w) action" where
  "perform e = modify (\<lambda>s. s\<lparr>trace := trace s @ [e]\<rparr>)"

text \<open>A value that may be a panic already: an expression that reads through a nil pointer.\<close>

definition eval :: "panic + 'a \<Rightarrow> ('a, 'w) action" where
  "eval v = (case v of Inl p \<Rightarrow> panic_with p | Inr a \<Rightarrow> pass a)"

definition deref :: "'a option \<Rightarrow> ('a, 'w) action" where
  "deref v = (case v of None \<Rightarrow> panic_with NilDereference | Some a \<Rightarrow> pass a)"

text \<open>A loop over a list whose body can end the loop early: it runs while the body gives \<open>None\<close>.\<close>

fun for_each :: "'a list \<Rightarrow> ('a \<Rightarrow> ('e option, 'w) action) \<Rightarrow> ('e option, 'w) action" where
  "for_each [] body = pass None"
| "for_each (x # xs) body =
     bind (body x) (\<lambda>r. case r of None \<Rightarrow> for_each xs body | Some e \<Rightarrow> pass (Some e))"

section \<open>The libraries and services\<close>

record K8sPod =
  pod_Name :: string
  pod_IP :: string

text \<open>The body of a response is read after its status; reading it can fail.\<close>

record HttpResponse =
  hr_StatusCode :: int
  hr_Body :: "string option"

text \<open>
  A Jolokia answer as the JSON decoder fills it in: its status, and a value that the code decodes
  as a list of strings or as one string.
\<close>

record 'v Jolokia =
  jk_Status :: int
  jk_Value :: 'v

type_synonym ('a, 'w) service = "request \<Rightarrow> 'w \<Rightarrow> (string + 'a) \<times> 'w"

record 'w Env =
  cron_ok :: "string \<Rightarrow> bool"
  api_config_map :: "(ConfigMap, 'w) service"
  api_unit :: "(unit, 'w) service"
  api_names :: "(string list, 'w) service"
  api_pods :: "(K8sPod list, 'w) service"
  api_stateful_set :: "(StatefulSet, 'w) service"
  api_status :: "(StatefulSetStatus, 'w) service"
  api_cron_jobs :: "(CronJob list, 'w) service"
  http_get :: "(HttpResponse, 'w) service"
  Unmarshal_multi :: "string \<Rightarrow> string + string list Jolokia"
  Unmarshal_single :: "string \<Rightarrow> string + string Jolokia"
  elapse :: "Duration \<Rightarrow> 'w \<Rightarrow> 'w"
  PollImmediateInfinite :: "Duration \<Rightarrow> ('w sys \<Rightarrow> (string + bool) \<times> 'w sys) \<Rightarrow> 'w sys \<Rightarrow>
    (string option \<times> 'w sys) option"
  Intn :: "nat \<Rightarrow> 'w \<Rightarrow> nat \<times> 'w"
  range_keys :: "string list \<Rightarrow> 'w \<Rightarrow> string list \<times> 'w"

text \<open>A call of a service: the request is seen outside, the world answers and moves on.\<close>

definition call :: "('a, 'w) service \<Rightarrow> request \<Rightarrow> (string + 'a, 'w) action" where
  "call srv req s =
     (let (r, w) = srv req (world s)
      in Done r (s\<lparr>world := w, trace := trace s @ [Request req]\<rparr>))"

definition Sleep :: "'w Env \<Rightarrow> Duration \<Rightarrow> (unit, 'w) action" where
  "Sleep env d s = Done () (s\<lparr>world := elapse env d (world s), trace := trace s @ [Slept d]\<rparr>)"

definition ask :: "('w \<Rightarrow> 'a \<times> 'w) \<Rightarrow> ('a, 'w) action" where
  "ask f s = (let (a, w) = f (world s) in Done a (s\<lparr>world := w\<rparr>))"

definition Eventf :: "Cassandra \<Rightarrow> event_type \<Rightarrow> string \<Rightarrow> string \<Rightarrow> (unit, 'w) action" where
  "Eventf obj ty reason msg = perform (Event (QualifiedName obj) ty reason msg)"

section \<open>Rules\<close>

text \<open>
  \<open>goes r Q\<close>: the outcome is not a panic, and if the call returned then with \<open>Q\<close> of its result
  and the state it left.
\<close>

definition goes :: "('a, 's) outcome \<Rightarrow> ('a \<Rightarrow> 's \<Rightarrow> bool) \<Rightarrow> bool" where
  "goes r Q \<longleftrightarrow> (case r of Done a s \<Rightarrow> Q a s | Panicked p s \<Rightarrow> False | Hangs \<Rightarrow> True)"

lemma goes_pass [op_simps]: "goes (pass a s) Q \<longleftrightarrow> Q a s"
  by (simp add: goes_def pass_def)

lemma goes_gets [op_simps]: "goes (gets f s) Q \<longleftrightarrow> Q (f s) s"
  by (simp add: goes_def gets_def)

lemma goes_modify [op_simps]: "goes (modify f s) Q \<longleftrightarrow> Q () (f s)"
  by (simp add: goes_def modify_def)

lemma goes_bind [op_simps]: "goes (bind m k s) Q \<longleftrightarrow> goes (m s) (\<lambda>a t. goes (k a t) Q)"
  by (simp add: goes_def bind_def split: outcome.split)

lemma goes_deref [op_simps]: "goes (deref (Some a) s) Q \<longleftrightarrow> Q a s"
  by (simp add: goes_def deref_def pass_def)

lemma goes_seq [op_simps]: "goes (seq m n s) Q \<longleftrightarrow> goes (m s) (\<lambda>_ t. goes (n t) Q)"
  by (simp add: seq_def goes_bind)

lemma goes_weaken: "goes r Q \<Longrightarrow> (\<And>a s. Q a s \<Longrightarrow> R a s) \<Longrightarrow> goes r R"
  by (auto simp: goes_def split: outcome.splits)

end
