(* ===== verification/Accessor.thy ===== *)
theory Accessor
  imports Runtime
begin

text \<open>
  The operator's access to the API server, after \<^verbatim>\<open>cassandra-operator/pkg/cluster/accessor.go\<close>:
  one action per method, with the wait for a stateful set to reach the state it was given, and
  the event names of \<^verbatim>\<open>events.go\<close>. \<open>GetCassandraForCluster\<close> has no caller and no model.
\<close>

section \<open>Event reasons\<close>

definition InvalidChangeEvent :: string where "InvalidChangeEvent = ''InvalidChange''"
definition ClusterUpdateEvent :: string where "ClusterUpdateEvent = ''ClusterUpdate''"
definition WaitingForStatefulSetChange :: string where
  "WaitingForStatefulSetChange = ''WaitingForStatefulSetChange''"
definition ClusterSnapshotCreationScheduleEvent :: string where
  "ClusterSnapshotCreationScheduleEvent = ''ClusterSnapshotCreationScheduleEvent''"
definition ClusterSnapshotCreationUnscheduleEvent :: string where
  "ClusterSnapshotCreationUnscheduleEvent = ''ClusterSnapshotCreationUnscheduleEvent''"
definition ClusterSnapshotCreationModificationEvent :: string where
  "ClusterSnapshotCreationModificationEvent = ''ClusterSnapshotCreationModificationEvent''"
definition ClusterSnapshotCleanupScheduleEvent :: string where
  "ClusterSnapshotCleanupScheduleEvent = ''ClusterSnapshotCleanupScheduleEvent''"
definition ClusterSnapshotCleanupUnscheduleEvent :: string where
  "ClusterSnapshotCleanupUnscheduleEvent = ''ClusterSnapshotCleanupUnscheduleEvent''"
definition ClusterSnapshotCleanupModificationEvent :: string where
  "ClusterSnapshotCleanupModificationEvent = ''ClusterSnapshotCleanupModificationEvent''"

section \<open>Requests\<close>

definition operator_selector :: "Cluster \<Rightarrow> string" where
  "operator_selector c = OperatorLabel @ ''='' @ Cluster_Name c"

definition CreateServiceForCluster :: "'w Env \<Rightarrow> Cluster \<Rightarrow> (string + unit, 'w) action" where
  "CreateServiceForCluster env c =
     call (api_unit env) (CreateServiceReq (Cluster_Namespace c) (CreateService c))"

definition DeleteServiceForCluster :: "'w Env \<Rightarrow> Cluster \<Rightarrow> (string + unit, 'w) action" where
  "DeleteServiceForCluster env c =
     call (api_unit env) (DeleteServiceReq (Cluster_Namespace c) (Cluster_Name c))"

definition DeleteStatefulSetsForCluster :: "'w Env \<Rightarrow> Cluster \<Rightarrow> (string + unit, 'w) action" where
  "DeleteStatefulSetsForCluster env c =
     call (api_unit env) (DeleteStatefulSets (Cluster_Namespace c) (operator_selector c))"

text \<open>An error of the server counts as the absence of the config map.\<close>

definition FindCustomConfigMap ::
    "'w Env \<Rightarrow> string \<Rightarrow> string \<Rightarrow> (ConfigMap option, 'w) action" where
  "FindCustomConfigMap env ns clusterName =
     bind (call (api_config_map env) (GetConfigMap ns (clusterName @ ''-config'')))
       (\<lambda>r. pass (case r of Inl err \<Rightarrow> None | Inr cm \<Rightarrow> Some cm))"

definition CreateStatefulSetForRack ::
    "'w Env \<Rightarrow> Cluster \<Rightarrow> Rack \<Rightarrow> ConfigMap option \<Rightarrow> (string + StatefulSet, 'w) action" where
  "CreateStatefulSetForRack env c rack customConfigMap =
     bind (eval (createStatefulSetForRack c rack customConfigMap))
       (\<lambda>sts. call (api_stateful_set env) (CreateStatefulSet (Cluster_Namespace c) sts))"

definition PatchStatefulSet ::
    "'w Env \<Rightarrow> Cluster \<Rightarrow> Rack \<Rightarrow> string \<Rightarrow> (string + StatefulSet, 'w) action" where
  "PatchStatefulSet env c rack patch =
     call (api_stateful_set env)
       (PatchStatefulSetReq (Cluster_Namespace c) (Cluster_Name c @ ''-'' @ Rack_Name rack) patch)"

definition GetStatefulSetForRack ::
    "'w Env \<Rightarrow> Cluster \<Rightarrow> Rack \<Rightarrow> (string + StatefulSet, 'w) action" where
  "GetStatefulSetForRack env c rack =
     call (api_stateful_set env)
       (GetStatefulSet (Cluster_Namespace c) (Cluster_Name c @ ''-'' @ Rack_Name rack))"

definition UpdateStatefulSet ::
    "'w Env \<Rightarrow> Cluster \<Rightarrow> StatefulSet \<Rightarrow> (string + StatefulSet, 'w) action" where
  "UpdateStatefulSet env c sts =
     call (api_stateful_set env) (UpdateStatefulSetReq (Cluster_Namespace c) sts)"

text \<open>The names of the objects a list request finds, none when it fails.\<close>

definition found_names :: "string + string list \<Rightarrow> string list" where
  "found_names r = (case r of Inl err \<Rightarrow> [] | Inr names \<Rightarrow> names)"

definition serviceForCluster :: "'w Env \<Rightarrow> Cluster \<Rightarrow> string \<Rightarrow> (string list, 'w) action" where
  "serviceForCluster env c selector =
     bind (call (api_names env) (ListServices (Cluster_Namespace c) selector))
       (\<lambda>r. pass (found_names r))"

definition statefulSetsForCluster :: "'w Env \<Rightarrow> Cluster \<Rightarrow> string \<Rightarrow> (string list, 'w) action" where
  "statefulSetsForCluster env c selector =
     bind (call (api_names env) (ListStatefulSets (Cluster_Namespace c) selector))
       (\<lambda>r. pass (found_names r))"

definition podsForCluster :: "'w Env \<Rightarrow> Cluster \<Rightarrow> string \<Rightarrow> (string list, 'w) action" where
  "podsForCluster env c selector =
     bind (call (api_pods env) (ListPods (Cluster_Namespace c) selector))
       (\<lambda>r. pass (case r of Inl err \<Rightarrow> [] | Inr pods \<Rightarrow> map pod_Name pods))"

definition FindExistingResourcesFor :: "'w Env \<Rightarrow> Cluster \<Rightarrow> (string list, 'w) action" where
  "FindExistingResourcesFor env c =
     (let labelSelector = operator_selector c
      in bind (serviceForCluster env c labelSelector) (\<lambda>services.
         bind (statefulSetsForCluster env c labelSelector) (\<lambda>statefulSets.
         bind (podsForCluster env c labelSelector) (\<lambda>pods.
         pass (map (\<lambda>n. ''service:'' @ n) services @
               map (\<lambda>n. ''statefulset:'' @ n) statefulSets @
               map (\<lambda>n. ''pod:'' @ n) pods)))))"

section \<open>Cron jobs\<close>

datatype accessor_error = ApiError string | SeveralCronJobs nat string string

definition CreateCronJobForCluster :: "'w Env \<Rightarrow> Cluster \<Rightarrow> CronJob option \<Rightarrow> (string + unit, 'w) action" where
  "CreateCronJobForCluster env c cronJob =
     call (api_unit env) (CreateCronJob (Cluster_Namespace c) cronJob)"

definition FindCronJobForCluster ::
    "'w Env \<Rightarrow> Cassandra \<Rightarrow> string \<Rightarrow> (accessor_error + CronJob option, 'w) action" where
  "FindCronJobForCluster env cassandra label =
     bind (call (api_cron_jobs env) (ListCronJobs (Namespace cassandra) label))
       (\<lambda>r. pass (case r of
          Inl err \<Rightarrow> Inl (ApiError err)
        | Inr items \<Rightarrow>
            (if length items > 1
             then Inl (SeveralCronJobs (length items) label (QualifiedName cassandra))
             else if length items = 0 then Inr None
             else Inr (Some (items ! 0)))))"

definition DeleteCronJob :: "'w Env \<Rightarrow> CronJob \<Rightarrow> (string + unit, 'w) action" where
  "DeleteCronJob env job =
     call (api_unit env) (DeleteCronJobReq (om_Namespace (cj_Meta job)) (om_Name (cj_Meta job)))"

definition UpdateCronJob :: "'w Env \<Rightarrow> CronJob \<Rightarrow> (string + unit, 'w) action" where
  "UpdateCronJob env job =
     call (api_unit env) (UpdateCronJobReq (om_Namespace (cj_Meta job)) job)"

section \<open>Waiting for a stateful set\<close>

definition max32 :: "int32 \<Rightarrow> int32 \<Rightarrow> int32" where
  "max32 x y = (if y <s x then x else y)"

definition wait_event :: "Cluster \<Rightarrow> StatefulSet \<Rightarrow> effect" where
  "wait_event c sts =
     Event (QualifiedName (cdef c)) EventTypeNormal WaitingForStatefulSetChange
       (''waiting for stateful set '' @ om_Namespace (sts_Meta sts) @ ''.'' @
        om_Name (sts_Meta sts) @ '' to be ready'')"

definition recordWaitEvent :: "Cluster \<Rightarrow> StatefulSet \<Rightarrow> (unit, 'w) action" where
  "recordWaitEvent c sts = perform (wait_event c sts)"

text \<open>The three conditions under which a change of a stateful set counts as applied.\<close>

definition change_applied :: "StatefulSet \<Rightarrow> StatefulSetStatus \<Rightarrow> bool" where
  "change_applied applied current \<longleftrightarrow>
     (case ss_ObservedGeneration current of None \<Rightarrow> False | Some g \<Rightarrow> sts_Generation applied \<le> g) \<and>
     ss_UpdateRevision current = ss_CurrentRevision current \<and>
     ss_ReadyReplicas current = ss_Replicas current"

definition statefulSetChangeApplied ::
    "'w Env \<Rightarrow> Cluster \<Rightarrow> StatefulSet \<Rightarrow> 'w sys \<Rightarrow> (string + bool) \<times> 'w sys" where
  "statefulSetChangeApplied env c applied s =
     (let req = GetStatefulSet (om_Namespace (sts_Meta applied)) (om_Name (sts_Meta applied));
          (r, w) = api_status env req (world s);
          s' = s\<lparr>world := w, trace := trace s @ [Request req]\<rparr>
      in case r of
           Inl err \<Rightarrow> (Inl err, s')
         | Inr current \<Rightarrow>
             (if change_applied applied current then (Inr True, s')
              else (Inr False, s'\<lparr>trace := trace s' @ [wait_event c applied]\<rparr>)))"

definition timeBeforeFirstCheck :: "int32 \<Rightarrow> Probe \<Rightarrow> Duration" where
  "timeBeforeFirstCheck replicas readinessProbe =
     durationSeconds (replicas * InitialDelaySeconds readinessProbe)"

definition timeBetweenChecks :: "Probe \<Rightarrow> Duration" where
  "timeBetweenChecks readinessProbe = durationSeconds (max32 (PeriodSeconds readinessProbe) 5)"

datatype rack_error =
    WaitFailed string string string
  | CreateFailed string string
  | RetrieveFailed string string
  | UpdateFailed string string

text \<open>
  The wait does not return when the poll does not; its success is logged by the source, which is
  the effect \<open>Applied\<close>.
\<close>

definition poll_until_applied ::
    "'w Env \<Rightarrow> Duration \<Rightarrow> Cluster \<Rightarrow> StatefulSet \<Rightarrow> (rack_error option, 'w) action" where
  "poll_until_applied env d c sts s =
     (let ns = om_Namespace (sts_Meta sts); n = om_Name (sts_Meta sts)
      in case PollImmediateInfinite env d (statefulSetChangeApplied env c sts) s of
           None \<Rightarrow> Hangs
         | Some (Some err, s') \<Rightarrow> Done (Some (WaitFailed ns n err)) s'
         | Some (None, s') \<Rightarrow> Done None (s'\<lparr>trace := trace s' @ [Applied ns n]\<rparr>))"

definition WaitUntilRackChangeApplied ::
    "'w Env \<Rightarrow> Cluster \<Rightarrow> StatefulSet \<Rightarrow> (rack_error option, 'w) action" where
  "WaitUntilRackChangeApplied env c sts =
     seq (recordWaitEvent c sts)
    (bind (deref (sts_Replicas sts)) (\<lambda>replicas.
     bind (deref (ReadinessProbe (Spec_Pod (Spec (cdef c))))) (\<lambda>readinessProbe.
     seq (Sleep env (timeBeforeFirstCheck replicas readinessProbe))
         (poll_until_applied env (timeBetweenChecks readinessProbe) c sts))))"

section \<open>The contract of the poll\<close>

text \<open>
  What the documentation of \<open>PollImmediateInfinite\<close> promises: it runs the condition at once and
  then after every pause, until the condition holds or gives an error.
\<close>

inductive polls :: "('s \<Rightarrow> 's) \<Rightarrow> ('s \<Rightarrow> ('e + bool) \<times> 's) \<Rightarrow> 's \<Rightarrow> 'e option \<Rightarrow> 's \<Rightarrow> bool"
  for pause :: "'s \<Rightarrow> 's" and cond :: "'s \<Rightarrow> ('e + bool) \<times> 's" where
  polls_error: "cond s = (Inl err, s') \<Longrightarrow> polls pause cond s (Some err) s'"
| polls_done: "cond s = (Inr True, s') \<Longrightarrow> polls pause cond s None s'"
| polls_again: "cond s = (Inr False, s') \<Longrightarrow> polls pause cond (pause s') r s'' \<Longrightarrow>
    polls pause cond s r s''"

locale poller =
  fixes poll :: "('s \<Rightarrow> ('e + bool) \<times> 's) \<Rightarrow> 's \<Rightarrow> ('e option \<times> 's) option"
    and pause :: "'s \<Rightarrow> 's"
  assumes poll_sound: "poll cond s = Some (r, s') \<Longrightarrow> polls pause cond s r s'"
    and poll_complete: "polls pause cond s r s' \<Longrightarrow> poll cond s = Some (r, s')"
begin

lemma poll_success:
  assumes "poll cond s = Some (None, s')"
  shows "\<exists>t. cond t = (Inr True, s')"
proof -
  have "polls pause cond s r s' \<Longrightarrow> r = None \<Longrightarrow> \<exists>t. cond t = (Inr True, s')" for r
    by (induction rule: polls.induct) auto
  with poll_sound [OF assms] show ?thesis by blast
qed

lemma poll_keeps:
  assumes "poll cond s = Some (r, s')" and "I s"
    and "\<And>t. I t \<Longrightarrow> I (snd (cond t))" and "\<And>t. I t \<Longrightarrow> I (pause t)"
  shows "I s'"
proof -
  have "polls pause cond s r s' \<Longrightarrow> I s \<Longrightarrow> I s'"
    by (induction rule: polls.induct) (metis assms(3,4) snd_conv)+
  with poll_sound [OF assms(1)] assms(2) show ?thesis by blast
qed

lemma poll_returns:
  assumes "\<And>k. k < n \<Longrightarrow> \<exists>s'. cond (st k) = (Inr False, s') \<and> st (Suc k) = pause s'"
    and "cond (st n) = (Inr True, s')"
  shows "poll cond (st 0) = Some (None, s')"
proof (rule poll_complete)
  have "polls pause cond (st (n - k)) None s'" if "k \<le> n" for k
    using that
  proof (induction k)
    case 0
    with assms(2) show ?case by (simp add: polls_done)
  next
    case (Suc k)
    then have lt: "n - Suc k < n" and eq: "Suc (n - Suc k) = n - k" by simp_all
    from assms(1) [OF lt] obtain t where t: "cond (st (n - Suc k)) = (Inr False, t)"
      "st (n - k) = pause t" using eq by auto
    have "polls pause cond (pause t) None s'" using Suc t(2) by simp
    with t(1) show ?case by (rule polls_again)
  qed
  from this [of n] show "polls pause cond (st 0) None s'" by simp
qed

end

text \<open>
  A reference implementation of the contract; it does not return where the condition never holds.
\<close>

partial_function (option) poll_ref ::
    "('s \<Rightarrow> 's) \<Rightarrow> ('s \<Rightarrow> ('e + bool) \<times> 's) \<Rightarrow> 's \<Rightarrow> ('e option \<times> 's) option" where
  "poll_ref pause cond s =
     (case cond s of
        (Inl err, s') \<Rightarrow> Some (Some err, s')
      | (Inr b, s') \<Rightarrow> if b then Some (None, s') else poll_ref pause cond (pause s'))"

lemma poll_ref_sound:
  assumes "poll_ref pause cond s = Some rs"
  shows "polls pause cond s (fst rs) (snd rs)"
  by (rule poll_ref.raw_induct
        [where P = "\<lambda>pause cond s rs. polls pause cond s (fst rs) (snd rs)", OF _ assms])
    (auto split: prod.splits sum.splits if_splits intro: polls.intros)

lemma poll_ref_complete: "polls pause cond s r s' \<Longrightarrow> poll_ref pause cond s = Some (r, s')"
  by (induction rule: polls.induct) (subst poll_ref.simps, simp)+

interpretation ref_poll: poller "poll_ref pause" pause for pause
  by unfold_locales (auto dest: poll_ref_sound poll_ref_complete)

section \<open>Waiting\<close>

definition pause :: "'w Env \<Rightarrow> Duration \<Rightarrow> 'w sys \<Rightarrow> 'w sys" where
  "pause env d s = s\<lparr>world := elapse env d (world s)\<rparr>"

definition poll_ok :: "'w Env \<Rightarrow> bool" where
  "poll_ok env \<longleftrightarrow> (\<forall>d. poller (PollImmediateInfinite env d) (pause env d))"

lemma poll_okD: "poll_ok env \<Longrightarrow> poller (PollImmediateInfinite env d) (pause env d)"
  by (simp add: poll_ok_def)

text \<open>
  \<open>onward s t\<close>: the world has moved on from \<open>s\<close> to \<open>t\<close> and effects have been added, but nothing in
  the operator's memory has changed.
\<close>

definition onward :: "'w sys \<Rightarrow> 'w sys \<Rightarrow> bool" where
  "onward s t \<longleftrightarrow> clusters t = clusters s \<and> cluster_heap t = cluster_heap s \<and>
     next_cluster t = next_cluster s \<and> cassandra_heap t = cassandra_heap s \<and>
     topology t = topology s \<and> prefix (trace s) (trace t)"

lemma onward_refl [simp]: "onward s s"
  by (simp add: onward_def)

lemma onward_trans [trans]: "onward s t \<Longrightarrow> onward t u \<Longrightarrow> onward s u"
  by (auto simp: onward_def intro: prefix_order.trans)

lemma onward_fields:
  "onward s t \<Longrightarrow> clusters t = clusters s" "onward s t \<Longrightarrow> cluster_heap t = cluster_heap s"
  "onward s t \<Longrightarrow> next_cluster t = next_cluster s"
  "onward s t \<Longrightarrow> cassandra_heap t = cassandra_heap s" "onward s t \<Longrightarrow> topology t = topology s"
  by (simp_all add: onward_def)

lemma onward_step [simp]:
  "onward s (s\<lparr>world := w, trace := trace s @ es\<rparr>)"
  "onward s (s\<lparr>trace := trace s @ es\<rparr>)"
  "onward s (s\<lparr>world := w\<rparr>)"
  by (simp_all add: onward_def)

lemma onward_pause: "onward s (pause env d s)"
  by (simp add: pause_def)

lemma onward_statefulSetChangeApplied: "onward s (snd (statefulSetChangeApplied env c sts s))"
  by (auto simp: statefulSetChangeApplied_def Let_def onward_def split: prod.splits sum.splits)

definition status_request :: "StatefulSet \<Rightarrow> request" where
  "status_request sts = GetStatefulSet (om_Namespace (sts_Meta sts)) (om_Name (sts_Meta sts))"

lemma statefulSetChangeApplied_True:
  assumes "statefulSetChangeApplied env c sts t = (Inr True, t')"
  shows "\<exists>current. fst (api_status env (status_request sts) (world t)) = Inr current \<and>
    change_applied sts current \<and> world t' = snd (api_status env (status_request sts) (world t)) \<and>
    trace t' = trace t @ [Request (status_request sts)]"
  using assms
  by (auto simp: statefulSetChangeApplied_def Let_def status_request_def
      split: prod.splits sum.splits if_splits)

text \<open>What a wait that returns without an error has seen.\<close>

definition saw_applied :: "'w Env \<Rightarrow> StatefulSet \<Rightarrow> 'w sys \<Rightarrow> 'w sys \<Rightarrow> bool" where
  "saw_applied env sts s s' \<longleftrightarrow>
     (\<exists>w current before.
        fst (api_status env (status_request sts) w) = Inr current \<and> change_applied sts current \<and>
        world s' = snd (api_status env (status_request sts) w) \<and>
        trace s' = trace s @ before @
          [Request (status_request sts), Applied (om_Namespace (sts_Meta sts)) (om_Name (sts_Meta sts))])"

lemma poll_until_applied_onward:
  assumes "poll_ok env" and "poll_until_applied env d c sts s = Done r s'"
  shows "onward s s'"
proof -
  have "onward s t" if "PollImmediateInfinite env d (statefulSetChangeApplied env c sts) s = Some (e, t)"
    for e t
    using poller.poll_keeps [OF poll_okD [OF assms(1)] that, of "onward s"]
    by (meson onward_refl onward_trans onward_statefulSetChangeApplied onward_pause)
  with assms(2) show ?thesis
    by (auto simp: poll_until_applied_def Let_def split: option.splits prod.splits
        intro: onward_trans)
qed

lemma poll_until_applied_saw:
  assumes "poll_ok env" and "poll_until_applied env d c sts s = Done None s'"
  shows "saw_applied env sts s s'"
proof -
  from assms(2) obtain t where t: "PollImmediateInfinite env d (statefulSetChangeApplied env c sts) s = Some (None, t)"
    "s' = t\<lparr>trace := trace t @ [Applied (om_Namespace (sts_Meta sts)) (om_Name (sts_Meta sts))]\<rparr>"
    by (auto simp: poll_until_applied_def Let_def split: option.splits prod.splits)
  let ?cond = "statefulSetChangeApplied env c sts"
  note P = poll_okD [OF assms(1), of d]
  have "polls (pause env d) ?cond s r u \<Longrightarrow> r = None \<Longrightarrow>
      \<exists>v. onward s v \<and> ?cond v = (Inr True, u)" for r u
  proof (induction rule: polls.induct)
    case (polls_again s v r u)
    then obtain w where w: "onward (pause env d v) w" "?cond w = (Inr True, u)" by blast
    have "onward s v" using onward_statefulSetChangeApplied [of s env c sts] polls_again(1) by simp
    with w show ?case using onward_trans onward_pause by blast
  next
    case (polls_done s s')
    then show ?case using onward_refl by blast
  qed simp
  with poller.poll_sound [OF P t(1)] obtain v where v: "onward s v" "?cond v = (Inr True, t)" by blast
  from v(1) obtain before where "trace v = trace s @ before" by (auto simp: onward_def prefix_def)
  with statefulSetChangeApplied_True [OF v(2)] t(2) show ?thesis
    unfolding saw_applied_def by auto
qed

lemma WaitUntilRackChangeApplied_Done:
  assumes "WaitUntilRackChangeApplied env c sts s = Done r s'"
  shows "\<exists>t d. onward s t \<and> poll_until_applied env d c sts t = Done r s'"
proof -
  from assms obtain replicas p where
    "poll_until_applied env (timeBetweenChecks p) c sts
      (s\<lparr>world := elapse env (timeBeforeFirstCheck replicas p) (world s),
         trace := trace s @ [wait_event c sts, Slept (timeBeforeFirstCheck replicas p)]\<rparr>) = Done r s'"
    by (auto simp: WaitUntilRackChangeApplied_def seq_def bind_def recordWaitEvent_def perform_def
        modify_def deref_def pass_def panic_with_def Sleep_def split: option.splits outcome.splits)
  moreover have "onward s (s\<lparr>world := elapse env (timeBeforeFirstCheck replicas p) (world s),
      trace := trace s @ [wait_event c sts, Slept (timeBeforeFirstCheck replicas p)]\<rparr>)"
    by (rule onward_step)
  ultimately show ?thesis by metis
qed

lemma WaitUntilRackChangeApplied_onward:
  "poll_ok env \<Longrightarrow> WaitUntilRackChangeApplied env c sts s = Done r s' \<Longrightarrow> onward s s'"
  using WaitUntilRackChangeApplied_Done poll_until_applied_onward onward_trans by metis

lemma saw_applied_earlier:
  assumes "onward s t" and "saw_applied env sts t s'"
  shows "saw_applied env sts s s'"
proof -
  from assms(1) obtain es where es: "trace t = trace s @ es" by (auto simp: onward_def prefix_def)
  from assms(2) obtain w current before where *:
    "fst (api_status env (status_request sts) w) = Inr current" "change_applied sts current"
    "world s' = snd (api_status env (status_request sts) w)"
    "trace s' = trace t @ before @ [Request (status_request sts),
      Applied (om_Namespace (sts_Meta sts)) (om_Name (sts_Meta sts))]"
    unfolding saw_applied_def by blast
  show ?thesis
    unfolding saw_applied_def
    by (rule exI [of _ w], rule exI [of _ current], rule exI [of _ "es @ before"])
      (use * es in simp)
qed

text \<open>
  The wait panics only on a set without a replica count or a cluster without a readiness probe.
\<close>

lemma WaitUntilRackChangeApplied_no_panic:
  assumes "sts_Replicas sts \<noteq> None" and "ReadinessProbe (Spec_Pod (Spec (cdef c))) \<noteq> None"
  shows "WaitUntilRackChangeApplied env c sts s \<noteq> Panicked p s'"
  using assms
  by (auto simp: WaitUntilRackChangeApplied_def seq_def bind_def recordWaitEvent_def perform_def
      modify_def deref_def pass_def panic_with_def Sleep_def poll_until_applied_def Let_def
      split: option.splits outcome.splits prod.splits)

section \<open>Properties\<close>

text \<open>
  When the wait for a stateful set ends without an error, the last answer of the API server
  was a status in which the controller has seen the change, the update is complete and all
  replicas are ready; the wait changes nothing in the operator's memory.
\<close>

theorem WaitUntilRackChangeApplied_applied:
  assumes "poll_ok env" and "WaitUntilRackChangeApplied env c sts s = Done None s'"
  shows "saw_applied env sts s s' \<and> onward s s'"
  using WaitUntilRackChangeApplied_Done [OF assms(2)] poll_until_applied_saw [OF assms(1)]
    saw_applied_earlier WaitUntilRackChangeApplied_onward [OF assms] by blast

text \<open>
  The worlds that the checks of a wait see: the first after the initial sleep, each later one
  after the previous answer and a pause.
\<close>

fun check_world :: "'w Env \<Rightarrow> Duration \<Rightarrow> StatefulSet \<Rightarrow> 'w \<Rightarrow> nat \<Rightarrow> 'w" where
  "check_world env d sts w 0 = w"
| "check_world env d sts w (Suc n) =
     elapse env d (snd (api_status env (status_request sts) (check_world env d sts w n)))"

lemma poll_until_applied_returns:
  assumes "poll_ok env"
    and "\<And>k. k < n \<Longrightarrow> \<exists>st. fst (api_status env (status_request sts) (check_world env d sts (world s) k)) = Inr st \<and>
      \<not> change_applied sts st"
    and "fst (api_status env (status_request sts) (check_world env d sts (world s) n)) = Inr st"
    and "change_applied sts st"
  shows "\<exists>s'. poll_until_applied env d c sts s = Done None s'"
proof -
  let ?cond = "statefulSetChangeApplied env c sts"
  define f where "f k = ((\<lambda>t. pause env d (snd (?cond t))) ^^ k) s" for k
  have f0: "f 0 = s" and fS: "f (Suc k) = pause env d (snd (?cond (f k)))" for k
    by (simp_all add: f_def)
  have world_cond: "world (snd (?cond t)) = snd (api_status env (status_request sts) (world t))" for t
    by (auto simp: statefulSetChangeApplied_def Let_def status_request_def
        split: prod.splits sum.splits)
  have wf: "world (f k) = check_world env d sts (world s) k" for k
    by (induction k) (simp_all add: f0 fS pause_def world_cond)
  have cond: "fst (?cond t) = Inr (change_applied sts st)"
    if "fst (api_status env (status_request sts) (world t)) = Inr st" for t st
    using that by (auto simp: statefulSetChangeApplied_def Let_def status_request_def
        split: prod.splits sum.splits)
  have again: "\<exists>s'. ?cond (f k) = (Inr False, s') \<and> f (Suc k) = pause env d s'" if "k < n" for k
    using assms(2) [OF that] cond [of "f k"] by (auto simp: fS wf prod_eq_iff)
  have "?cond (f n) = (Inr True, snd (?cond (f n)))"
    using assms(3,4) cond [of "f n"] by (simp add: wf prod_eq_iff)
  from poller.poll_returns [OF poll_okD [OF assms(1)], of n ?cond f, OF again this] show ?thesis
    by (simp add: f0 poll_until_applied_def Let_def)
qed

lemma wait_returns:
  assumes "poll_ok env" and "sts_Replicas sts = Some replicas"
    and "ReadinessProbe (Spec_Pod (Spec (cdef c))) = Some p"
    and "d = timeBetweenChecks p"
    and "w = elapse env (timeBeforeFirstCheck replicas p) (world s)"
    and "\<forall>k < n. \<exists>st. fst (api_status env (status_request sts) (check_world env d sts w k)) = Inr st \<and>
      \<not> change_applied sts st"
    and "fst (api_status env (status_request sts) (check_world env d sts w n)) = Inr st"
    and "change_applied sts st"
  shows "\<exists>s'. WaitUntilRackChangeApplied env c sts s = Done None s'"
proof -
  let ?t = "s\<lparr>world := w, trace := trace s @ [wait_event c sts, Slept (timeBeforeFirstCheck replicas p)]\<rparr>"
  have "\<exists>s'. poll_until_applied env d c sts ?t = Done None s'"
    using assms(6-8) by (intro poll_until_applied_returns [OF assms(1)]) auto
  then show ?thesis
    by (simp add: WaitUntilRackChangeApplied_def seq_def bind_def recordWaitEvent_def perform_def
        modify_def deref_def pass_def Sleep_def assms(2-5))
qed


text \<open>
  The pause between two checks is the period of the readiness probe, but five seconds at
  least. The sleep before the first check is the probe's initial delay once per replica, exactly
  as long as that product fits in 32 bits: the multiplication wraps before the conversion to a
  duration.
\<close>

theorem wait_times:
  assumes "0 \<le> sint replicas" and "0 \<le> sint (InitialDelaySeconds p)"
  shows "sint (timeBetweenChecks p) = max (sint (PeriodSeconds p)) 5 * 10 ^ 9 \<and>
    (sint (timeBeforeFirstCheck replicas p) = sint replicas * sint (InitialDelaySeconds p) * 10 ^ 9
       \<longleftrightarrow> sint replicas * sint (InitialDelaySeconds p) < 2 ^ 31)"
proof -
  have sint5: "sint (5 :: int32) = 5" by simp
  have wrap: "sint (replicas * InitialDelaySeconds p) = sint replicas * sint (InitialDelaySeconds p)
      \<longleftrightarrow> sint replicas * sint (InitialDelaySeconds p) < 2 ^ 31"
  proof -
    have "0 \<le> sint replicas * sint (InitialDelaySeconds p)" using assms by simp
    then show ?thesis
      by (simp add: sint_word_ariths signed_take_bit_int_eq_self_iff)
  qed
  show ?thesis
    by (simp add: timeBetweenChecks_def timeBeforeFirstCheck_def sint_durationSeconds wrap max32_def
        word_sless_alt sint5)
qed

section \<open>A sample world\<close>

text \<open>
  A world whose state is the number of pauses so far: nothing exists at first, every request
  succeeds, and a stateful set is ready from the third pause on.
\<close>

definition sample_sts :: StatefulSet where
  "sample_sts = (case createStatefulSetForRack sample_cluster sample_rack None of Inr sts \<Rightarrow> sts)"

definition sample_status :: "nat \<Rightarrow> StatefulSetStatus" where
  "sample_status w = \<lparr>ss_ObservedGeneration = Some (10 :: int), ss_UpdateRevision = ''r'', ss_CurrentRevision = ''r'',
     ss_ReadyReplicas = (if w < 3 then 0 else 2), ss_Replicas = 2\<rparr>"

definition sample_env :: "nat Env" where
  "sample_env = \<lparr>cron_ok = (\<lambda>_. True),
     api_config_map = (\<lambda>r w. (Inl ''not found'', w)),
     api_unit = (\<lambda>r w. (Inr (), w)),
     api_names = (\<lambda>r w. (Inr [], w)),
     api_pods = (\<lambda>r w. (Inr [], w)),
     api_stateful_set = (\<lambda>r w. (Inr (case r of CreateStatefulSet ns sts \<Rightarrow> sts
        | UpdateStatefulSetReq ns sts \<Rightarrow> sts | _ \<Rightarrow> sample_sts), w)),
     api_status = (\<lambda>r w. (Inr (sample_status w), w)),
     api_cron_jobs = (\<lambda>r w. (Inr [], w)),
     http_get = (\<lambda>r w. (Inl ''connection refused'', w)),
     Unmarshal_multi = (\<lambda>b. Inl ''not JSON''), Unmarshal_single = (\<lambda>b. Inl ''not JSON''),
     elapse = (\<lambda>d. Suc),
     PollImmediateInfinite = (\<lambda>d. poll_ref (\<lambda>s. s\<lparr>world := Suc (world s)\<rparr>)),
     Intn = (\<lambda>n w. (0, w)),
     range_keys = (\<lambda>ks w. (ks, w))\<rparr>"

definition sample_sys :: "nat sys" where
  "sample_sys = \<lparr>clusters = fmempty, cluster_heap = Map.empty, next_cluster = 0,
     cassandra_heap = [0 \<mapsto> sample_definition], topology = fmempty, trace = [], world = 0\<rparr>"

lemma sample_poll_ok: "poll_ok sample_env"
proof -
  have eq: "pause sample_env d = (\<lambda>s. s\<lparr>world := Suc (world s)\<rparr>)" for d
    by (simp add: fun_eq_iff pause_def sample_env_def)
  show ?thesis
    unfolding poll_ok_def eq by (simp add: sample_env_def ref_poll.poller_axioms)
qed

lemma sample_sts_created: "createStatefulSetForRack sample_cluster sample_rack None = Inr sample_sts"
proof -
  have "\<exists>sts. createStatefulSetForRack sample_cluster sample_rack None = Inr sts"
    using createCassandraContainer_wf [OF sample_cluster_wf]
    by (auto simp: createStatefulSetForRack_def Let_def)
  then show ?thesis by (auto simp: sample_sts_def)
qed

lemma created_generation: "createStatefulSetForRack c rack cm = Inr sts \<Longrightarrow> sts_Generation sts = 0"
  by (auto simp: createStatefulSetForRack_def Let_def split: sum.splits)

lemma sample_sts_parts:
  "sts_Replicas sample_sts = Some 2" "sts_Generation sample_sts = 0"
  using created_parts(3) [OF sample_sts_created] created_generation [OF sample_sts_created]
  by (simp_all add: sample_rack_def)

definition sample_probe :: Probe where
  "sample_probe = \<lparr>FailureThreshold = 3, InitialDelaySeconds = 10, PeriodSeconds = 15,
     SuccessThreshold = 1, TimeoutSeconds = 7\<rparr>"

lemma sample_readiness:
  "ReadinessProbe (Spec_Pod (Spec (cdef sample_cluster))) = Some sample_probe"
  by code_simp

lemma sample_status_env: "api_status sample_env r w = (Inr (sample_status w), w)"
  by (simp add: sample_env_def)

lemma sample_applied: "change_applied sample_sts (sample_status w) \<longleftrightarrow> 3 \<le> w"
  by (simp add: change_applied_def sample_status_def sample_sts_parts)

lemma sample_check_world: "check_world sample_env d sts w n = w + n"
  by (induction n) (simp_all add: sample_env_def)


lemma sample_wait_returns:
  "\<exists>s'. WaitUntilRackChangeApplied sample_env sample_cluster sample_sts sample_sys = Done None s'"
proof (rule wait_returns [OF sample_poll_ok sample_sts_parts(1) sample_readiness refl refl, where n = 2])
  show "change_applied sample_sts (sample_status 3)" by (simp add: sample_applied)
qed (auto simp: sample_status_env sample_applied sample_check_world, simp_all add: sample_env_def sample_sys_def numeral_3_eq_3)

lemma WaitUntilRackChangeApplied_applied_witness:
  "\<exists>s'. WaitUntilRackChangeApplied sample_env sample_cluster sample_sts sample_sys = Done None s' \<and>
     saw_applied sample_env sample_sts sample_sys s'"
  using sample_wait_returns WaitUntilRackChangeApplied_applied [OF sample_poll_ok] by blast

lemma wait_times_witness:
  "sint (timeBetweenChecks (sample_probe\<lparr>PeriodSeconds := 1\<rparr>)) = 5000000000 \<and>
   sint (timeBeforeFirstCheck 8 (sample_probe\<lparr>InitialDelaySeconds := 2 ^ 29\<rparr>)) \<noteq>
     8 * 2 ^ 29 * 10 ^ 9"
  using wait_times [of 8 "sample_probe\<lparr>PeriodSeconds := 1\<rparr>"]
    wait_times [of 8 "sample_probe\<lparr>InitialDelaySeconds := 2 ^ 29\<rparr>"]
  by (simp add: sample_probe_def)

end
