(* ===== verification/Metrics.thy ===== *)
theory Metrics
  imports NodeStatus Accessor
begin

text \<open>
  The metrics of the clusters, after \<^verbatim>\<open>cassandra-operator/pkg/metrics/metrics.go\<close> (gathering node
  states from Cassandra's Jolokia agent) and \<^verbatim>\<open>prometheus.go\<close> (two gauges and the last known
  topology of each cluster). The gauges are seen as the writes the code makes to them.
\<close>

section \<open>Gathering\<close>

datatype jolokia_error =
    HttpFailed string
  | ReadFailed
  | HttpStatus int
  | UnmarshalFailed string
  | ErrorResponse int

text \<open>
  \<open>sendRequestToJolokia\<close>: the holder of the answer starts as the zero value, so an empty body is
  an answer of status zero.
\<close>

definition sendRequestToJolokia ::
    "'w Env \<Rightarrow> (string \<Rightarrow> string + 'v Jolokia) \<Rightarrow> 'v Jolokia \<Rightarrow> string \<Rightarrow> (jolokia_error + 'v Jolokia, 'w) action" where
  "sendRequestToJolokia env decode zero url =
     bind (call (http_get env) (HttpGet url)) (\<lambda>r. pass (case r of
       Inl err \<Rightarrow> Inl (HttpFailed err)
     | Inr resp \<Rightarrow>
         (case hr_Body resp of
            None \<Rightarrow> Inl ReadFailed
          | Some body \<Rightarrow>
              if hr_StatusCode resp \<noteq> 200 then Inl (HttpStatus (hr_StatusCode resp))
              else (case (if length body > 0 then decode body else Inr zero) of
                      Inl err \<Rightarrow> Inl (UnmarshalFailed err)
                    | Inr answer \<Rightarrow>
                        if jk_Status answer \<noteq> 200 then Inl (ErrorResponse (jk_Status answer))
                        else Inr answer))))"

definition list_pods :: "'w Env \<Rightarrow> Cluster \<Rightarrow> (string + K8sPod list, 'w) action" where
  "list_pods env c =
     call (api_pods env) (ListPods (Cluster_Namespace c) (''app='' @ Cluster_Name c))"

definition podsWithIPAddresses :: "'w Env \<Rightarrow> Cluster \<Rightarrow> (string + K8sPod list, 'w) action" where
  "podsWithIPAddresses env c =
     bind (list_pods env c) (\<lambda>r. pass (case r of
       Inl err \<Rightarrow> Inl err
     | Inr pods \<Rightarrow> Inr (filter (\<lambda>p. pod_IP p \<noteq> []) pods)))"

definition jolokia_url :: "string \<Rightarrow> string" where
  "jolokia_url host = ''http://'' @ host @ '':7777''"

definition urlFor :: "'w Env \<Rightarrow> Cluster \<Rightarrow> (string, 'w) action" where
  "urlFor env c =
     bind (podsWithIPAddresses env c) (\<lambda>r.
       case r of
         Inl err \<Rightarrow> pass (jolokia_url (ServiceName (cdef c)))
       | Inr pods \<Rightarrow>
           if length pods = 0 then pass (jolokia_url (ServiceName (cdef c)))
           else bind (ask (Intn env (length pods))) (\<lambda>i.
             if i < length pods then pass (jolokia_url (pod_IP (pods ! i)))
             else panic_with IndexOutOfRange))"

definition mbeans :: "string list" where
  "mbeans = [''LiveNodes'', ''UnreachableNodes'', ''JoiningNodes'', ''LeavingNodes'', ''MovingNodes'']"

definition mbean_url :: "string \<Rightarrow> string \<Rightarrow> string" where
  "mbean_url endpoint mbean =
     endpoint @ ''/jolokia/read/org.apache.cassandra.db:type=StorageService/'' @ mbean"

definition rack_url :: "string \<Rightarrow> string \<Rightarrow> string" where
  "rack_url endpoint nodeIP =
     endpoint @ ''/jolokia/exec/org.apache.cassandra.db:type=EndpointSnitchInfo/getRack/'' @ nodeIP"

datatype gather_error = MbeanError string jolokia_error | RackError string jolokia_error | PodsError string

fun collect_mbeans ::
    "'w Env \<Rightarrow> string \<Rightarrow> string list \<Rightarrow> (string \<Rightarrow> string list) \<Rightarrow>
     (gather_error + (string \<Rightarrow> string list), 'w) action" where
  "collect_mbeans env endpoint [] values = pass (Inr values)"
| "collect_mbeans env endpoint (mbean # rest) values =
     bind (sendRequestToJolokia env (Unmarshal_multi env) \<lparr>jk_Status = 0, jk_Value = []\<rparr>
             (mbean_url endpoint mbean)) (\<lambda>r.
       case r of
         Inl err \<Rightarrow> pass (Inl (MbeanError mbean err))
       | Inr answer \<Rightarrow> collect_mbeans env endpoint rest (values(mbean := jk_Value answer)))"

text \<open>The beans are the keys of a Go map, visited in any order.\<close>

definition collectMbeanStatusValuesFor ::
    "'w Env \<Rightarrow> Cluster \<Rightarrow> (gather_error + (string \<Rightarrow> string list), 'w) action" where
  "collectMbeanStatusValuesFor env c =
     bind (urlFor env c) (\<lambda>endpoint.
     bind (ask (range_keys env mbeans)) (\<lambda>order.
     collect_mbeans env endpoint order (\<lambda>_. [])))"

fun collect_racks ::
    "'w Env \<Rightarrow> string \<Rightarrow> string list \<Rightarrow> (string, string) fmap \<Rightarrow>
     (gather_error + (string, string) fmap, 'w) action" where
  "collect_racks env endpoint [] rackInfo = pass (Inr rackInfo)"
| "collect_racks env endpoint (nodeIP # rest) rackInfo =
     bind (sendRequestToJolokia env (Unmarshal_single env) \<lparr>jk_Status = 0, jk_Value = []\<rparr>
             (rack_url endpoint nodeIP)) (\<lambda>r.
       case r of
         Inl err \<Rightarrow> pass (Inl (RackError nodeIP err))
       | Inr answer \<Rightarrow> collect_racks env endpoint rest (fmupd nodeIP (jk_Value answer) rackInfo))"

definition collectRackInfoFor ::
    "'w Env \<Rightarrow> Cluster \<Rightarrow> string list \<Rightarrow> string list \<Rightarrow> (gather_error + (string, string) fmap, 'w) action" where
  "collectRackInfoFor env c live unreachable =
     bind (urlFor env c) (\<lambda>endpoint. collect_racks env endpoint (live @ unreachable) fmempty)"

definition GatherMetricsFor :: "'w Env \<Rightarrow> Cluster \<Rightarrow> (gather_error + clusterStatus, 'w) action" where
  "GatherMetricsFor env c =
     bind (collectMbeanStatusValuesFor env c) (\<lambda>r.
       case r of
         Inl err \<Rightarrow> pass (Inl err)
       | Inr values \<Rightarrow>
           bind (collectRackInfoFor env c (values ''LiveNodes'') (values ''UnreachableNodes'')) (\<lambda>r.
             pass (case r of
               Inl err \<Rightarrow> Inl err
             | Inr rackInfo \<Rightarrow> Inr
                 \<lparr>nodeRacks = rackInfo,
                  liveNodes = values ''LiveNodes'',
                  unreachableNodes = values ''UnreachableNodes'',
                  joiningNodes = values ''JoiningNodes'',
                  leavingNodes = values ''LeavingNodes'',
                  movingNodes = values ''MovingNodes''\<rparr>)))"

section \<open>Reporting\<close>

definition performs :: "effect list \<Rightarrow> (unit, 'w) action" where
  "performs es = modify (\<lambda>s. s\<lparr>trace := trace s @ es\<rparr>)"

definition node_labels :: "Cluster \<Rightarrow> string \<Rightarrow> string \<Rightarrow> labelPair \<Rightarrow> string list" where
  "node_labels c rack podName l =
     [Cluster_Name c, Cluster_Namespace c, rack, podName, liveness l, state l]"

definition size_labels :: "Cluster \<Rightarrow> string list" where
  "size_labels c = [Cluster_Name c, Cluster_Namespace c]"

definition updateNodeStatus :: "Cluster \<Rightarrow> string \<Rightarrow> string \<Rightarrow> nodeStatus \<Rightarrow> (unit, 'w) action" where
  "updateNodeStatus c rack podName n =
     performs (SetNodeGauge (node_labels c rack podName (applicable n)) 1 #
       map (\<lambda>ul. SetNodeGauge (node_labels c rack podName ul) 0) (unapplicableLabelPairs n))"

definition RemoveNodeFromMetrics :: "Cluster \<Rightarrow> string \<Rightarrow> string \<Rightarrow> (unit, 'w) action" where
  "RemoveNodeFromMetrics c podName rackName =
     performs (map (\<lambda>l. DeleteNodeGauge (node_labels c rackName podName l)) allLabelPairs)"

text \<open>The keys of a Go map in the order a loop visits them.\<close>

definition range_order :: "'w Env \<Rightarrow> (string, 'v) fmap \<Rightarrow> (string list, 'w) action" where
  "range_order env m = ask (range_keys env (sorted_list_of_fset (fmdom m)))"

fun remove_nodes :: "Cluster \<Rightarrow> (string, string) fmap \<Rightarrow> string list \<Rightarrow> (unit, 'w) action" where
  "remove_nodes c nodes [] = pass ()"
| "remove_nodes c nodes (podName # rest) =
     (case fmlookup nodes podName of
        None \<Rightarrow> remove_nodes c nodes rest
      | Some rackName \<Rightarrow>
          seq (RemoveNodeFromMetrics c podName rackName) (remove_nodes c nodes rest))"

definition DeleteMetrics :: "'w Env \<Rightarrow> Cluster \<Rightarrow> (unit, 'w) action" where
  "DeleteMetrics env c =
     seq (perform (DeleteSizeGauge (size_labels c)))
    (bind (gets (\<lambda>s. fmlookup (topology s) (Cluster_QualifiedName c))) (\<lambda>known.
       case known of
         None \<Rightarrow> pass ()
       | Some nodes \<Rightarrow>
           bind (range_order env nodes) (\<lambda>pods.
           seq (remove_nodes c nodes pods)
               (modify (\<lambda>s. s\<lparr>topology := fmdrop (Cluster_QualifiedName c) (topology s)\<rparr>)))))"

definition podsInCluster :: "'w Env \<Rightarrow> Cluster \<Rightarrow> (string + (string, string) fmap, 'w) action" where
  "podsInCluster env c =
     bind (list_pods env c) (\<lambda>r. pass (case r of
       Inl err \<Rightarrow> Inl err
     | Inr pods \<Rightarrow> Inr (fold (\<lambda>p. fmupd (pod_IP p) (pod_Name p)) pods fmempty)))"

definition rack_of_node :: "clusterStatus \<Rightarrow> string \<Rightarrow> string" where
  "rack_of_node cs ip = (case fmlookup (nodeRacks cs) ip of None \<Rightarrow> ''unknown'' | Some r \<Rightarrow> r)"

fun report_nodes ::
    "Cluster \<Rightarrow> clusterStatus \<Rightarrow> (string, string) fmap \<Rightarrow> (string, nodeStatus) fmap \<Rightarrow> string list \<Rightarrow>
     (string, string) fmap \<Rightarrow> ((string, string) fmap, 'w) action" where
  "report_nodes c cs podNames statuses [] nodes = pass nodes"
| "report_nodes c cs podNames statuses (podIP # rest) nodes =
     (case (fmlookup statuses podIP, fmlookup podNames podIP) of
        (Some n, Some podName) \<Rightarrow>
          (let rack = rack_of_node cs podIP
           in seq (updateNodeStatus c rack podName n)
                  (report_nodes c cs podNames statuses rest (fmupd podName rack nodes)))
      | _ \<Rightarrow> report_nodes c cs podNames statuses rest nodes)"

definition report_status ::
    "'w Env \<Rightarrow> Cluster \<Rightarrow> (string, string) fmap \<Rightarrow> clusterStatus \<Rightarrow> (unit, 'w) action" where
  "report_status env c podNames cs =
     (let statuses = transformClusterStatus cs
      in bind (range_order env statuses) (\<lambda>ips.
         bind (report_nodes c cs podNames statuses ips fmempty) (\<lambda>nodes.
         seq (modify (\<lambda>s. s\<lparr>topology := fmupd (Cluster_QualifiedName c) nodes (topology s)\<rparr>))
             (perform (SetSizeGauge (size_labels c) (int (size (fmdom nodes))))))))"

definition UpdateMetrics :: "'w Env \<Rightarrow> Cluster \<Rightarrow> (unit, 'w) action" where
  "UpdateMetrics env c =
     bind (podsInCluster env c) (\<lambda>r.
       case r of
         Inl err \<Rightarrow> pass ()
       | Inr podNames \<Rightarrow>
           bind (GatherMetricsFor env c) (\<lambda>r.
             case r of
               Inl err \<Rightarrow> pass ()
             | Inr cs \<Rightarrow> report_status env c podNames cs))"

section \<open>Reading the gauges back\<close>

text \<open>
  The value of the gauge with the given labels after a sequence of effects: the last write to it,
  nothing after it has been deleted.
\<close>

fun node_write :: "string list \<Rightarrow> effect \<Rightarrow> int option \<Rightarrow> int option" where
  "node_write ls (SetNodeGauge ls' x) v = (if ls' = ls then Some x else v)"
| "node_write ls (DeleteNodeGauge ls') v = (if ls' = ls then None else v)"
| "node_write ls _ v = v"

fun size_write :: "string list \<Rightarrow> effect \<Rightarrow> int option \<Rightarrow> int option" where
  "size_write ls (SetSizeGauge ls' x) v = (if ls' = ls then Some x else v)"
| "size_write ls (DeleteSizeGauge ls') v = (if ls' = ls then None else v)"
| "size_write ls _ v = v"

definition node_gauge :: "effect list \<Rightarrow> string list \<Rightarrow> int option" where
  "node_gauge es ls = fold (node_write ls) es None"

definition size_gauge :: "effect list \<Rightarrow> string list \<Rightarrow> int option" where
  "size_gauge es ls = fold (size_write ls) es None"

definition touches :: "string list \<Rightarrow> effect \<Rightarrow> bool" where
  "touches ls e \<longleftrightarrow> (\<exists>x. e = SetNodeGauge ls x) \<or> e = DeleteNodeGauge ls"

lemma node_write_untouched: "\<not> touches ls e \<Longrightarrow> node_write ls e v = v"
  by (cases e) (auto simp: touches_def)

lemma fold_node_write_untouched:
  "(\<And>e. e \<in> set es \<Longrightarrow> \<not> touches ls e) \<Longrightarrow> fold (node_write ls) es v = v"
  by (induction es arbitrary: v) (simp_all add: node_write_untouched)

section \<open>Closed forms of the loops\<close>

definition status_effects :: "Cluster \<Rightarrow> string \<Rightarrow> string \<Rightarrow> nodeStatus \<Rightarrow> effect list" where
  "status_effects c rack podName n =
     SetNodeGauge (node_labels c rack podName (applicable n)) 1 #
       map (\<lambda>ul. SetNodeGauge (node_labels c rack podName ul) 0) (unapplicableLabelPairs n)"

definition node_effects ::
    "Cluster \<Rightarrow> clusterStatus \<Rightarrow> (string, string) fmap \<Rightarrow> (string, nodeStatus) fmap \<Rightarrow> string \<Rightarrow> effect list" where
  "node_effects c cs podNames statuses ip =
     (case (fmlookup statuses ip, fmlookup podNames ip) of
        (Some n, Some pod) \<Rightarrow> status_effects c (rack_of_node cs ip) pod n
      | _ \<Rightarrow> [])"

definition node_entry ::
    "clusterStatus \<Rightarrow> (string, string) fmap \<Rightarrow> (string, nodeStatus) fmap \<Rightarrow> string \<Rightarrow>
     (string, string) fmap \<Rightarrow> (string, string) fmap" where
  "node_entry cs podNames statuses ip nodes =
     (case (fmlookup statuses ip, fmlookup podNames ip) of
        (Some n, Some pod) \<Rightarrow> fmupd pod (rack_of_node cs ip) nodes
      | _ \<Rightarrow> nodes)"

lemma report_nodes_eq:
  "report_nodes c cs podNames statuses ips nodes s =
     Done (fold (node_entry cs podNames statuses) ips nodes)
       (s\<lparr>trace := trace s @ concat (map (node_effects c cs podNames statuses) ips)\<rparr>)"
  by (induction ips arbitrary: nodes s)
    (auto simp: pass_def seq_def bind_def updateNodeStatus_def performs_def modify_def
      node_entry_def node_effects_def status_effects_def Let_def split: option.splits)

definition remove_effects :: "Cluster \<Rightarrow> (string, string) fmap \<Rightarrow> string \<Rightarrow> effect list" where
  "remove_effects c nodes pod =
     (case fmlookup nodes pod of
        None \<Rightarrow> []
      | Some rack \<Rightarrow> map (\<lambda>l. DeleteNodeGauge (node_labels c rack pod l)) allLabelPairs)"

lemma remove_nodes_eq:
  "remove_nodes c nodes pods s =
     Done () (s\<lparr>trace := trace s @ concat (map (remove_effects c nodes) pods)\<rparr>)"
  by (induction pods arbitrary: s)
    (auto simp: pass_def seq_def bind_def RemoveNodeFromMetrics_def performs_def modify_def
      remove_effects_def split: option.splits)

lemma node_labels_inject [simp]:
  "node_labels c rack pod l = node_labels c rack' pod' l' \<longleftrightarrow> rack = rack' \<and> pod = pod' \<and> l = l'"
  by (cases l; cases l') (auto simp: node_labels_def)

text \<open>After the writes for one node, of its eight gauges the applicable one is 1 and the others 0.\<close>

lemma status_effects_gauges:
  assumes "l \<in> set allLabelPairs"
  shows "fold (node_write (node_labels c rack pod l)) (status_effects c rack pod n) v =
    Some (if l = applicable n then 1 else 0)"
proof -
  have "fold (node_write (node_labels c rack pod l))
      (map (\<lambda>ul. SetNodeGauge (node_labels c rack pod ul) 0) uls) v =
      (if l \<in> set uls then Some 0 else v)" for uls v
    by (induction uls arbitrary: v) auto
  then show ?thesis
    using assms by (simp add: status_effects_def set_unapplicable)
qed

lemma status_effects_other:
  assumes "pod' \<noteq> pod"
  shows "e \<in> set (status_effects c rack' pod' n) \<Longrightarrow> \<not> touches (node_labels c rack pod l) e"
  using assms by (auto simp: status_effects_def touches_def)

text \<open>The contract of a loop over a Go map: every key once, in any order.\<close>

definition range_ok :: "'w Env \<Rightarrow> bool" where
  "range_ok env \<longleftrightarrow> (\<forall>ks w. mset (fst (range_keys env ks w)) = mset ks)"

lemma range_okD:
  assumes "range_ok env"
  shows "set (fst (range_keys env ks w)) = set ks"
    and "distinct (fst (range_keys env ks w)) \<longleftrightarrow> distinct ks"
proof -
  from assms have eq: "mset (fst (range_keys env ks w)) = mset ks" by (simp add: range_ok_def)
  then show "set (fst (range_keys env ks w)) = set ks" by (metis set_mset_mset)
  from eq show "distinct (fst (range_keys env ks w)) \<longleftrightarrow> distinct ks" by (metis mset_eq_imp_distinct_iff)
qed

text \<open>Where two addresses never share a pod, the writes for one node survive those for the rest.\<close>

definition one_pod_each :: "(string, string) fmap \<Rightarrow> bool" where
  "one_pod_each podNames \<longleftrightarrow>
     (\<forall>ip ip' pod. fmlookup podNames ip = Some pod \<longrightarrow> fmlookup podNames ip' = Some pod \<longrightarrow> ip = ip')"

lemma nodes_gauges:
  assumes one: "one_pod_each podNames" and d: "distinct ips" and ip: "ip \<in> set ips"
    and n: "fmlookup statuses ip = Some n" and pod: "fmlookup podNames ip = Some pod"
    and l: "l \<in> set allLabelPairs"
  shows "fold (node_write (node_labels c (rack_of_node cs ip) pod l))
    (concat (map (node_effects c cs podNames statuses) ips)) v = Some (if l = applicable n then 1 else 0)"
proof -
  from ip obtain as bs where ips: "ips = as @ ip # bs" by (meson split_list)
  with d have "ip \<notin> set bs" by simp
  let ?ls = "node_labels c (rack_of_node cs ip) pod l"
  have "\<not> touches ?ls e" if e: "e \<in> set (concat (map (node_effects c cs podNames statuses) bs))" for e
  proof -
    from e obtain i where i: "i \<in> set bs" "e \<in> set (node_effects c cs podNames statuses i)" by auto
    from i(2) have "\<exists>m q. fmlookup podNames i = Some q \<and> e \<in> set (status_effects c (rack_of_node cs i) q m)"
      by (cases "fmlookup statuses i"; cases "fmlookup podNames i") (auto simp: node_effects_def)
    then obtain m q where q: "fmlookup podNames i = Some q" "e \<in> set (status_effects c (rack_of_node cs i) q m)"
      by blast
    with one pod i(1) \<open>ip \<notin> set bs\<close> have "q \<noteq> pod" by (auto simp: one_pod_each_def)
    with q(2) show ?thesis by (rule status_effects_other [rotated])
  qed
  then have rest: "fold (node_write ?ls) (concat (map (node_effects c cs podNames statuses) bs)) u = u" for u
    by (rule fold_node_write_untouched)
  show ?thesis
    using n pod l by (simp add: ips rest) (simp add: node_effects_def status_effects_gauges applicable_in)
qed

lemma nodes_entries:
  assumes one: "one_pod_each podNames" and d: "distinct ips"
  shows "fmlookup (fold (node_entry cs podNames statuses) ips nodes) pod =
    (if \<exists>ip \<in> set ips. fmlookup statuses ip \<noteq> None \<and> fmlookup podNames ip = Some pod
     then Some (rack_of_node cs (THE ip. fmlookup podNames ip = Some pod))
     else fmlookup nodes pod)"
  using d
proof (induction ips arbitrary: nodes)
  case (Cons ip ips)
  have the: "(THE i. fmlookup podNames i = Some pod) = ip" if "fmlookup podNames ip = Some pod"
    using one that by (auto simp: one_pod_each_def)
  show ?case
  proof (cases "fmlookup statuses ip \<noteq> None \<and> fmlookup podNames ip = Some pod")
    case True
    with one Cons.prems have "\<not> (\<exists>i \<in> set ips. fmlookup statuses i \<noteq> None \<and> fmlookup podNames i = Some pod)"
      by (auto simp: one_pod_each_def)
    with True Cons show ?thesis by (auto simp: node_entry_def the split: option.split)
  next
    case False
    with Cons show ?thesis
      by (auto simp: node_entry_def split: option.split)
  qed
qed simp

lemma range_order_eq:
  "range_order env m s = Done (fst (range_keys env (sorted_list_of_fset (fmdom m)) (world s)))
     (s\<lparr>world := snd (range_keys env (sorted_list_of_fset (fmdom m)) (world s))\<rparr>)"
  by (simp add: range_order_def ask_def prod.case_eq_if)

lemma range_order_keys:
  assumes "range_ok env"
  shows "set (fst (range_keys env (sorted_list_of_fset (fmdom m)) w)) = fset (fmdom m)"
    and "distinct (fst (range_keys env (sorted_list_of_fset (fmdom m)) w))"
  by (simp_all add: range_okD [OF assms] sorted_list_of_fset.rep_eq)

lemma report_status_eq:
  "report_status env c podNames cs s =
     (let statuses = transformClusterStatus cs;
          (ips, w) = range_keys env (sorted_list_of_fset (fmdom statuses)) (world s);
          nodes = fold (node_entry cs podNames statuses) ips fmempty
      in Done () (s\<lparr>world := w,
           topology := fmupd (Cluster_QualifiedName c) nodes (topology s),
           trace := trace s @ concat (map (node_effects c cs podNames statuses) ips) @
             [SetSizeGauge (size_labels c) (int (size (fmdom nodes)))]\<rparr>))"
  by (simp add: report_status_def Let_def bind_def range_order_eq report_nodes_eq seq_def
      modify_def perform_def prod.case_eq_if)

text \<open>The pods a report can name: those whose address has a status.\<close>

definition reported_pods :: "clusterStatus \<Rightarrow> (string, string) fmap \<Rightarrow> string set" where
  "reported_pods cs podNames =
     {pod. \<exists>ip. ip \<in> known_nodes cs \<and> fmlookup podNames ip = Some pod}"

lemma statuses_known: "fmlookup (transformClusterStatus cs) ip \<noteq> None \<longleftrightarrow> ip \<in> known_nodes cs"
  by (simp add: transformClusterStatus_def fold_mark_lookups known_nodes_def)

lemma node_gauge_append:
  "node_gauge (es @ fs) ls = fold (node_write ls) fs (node_gauge es ls)"
  by (simp add: node_gauge_def)

lemma size_gauge_append:
  "size_gauge (es @ fs) ls = fold (size_write ls) fs (size_gauge es ls)"
  by (simp add: size_gauge_def)

lemma statuses_dom: "fset (fmdom (transformClusterStatus cs)) = known_nodes cs"
proof (rule set_eqI)
  fix ip
  show "ip \<in> fset (fmdom (transformClusterStatus cs)) \<longleftrightarrow> ip \<in> known_nodes cs"
    using statuses_known [of cs ip] by (simp add: fmlookup_dom_iff)
qed

text \<open>What the report of one status leaves behind.\<close>

definition reports_nodes ::
    "Cluster \<Rightarrow> (string, string) fmap \<Rightarrow> clusterStatus \<Rightarrow> 'w sys \<Rightarrow> bool" where
  "reports_nodes c podNames cs s \<longleftrightarrow>
     (\<forall>ip n pod l. fmlookup (transformClusterStatus cs) ip = Some n \<longrightarrow> fmlookup podNames ip = Some pod \<longrightarrow>
        l \<in> set allLabelPairs \<longrightarrow>
        node_gauge (trace s) (node_labels c (rack_of_node cs ip) pod l) =
          Some (if l = applicable n then 1 else 0))"

lemma report_status_nodes:
  assumes "range_ok env" and one: "one_pod_each podNames"
    and "report_status env c podNames cs s = Done () s'"
  shows "reports_nodes c podNames cs s'"
  unfolding reports_nodes_def
proof (intro allI impI)
  fix ip n pod l
  assume n: "fmlookup (transformClusterStatus cs) ip = Some n"
    and pod: "fmlookup podNames ip = Some pod" and l: "l \<in> set allLabelPairs"
  define ips where "ips = fst (range_keys env (sorted_list_of_fset (fmdom (transformClusterStatus cs))) (world s))"
  have ips: "distinct ips" "ip \<in> set ips"
    using range_order_keys [OF assms(1), of "transformClusterStatus cs" "world s"] n
    by (auto simp: ips_def fmdomI)
  from assms(3) have tr: "\<exists>k. trace s' = trace s @
      concat (map (node_effects c cs podNames (transformClusterStatus cs)) ips) @ [SetSizeGauge (size_labels c) k]"
    by (auto simp: report_status_eq ips_def Let_def prod.case_eq_if)
  then show "node_gauge (trace s') (node_labels c (rack_of_node cs ip) pod l) =
      Some (if l = applicable n then 1 else 0)"
    using nodes_gauges [OF one ips n pod l, of c cs] by (auto simp: node_gauge_append)
qed

lemma report_status_topology:
  assumes "range_ok env" and one: "one_pod_each podNames"
    and "report_status env c podNames cs s = Done () s'"
  shows "\<exists>nodes. topology s' = fmupd (Cluster_QualifiedName c) nodes (topology s) \<and>
    fset (fmdom nodes) = reported_pods cs podNames \<and>
    (\<forall>ip pod. ip \<in> known_nodes cs \<longrightarrow> fmlookup podNames ip = Some pod \<longrightarrow>
       fmlookup nodes pod = Some (rack_of_node cs ip)) \<and>
    size_gauge (trace s') (size_labels c) = Some (int (card (reported_pods cs podNames)))"
proof -
  define sts where "sts = transformClusterStatus cs"
  define ips where "ips = fst (range_keys env (sorted_list_of_fset (fmdom sts)) (world s))"
  define nodes where "nodes = fold (node_entry cs podNames sts) ips fmempty"
  have ips: "distinct ips" "set ips = known_nodes cs"
    using range_order_keys [OF assms(1), of sts "world s"]
    by (simp_all add: ips_def sts_def statuses_dom)
  from assms(3) have s': "topology s' = fmupd (Cluster_QualifiedName c) nodes (topology s)"
    "\<exists>es. trace s' = es @ [SetSizeGauge (size_labels c) (int (size (fmdom nodes)))]"
    by (auto simp: report_status_eq sts_def ips_def nodes_def Let_def prod.case_eq_if)
  have lookup: "fmlookup nodes pod =
      (if pod \<in> reported_pods cs podNames
       then Some (rack_of_node cs (THE ip. fmlookup podNames ip = Some pod)) else None)" for pod
  proof -
    have "(\<exists>ip \<in> set ips. fmlookup sts ip \<noteq> None \<and> fmlookup podNames ip = Some pod) \<longleftrightarrow>
        pod \<in> reported_pods cs podNames"
      unfolding ips(2) sts_def statuses_known reported_pods_def by blast
    then show ?thesis unfolding nodes_def nodes_entries [OF one ips(1)] by simp
  qed
  have dom: "fset (fmdom nodes) = reported_pods cs podNames"
    using lookup by (auto simp: fmlookup_dom_iff split: if_splits)
  have the: "(THE i. fmlookup podNames i = Some pod) = ip" if "fmlookup podNames ip = Some pod" for ip pod
    using one that by (auto simp: one_pod_each_def)
  have racks: "fmlookup nodes pod = Some (rack_of_node cs ip)"
    if "ip \<in> known_nodes cs" "fmlookup podNames ip = Some pod" for ip pod
    using that by (auto simp: lookup reported_pods_def the)
  have "size_gauge (trace s') (size_labels c) = Some (int (card (reported_pods cs podNames)))"
    using s'(2) dom by (auto simp: size_gauge_append size_gauge_def fcard.rep_eq [symmetric] size_fset_overloaded_simps)
  with s'(1) dom racks show ?thesis by blast
qed

section \<open>Pods and addresses\<close>

definition pod_names :: "K8sPod list \<Rightarrow> (string, string) fmap" where
  "pod_names pods = fold (\<lambda>p. fmupd (pod_IP p) (pod_Name p)) pods fmempty"

lemma pod_names_Some:
  "fmlookup (pod_names pods) ip = Some n \<Longrightarrow> \<exists>p \<in> set pods. pod_IP p = ip \<and> pod_Name p = n"
proof -
  have "fmlookup (fold (\<lambda>p. fmupd (pod_IP p) (pod_Name p)) pods m) ip = Some n \<Longrightarrow>
      (\<exists>p \<in> set pods. pod_IP p = ip \<and> pod_Name p = n) \<or> fmlookup m ip = Some n" for m
  proof (induction pods arbitrary: m)
    case (Cons p pods)
    from Cons.IH [of "fmupd (pod_IP p) (pod_Name p) m"] Cons.prems show ?case
      by (auto split: if_splits)
  qed simp
  then show "fmlookup (pod_names pods) ip = Some n \<Longrightarrow> ?thesis"
    unfolding pod_names_def by fastforce
qed

text \<open>The API server never gives two pods of a namespace the same name.\<close>

definition pods_ok :: "'w Env \<Rightarrow> bool" where
  "pods_ok env \<longleftrightarrow>
     (\<forall>req w pods. fst (api_pods env req w) = Inr pods \<longrightarrow> distinct (map pod_Name pods))"

lemma one_pod_each_pod_names:
  assumes "distinct (map pod_Name pods)"
  shows "one_pod_each (pod_names pods)"
  unfolding one_pod_each_def
proof (intro allI impI)
  fix ip ip' pod
  assume "fmlookup (pod_names pods) ip = Some pod" "fmlookup (pod_names pods) ip' = Some pod"
  then obtain p p' where "p \<in> set pods" "pod_IP p = ip" "pod_Name p = pod"
    and "p' \<in> set pods" "pod_IP p' = ip'" "pod_Name p' = pod"
    using pod_names_Some by meson
  with distinct_map_unique [OF assms] show "ip = ip'" by metis
qed

lemma podsInCluster_one:
  assumes "pods_ok env" and "podsInCluster env c s = Done (Inr podNames) t"
  shows "one_pod_each podNames"
proof -
  from assms(2) obtain pods where
    "fst (api_pods env (ListPods (Cluster_Namespace c) (''app='' @ Cluster_Name c)) (world s)) = Inr pods"
    "podNames = pod_names pods"
    by (auto simp: podsInCluster_def list_pods_def bind_def call_def pass_def pod_names_def Let_def
        split: prod.splits sum.splits)
  with assms(1) show ?thesis unfolding pods_ok_def by (metis one_pod_each_pod_names)
qed

section \<open>Gathering only asks\<close>

definition asks :: "('a, 'w) action \<Rightarrow> bool" where
  "asks m \<longleftrightarrow> (\<forall>s a s'. m s = Done a s' \<longrightarrow>
     (\<exists>w rs. s' = s\<lparr>world := w, trace := trace s @ map Request rs\<rparr>))"

lemma asksD: "asks m \<Longrightarrow> m s = Done a s' \<Longrightarrow> \<exists>w rs. s' = s\<lparr>world := w, trace := trace s @ map Request rs\<rparr>"
  by (simp add: asks_def)

lemma asks_bind:
  assumes "asks m" and "\<And>a. asks (f a)"
  shows "asks (bind m f)"
  unfolding asks_def
proof (intro allI impI)
  fix s b s''
  assume "bind m f s = Done b s''"
  then obtain a s' where s': "m s = Done a s'" "f a s' = Done b s''"
    by (auto simp: bind_def split: outcome.splits)
  from asksD [OF assms(1) s'(1)] obtain w rs where 1: "s' = s\<lparr>world := w, trace := trace s @ map Request rs\<rparr>"
    by blast
  from asksD [OF assms(2) s'(2)] obtain v qs where 2: "s'' = s'\<lparr>world := v, trace := trace s' @ map Request qs\<rparr>"
    by blast
  have "s'' = s\<lparr>world := v, trace := trace s @ map Request (rs @ qs)\<rparr>" using 1 2 by simp
  then show "\<exists>w rs. s'' = s\<lparr>world := w, trace := trace s @ map Request rs\<rparr>" by blast
qed

lemma asks_pass: "asks (pass a)"
proof -
  have "s = s\<lparr>world := world s, trace := trace s @ map Request []\<rparr>" for s :: "'w sys" by simp
  then show ?thesis unfolding asks_def pass_def by blast
qed

lemma asks_ask: "asks (ask g)"
  unfolding asks_def
proof (intro allI impI)
  fix s a s' assume "ask g s = Done a s'"
  then have "s' = s\<lparr>world := snd (g (world s)), trace := trace s @ map Request []\<rparr>"
    by (auto simp: ask_def Let_def split: prod.splits)
  then show "\<exists>w rs. s' = s\<lparr>world := w, trace := trace s @ map Request rs\<rparr>" by blast
qed

lemma asks_call: "asks (call srv req)"
  unfolding asks_def
proof (intro allI impI)
  fix s a s' assume "call srv req s = Done a s'"
  then have "s' = s\<lparr>world := snd (srv req (world s)), trace := trace s @ map Request [req]\<rparr>"
    by (auto simp: call_def Let_def split: prod.splits)
  then show "\<exists>w rs. s' = s\<lparr>world := w, trace := trace s @ map Request rs\<rparr>" by blast
qed

lemma asks_panic: "asks (panic_with p)"
  by (simp add: asks_def panic_with_def)

lemmas asks_rules = asks_bind asks_pass asks_ask asks_call asks_panic

lemma asks_list_pods: "asks (list_pods env c)"
  by (simp add: list_pods_def asks_call)

lemma asks_podsInCluster: "asks (podsInCluster env c)"
  by (simp add: podsInCluster_def asks_rules asks_list_pods)

lemma asks_urlFor: "asks (urlFor env c)"
  unfolding urlFor_def podsWithIPAddresses_def
  by (intro asks_bind asks_list_pods asks_pass) (auto intro!: asks_rules split: sum.split)

lemma asks_send: "asks (sendRequestToJolokia env decode zero url)"
  by (simp add: sendRequestToJolokia_def asks_rules)

lemma asks_collect_mbeans: "asks (collect_mbeans env endpoint ms vs)"
  by (induction ms arbitrary: vs) (auto intro!: asks_rules asks_send split: sum.split)

lemma asks_collect_racks: "asks (collect_racks env endpoint ips racks)"
  by (induction ips arbitrary: racks) (auto intro!: asks_rules asks_send split: sum.split)

lemma asks_GatherMetricsFor: "asks (GatherMetricsFor env c)"
  unfolding GatherMetricsFor_def collectMbeanStatusValuesFor_def collectRackInfoFor_def
  by (auto intro!: asks_rules asks_urlFor asks_collect_mbeans asks_collect_racks split: sum.split)

lemma node_gauge_requests [simp]:
  "node_gauge (es @ map Request rs) ls = node_gauge es ls"
  by (simp add: node_gauge_append) (rule fold_node_write_untouched, auto simp: touches_def)

section \<open>Deleting\<close>

definition delete_effects :: "Cluster \<Rightarrow> (string, string) fmap option \<Rightarrow> string list \<Rightarrow> effect list" where
  "delete_effects c known pods =
     DeleteSizeGauge (size_labels c) #
       (case known of None \<Rightarrow> [] | Some nodes \<Rightarrow> concat (map (remove_effects c nodes) pods))"

lemma DeleteMetrics_eq:
  "DeleteMetrics env c s =
     (let known = fmlookup (topology s) (Cluster_QualifiedName c);
          (pods, w) = (case known of None \<Rightarrow> ([], world s)
             | Some nodes \<Rightarrow> range_keys env (sorted_list_of_fset (fmdom nodes)) (world s))
      in Done () (s\<lparr>world := w,
           topology := (if known = None then topology s
                        else fmdrop (Cluster_QualifiedName c) (topology s)),
           trace := trace s @ delete_effects c known pods\<rparr>))"
  by (simp add: DeleteMetrics_def Let_def seq_def bind_def perform_def modify_def gets_def pass_def
      range_order_eq remove_nodes_eq delete_effects_def split: option.split prod.split)

lemma DeleteMetrics_parts:
  assumes "range_ok env" and "DeleteMetrics env c s = Done () s'"
  shows "\<exists>pods. trace s' = trace s @
      delete_effects c (fmlookup (topology s) (Cluster_QualifiedName c)) pods \<and>
    (\<forall>nodes. fmlookup (topology s) (Cluster_QualifiedName c) = Some nodes \<longrightarrow>
       set pods = fset (fmdom nodes) \<and> distinct pods) \<and>
    topology s' = fmdrop (Cluster_QualifiedName c) (topology s)"
proof (cases "fmlookup (topology s) (Cluster_QualifiedName c)")
  case None
  then have "fmdrop (Cluster_QualifiedName c) (topology s) = topology s"
    by (metis fmdrop_idle' fmdom'_notI)
  with None assms(2) show ?thesis by (auto simp: DeleteMetrics_eq)
next
  case (Some nodes)
  with assms(2) range_order_keys [OF assms(1), of nodes "world s"] show ?thesis
    by (auto simp: DeleteMetrics_eq Let_def prod.case_eq_if)
qed

lemma fold_node_write_deleted:
  assumes "DeleteNodeGauge ls \<in> set es" and "\<forall>e \<in> set es. \<forall>x. e \<noteq> SetNodeGauge ls x"
  shows "fold (node_write ls) es v = None"
proof -
  from assms(1) obtain as bs where es: "es = as @ DeleteNodeGauge ls # bs" by (meson split_list)
  have "fold (node_write ls) bs None = None" if "\<forall>e \<in> set bs. \<forall>x. e \<noteq> SetNodeGauge ls x" for bs
    using that
  proof (induction bs)
    case (Cons e bs)
    then have "node_write ls e None = None" by (cases e) auto
    with Cons show ?case by simp
  qed simp
  with assms(2) show ?thesis by (simp add: es)
qed

lemma delete_effects_shape:
  "e \<in> set (delete_effects c known pods) \<Longrightarrow>
     e = DeleteSizeGauge (size_labels c) \<or>
     (\<exists>nodes pod rack l. known = Some nodes \<and> fmlookup nodes pod = Some rack \<and>
        l \<in> set allLabelPairs \<and> e = DeleteNodeGauge (node_labels c rack pod l))"
  by (auto simp: delete_effects_def remove_effects_def split: option.splits)

lemma delete_effects_deletes:
  "pod \<in> set pods \<Longrightarrow> fmlookup nodes pod = Some rack \<Longrightarrow> l \<in> set allLabelPairs \<Longrightarrow>
     DeleteNodeGauge (node_labels c rack pod l) \<in> set (delete_effects c (Some nodes) pods)"
  by (force simp: delete_effects_def remove_effects_def)

lemma delete_effects_size:
  "fold (size_write (size_labels c)) (delete_effects c known pods) v = None"
proof -
  have "fold (size_write ls) es None = None"
    if "\<forall>e \<in> set es. \<forall>ls x. e \<noteq> SetSizeGauge ls x" for es ls
    using that
  proof (induction es)
    case (Cons e es)
    then have "size_write ls e None = None" by (cases e) auto
    with Cons show ?case by simp
  qed simp
  moreover have "\<forall>e \<in> set (tl (delete_effects c known pods)). \<forall>ls x. e \<noteq> SetSizeGauge ls x"
    by (auto simp: delete_effects_def remove_effects_def split: option.splits)
  ultimately have "fold (size_write (size_labels c)) (tl (delete_effects c known pods)) None = None"
    by blast
  then show ?thesis by (simp add: delete_effects_def)
qed

section \<open>Properties\<close>


text \<open>
  Deleting the metrics of a cluster removes its size gauge and every gauge of the nodes of
  its last known topology, forgets the topology, and leaves the gauges of other clusters alone.
\<close>

theorem DeleteMetrics_clears:
  assumes "range_ok env" and "DeleteMetrics env c s = Done () s'"
  shows "size_gauge (trace s') (size_labels c) = None \<and>
    topology s' = fmdrop (Cluster_QualifiedName c) (topology s) \<and>
    (\<forall>nodes pod rack l. fmlookup (topology s) (Cluster_QualifiedName c) = Some nodes \<longrightarrow>
       fmlookup nodes pod = Some rack \<longrightarrow> l \<in> set allLabelPairs \<longrightarrow>
       node_gauge (trace s') (node_labels c rack pod l) = None) \<and>
    (\<forall>ls. take 2 ls \<noteq> size_labels c \<longrightarrow> node_gauge (trace s') ls = node_gauge (trace s) ls)"
proof -
  define known where "known = fmlookup (topology s) (Cluster_QualifiedName c)"
  obtain pods where tr: "trace s' = trace s @ delete_effects c known pods"
    and pods: "\<And>nodes. known = Some nodes \<Longrightarrow> set pods = fset (fmdom nodes)"
    and topo: "topology s' = fmdrop (Cluster_QualifiedName c) (topology s)"
    using DeleteMetrics_parts [OF assms] unfolding known_def by blast
  have "node_gauge (trace s') (node_labels c rack pod l) = None"
    if "known = Some nodes" "fmlookup nodes pod = Some rack" "l \<in> set allLabelPairs" for nodes pod rack l
  proof -
    have "pod \<in> set pods" using pods [OF that(1)] that(2) by (simp add: fmdomI)
    from delete_effects_deletes [OF this that(2,3)]
    have "DeleteNodeGauge (node_labels c rack pod l) \<in> set (delete_effects c known pods)"
      by (simp add: that(1))
    then show ?thesis
      unfolding tr node_gauge_append
      by (rule fold_node_write_deleted) (auto dest: delete_effects_shape)
  qed
  moreover have "node_gauge (trace s') ls = node_gauge (trace s) ls" if "take 2 ls \<noteq> size_labels c" for ls
    unfolding tr node_gauge_append
    by (rule fold_node_write_untouched)
      (use that in \<open>auto dest!: delete_effects_shape simp: touches_def node_labels_def size_labels_def\<close>)
  ultimately show ?thesis
    using topo by (auto simp: tr size_gauge_append delete_effects_size known_def)
qed

lemma report_untouched:
  assumes "range_ok env" and one: "one_pod_each podNames"
    and "report_status env c podNames cs s = Done () s'" and "pod \<notin> reported_pods cs podNames"
  shows "node_gauge (trace s') (node_labels c rack pod l) = node_gauge (trace s) (node_labels c rack pod l)"
proof -
  from assms(3) obtain ips k where tr: "trace s' = trace s @
      concat (map (node_effects c cs podNames (transformClusterStatus cs)) ips) @ [SetSizeGauge (size_labels c) k]"
    by (auto simp: report_status_eq Let_def prod.case_eq_if)
  have "\<not> touches (node_labels c rack pod l) e"
    if e: "e \<in> set (concat (map (node_effects c cs podNames (transformClusterStatus cs)) ips))" for e
  proof -
    from e obtain i where "e \<in> set (node_effects c cs podNames (transformClusterStatus cs) i)" by auto
    then have "\<exists>n q. fmlookup (transformClusterStatus cs) i = Some n \<and> fmlookup podNames i = Some q \<and>
        e \<in> set (status_effects c (rack_of_node cs i) q n)"
      by (cases "fmlookup (transformClusterStatus cs) i"; cases "fmlookup podNames i")
        (auto simp: node_effects_def)
    then obtain n q where q: "fmlookup (transformClusterStatus cs) i = Some n" "fmlookup podNames i = Some q"
      "e \<in> set (status_effects c (rack_of_node cs i) q n)" by blast
    have "i \<in> known_nodes cs" using q(1) statuses_known [of cs i] by simp
    with q(2) assms(4) have "pod \<noteq> q" by (auto simp: reported_pods_def)
    then show ?thesis using status_effects_other q(3) by metis
  qed
  then have "fold (node_write (node_labels c rack pod l))
      (concat (map (node_effects c cs podNames (transformClusterStatus cs)) ips)) v = v" for v
    by (rule fold_node_write_untouched)
  then show ?thesis by (simp add: tr node_gauge_append)
qed

text \<open>
  The gauges of a pod that has left the cluster between two collections are never removed:
  each collection replaces the topology, so deleting the cluster afterwards leaves the old pod's
  gauge at 1 for good.
\<close>

theorem gauges_of_departed_pods_leak:
  assumes "range_ok env" and "one_pod_each names1" and "one_pod_each names2"
    and "report_status env c names1 cs1 s0 = Done () s1"
    and "report_status env c names2 cs2 s1 = Done () s2"
    and "DeleteMetrics env c s2 = Done () s3"
    and "fmlookup (transformClusterStatus cs1) ip = Some n" and "fmlookup names1 ip = Some pod"
    and "pod \<notin> reported_pods cs2 names2"
  shows "node_gauge (trace s3) (node_labels c (rack_of_node cs1 ip) pod (applicable n)) = Some 1"
proof -
  let ?ls = "node_labels c (rack_of_node cs1 ip) pod (applicable n)"
  have "node_gauge (trace s1) ?ls = Some 1"
    using report_status_nodes [OF assms(1,2,4)] assms(7,8) applicable_in
    by (simp add: reports_nodes_def)
  then have 2: "node_gauge (trace s2) ?ls = Some 1"
    using report_untouched [OF assms(1,3,5,9)] by simp
  from report_status_topology [OF assms(1,3,5)] obtain nodes where
    nodes: "fmlookup (topology s2) (Cluster_QualifiedName c) = Some nodes"
      "fset (fmdom nodes) = reported_pods cs2 names2" by auto
  from DeleteMetrics_parts [OF assms(1,6)] obtain pods where
    tr: "trace s3 = trace s2 @ delete_effects c (Some nodes) pods" using nodes(1) by auto
  have "\<not> touches ?ls e" if "e \<in> set (delete_effects c (Some nodes) pods)" for e
  proof
    assume "touches ?ls e"
    with delete_effects_shape [OF that] obtain rack where "fmlookup nodes pod = Some rack"
      by (auto simp: touches_def)
    then have "pod \<in> fset (fmdom nodes)" by (simp add: fmdomI)
    with assms(9) nodes(2) show False by simp
  qed
  then have "fold (node_write ?ls) (delete_effects c (Some nodes) pods) (Some 1) = Some 1"
    by (rule fold_node_write_untouched)
  with 2 show ?thesis by (simp add: tr node_gauge_append)
qed

section \<open>No panic\<close>

text \<open>The contract of \<open>rand.Intn\<close>.\<close>

definition Intn_ok :: "'w Env \<Rightarrow> bool" where
  "Intn_ok env \<longleftrightarrow> (\<forall>n w. 0 < n \<longrightarrow> fst (Intn env n w) < n)"

definition returns :: "('a, 'w) action \<Rightarrow> bool" where
  "returns m \<longleftrightarrow> (\<forall>s. \<exists>a s'. m s = Done a s')"

lemma returns_bind: "returns m \<Longrightarrow> (\<And>a. returns (f a)) \<Longrightarrow> returns (bind m f)"
  unfolding returns_def bind_def by (metis outcome.case(1))

lemma returns_basic: "returns (pass a)" "returns (ask g)" "returns (call srv req)"
  by (auto simp: returns_def pass_def ask_def call_def Let_def split: prod.splits)

lemmas returns_rules = returns_bind returns_basic

lemma returns_urlFor:
  assumes "Intn_ok env"
  shows "returns (urlFor env c)"
proof -
  have ask: "returns (bind (ask (Intn env (length pods))) (\<lambda>i.
      if i < length pods then pass (f i) else panic_with IndexOutOfRange))"
    if "length pods \<noteq> 0" for pods :: "K8sPod list" and f :: "nat \<Rightarrow> string"
    using assms that by (auto simp: returns_def bind_def ask_def pass_def Let_def Intn_ok_def
        split: prod.splits) (metis fst_conv length_greater_0_conv)+
  show ?thesis
    unfolding urlFor_def podsWithIPAddresses_def list_pods_def
    by (intro returns_bind returns_basic) (auto intro!: returns_rules ask split: sum.split)
qed

lemma returns_collect_mbeans: "returns (collect_mbeans env endpoint ms vs)"
  by (induction ms arbitrary: vs)
    (auto intro!: returns_rules simp: sendRequestToJolokia_def split: sum.split)

lemma returns_collect_racks: "returns (collect_racks env endpoint ips racks)"
  by (induction ips arbitrary: racks)
    (auto intro!: returns_rules simp: sendRequestToJolokia_def split: sum.split)

lemma returns_UpdateMetrics: "Intn_ok env \<Longrightarrow> returns (UpdateMetrics env c)"
  unfolding UpdateMetrics_def podsInCluster_def list_pods_def GatherMetricsFor_def
    collectMbeanStatusValuesFor_def collectRackInfoFor_def
  by (auto intro!: returns_rules returns_urlFor returns_collect_mbeans returns_collect_racks split: sum.split)
    (simp add: returns_def report_status_eq Let_def prod.case_eq_if)

lemma returns_DeleteMetrics: "returns (DeleteMetrics env c)"
  by (auto simp: returns_def DeleteMetrics_eq Let_def split: prod.splits)

section \<open>Witnesses\<close>

text \<open>
  A Cassandra cluster of two nodes, both live and the second leaving; a third pod has no address.
  Its Jolokia agent echoes the address it was asked for.
\<close>

definition metrics_pods :: "K8sPod list" where
  "metrics_pods = [\<lparr>pod_Name = ''pod-0'', pod_IP = ''10.0.0.1''\<rparr>,
     \<lparr>pod_Name = ''pod-1'', pod_IP = ''10.0.0.2''\<rparr>, \<lparr>pod_Name = ''pod-2'', pod_IP = []\<rparr>]"

definition metrics_env :: "nat Env" where
  "metrics_env = sample_env
     \<lparr>api_pods := (\<lambda>r w. (Inr metrics_pods, w)),
      http_get := (\<lambda>r w. (case r of HttpGet url \<Rightarrow>
         (Inr \<lparr>hr_StatusCode = 200, hr_Body = Some url\<rparr>, w) | _ \<Rightarrow> (Inl [], w))),
      Unmarshal_multi := (\<lambda>b. Inr \<lparr>jk_Status = 200, jk_Value =
         (if HasSuffix b ''/LiveNodes'' then [''10.0.0.1'', ''10.0.0.2'']
          else if HasSuffix b ''/LeavingNodes'' then [''10.0.0.2''] else [])\<rparr>),
      Unmarshal_single := (\<lambda>b. Inr \<lparr>jk_Status = 200, jk_Value = ''a''\<rparr>)\<rparr>"

definition final_sys :: "(unit, 'w sys) outcome \<Rightarrow> 'w sys \<Rightarrow> 'w sys" where
  "final_sys r s = (case r of Done _ s' \<Rightarrow> s' | Panicked _ s' \<Rightarrow> s' | Hangs \<Rightarrow> s)"

lemma metrics_env_ok: "range_ok metrics_env" "pods_ok metrics_env" "Intn_ok metrics_env"
  by (simp_all add: range_ok_def pods_ok_def Intn_ok_def metrics_env_def sample_env_def
      metrics_pods_def)

lemma sample_env_ok: "range_ok sample_env" "pods_ok sample_env" "Intn_ok sample_env"
  by (simp_all add: range_ok_def pods_ok_def Intn_ok_def sample_env_def)

lemma final_sys_Done: "returns m \<Longrightarrow> m s = Done () (final_sys (m s) s)"
  by (auto simp: returns_def final_sys_def) (metis outcome.case(1))

definition metrics_sys :: "nat sys" where
  "metrics_sys = final_sys (UpdateMetrics metrics_env sample_cluster sample_sys) sample_sys"

lemma metrics_sys: "UpdateMetrics metrics_env sample_cluster sample_sys = Done () metrics_sys"
  unfolding metrics_sys_def
  by (rule final_sys_Done [OF returns_UpdateMetrics [OF metrics_env_ok(3)]])

lemma metrics_sys_topology:
  "topology metrics_sys \<noteq> topology sample_sys"
  by code_simp


definition deleted_sys :: "nat sys" where
  "deleted_sys = final_sys (DeleteMetrics metrics_env sample_cluster metrics_sys) metrics_sys"

lemma deleted_sys: "DeleteMetrics metrics_env sample_cluster metrics_sys = Done () deleted_sys"
  unfolding deleted_sys_def by (rule final_sys_Done [OF returns_DeleteMetrics])

lemma DeleteMetrics_clears_witness:
  "size_gauge (trace deleted_sys) (size_labels sample_cluster) = None \<and>
   fmlookup (topology deleted_sys) (Cluster_QualifiedName sample_cluster) = None"
  using DeleteMetrics_clears [OF metrics_env_ok(1) deleted_sys] by simp

definition live_only :: "string \<Rightarrow> clusterStatus" where
  "live_only ip = \<lparr>nodeRacks = fmempty, liveNodes = [ip], unreachableNodes = [], joiningNodes = [],
     leavingNodes = [], movingNodes = []\<rparr>"

definition one_name :: "string \<Rightarrow> string \<Rightarrow> (string, string) fmap" where
  "one_name ip pod = fmupd ip pod fmempty"

lemma returns_report_status: "returns (report_status env c podNames cs)"
  by (simp add: returns_def report_status_eq Let_def prod.case_eq_if)

lemma one_name_ok: "one_pod_each (one_name ip pod)"
  by (auto simp: one_pod_each_def one_name_def split: if_splits)

lemma gauges_of_departed_pods_leak_witness:
  "\<exists>s1 s2 s3.
     report_status sample_env sample_cluster (one_name ''1'' ''old'') (live_only ''1'') sample_sys = Done () s1 \<and>
     report_status sample_env sample_cluster (one_name ''2'' ''new'') (live_only ''2'') s1 = Done () s2 \<and>
     DeleteMetrics sample_env sample_cluster s2 = Done () s3 \<and>
     node_gauge (trace s3) [''mycluster'', ''mynamespace'', ''unknown'', ''old'', ''up'', ''normal''] = Some 1"
proof -
  obtain s1 where s1: "report_status sample_env sample_cluster (one_name ''1'' ''old'') (live_only ''1'')
      sample_sys = Done () s1"
    using returns_report_status unfolding returns_def by force
  obtain s2 where s2: "report_status sample_env sample_cluster (one_name ''2'' ''new'') (live_only ''2'')
      s1 = Done () s2"
    using returns_report_status unfolding returns_def by force
  obtain s3 where s3: "DeleteMetrics sample_env sample_cluster s2 = Done () s3"
    using returns_DeleteMetrics unfolding returns_def by force
  let ?n = "\<lparr>ns_up = True, ns_down = False, ns_joining = False, ns_leaving = False, ns_moving = False\<rparr>"
  have n: "fmlookup (transformClusterStatus (live_only ''1'')) ''1'' = Some ?n"
    by (simp add: transformClusterStatus_def live_only_def fmlookup_mark status_at_def
        zero_nodeStatus_def set_defs)
  have "''old'' \<notin> reported_pods (live_only ''2'') (one_name ''2'' ''new'')"
    by (auto simp: reported_pods_def one_name_def)
  from gauges_of_departed_pods_leak [OF sample_env_ok(1) one_name_ok one_name_ok s1 s2 s3 n _ this]
  have "node_gauge (trace s3) (node_labels sample_cluster (rack_of_node (live_only ''1'') ''1'') ''old''
      (applicable ?n)) = Some 1"
    by (simp add: one_name_def)
  moreover have "node_labels sample_cluster (rack_of_node (live_only ''1'') ''1'') ''old'' (applicable ?n) =
      [''mycluster'', ''mynamespace'', ''unknown'', ''old'', ''up'', ''normal'']"
    by code_simp
  ultimately show ?thesis using s1 s2 s3 by metis
qed

end
