(* ===== verification/Operations.thy ===== *)
theory Operations
  imports Metrics
begin

text \<open>
  The operations the operator runs in answer to its events, after the files of
  \<^verbatim>\<open>cassandra-operator/pkg/operator/operations/\<close>: one definition per \<open>Execute\<close> method, built from
  the accessor of stateful sets, the adjuster and the metrics reporter. Logging is left out.
\<close>

section \<open>Memory\<close>

text \<open>
  The structs of the operations: a pointer to a definition or a cluster is its index in the heap.
  \<open>newSnapshot\<close> points into the new definition, which is what the model keeps: the pointer is
  followed when the operation runs.
\<close>

record ClusterUpdate =
  OldCluster :: ref
  NewCluster :: ref

datatype operation =
    AddClusterOperation ref
  | DeleteClusterOperation ref
  | UpdateClusterOperation ref ClusterUpdate
  | AddSnapshotOperation ref
  | AddSnapshotCleanupOperation ref
  | DeleteSnapshotOperation ref
  | DeleteSnapshotCleanupOperation ref
  | UpdateSnapshotOperation ref ref
  | UpdateSnapshotCleanupOperation ref ref
  | GatherMetricsOperation ref
  | AddCustomConfigOperation ref ConfigMap
  | UpdateCustomConfigOperation ref ConfigMap
  | DeleteCustomConfigOperation ref ConfigMap

definition read_cassandra :: "ref \<Rightarrow> (Cassandra, 'w) action" where
  "read_cassandra r = bind (gets (\<lambda>s. cassandra_heap s r)) deref"

definition read_cluster :: "ref \<Rightarrow> (Cluster, 'w) action" where
  "read_cluster r = bind (gets (\<lambda>s. cluster_heap s r)) deref"

definition write_cassandra :: "ref \<Rightarrow> Cassandra \<Rightarrow> (unit, 'w) action" where
  "write_cassandra r d = modify (\<lambda>s. s\<lparr>cassandra_heap := (cassandra_heap s)(r \<mapsto> d)\<rparr>)"

definition write_cluster :: "ref \<Rightarrow> Cluster \<Rightarrow> (unit, 'w) action" where
  "write_cluster r c = modify (\<lambda>s. s\<lparr>cluster_heap := (cluster_heap s)(r \<mapsto> c)\<rparr>)"

definition set_online :: "ref \<Rightarrow> bool \<Rightarrow> (unit, 'w) action" where
  "set_online r b = modify (\<lambda>s. s\<lparr>cluster_heap :=
     (cluster_heap s)(r := map_option (\<lambda>c. c\<lparr>Online := b\<rparr>) (cluster_heap s r))\<rparr>)"

definition alloc_cluster :: "Cluster \<Rightarrow> (ref, 'w) action" where
  "alloc_cluster c s =
     Done (next_cluster s)
       (s\<lparr>cluster_heap := (cluster_heap s)(next_cluster s \<mapsto> c), next_cluster := Suc (next_cluster s)\<rparr>)"

text \<open>\<open>cluster.New\<close> on a shared definition: its defaults are written back.\<close>

definition new_cluster :: "'w Env \<Rightarrow> ref \<Rightarrow> (cluster_error + Cluster, 'w) action" where
  "new_cluster env r =
     bind (read_cassandra r) (\<lambda>d.
       (case New (cron_ok env) d of (result, d') \<Rightarrow>
          seq (write_cassandra r d') (pass result)))"

definition copy_into :: "'w Env \<Rightarrow> ref \<Rightarrow> ref \<Rightarrow> (cluster_error option, 'w) action" where
  "copy_into env c_ref r =
     bind (read_cluster c_ref) (\<lambda>c.
     bind (read_cassandra r) (\<lambda>d.
       (case CopyInto (cron_ok env) c d of (err, c', d') \<Rightarrow>
          seq (write_cassandra r d') (seq (write_cluster c_ref c') (pass err)))))"

section \<open>Stateful sets\<close>

definition registerStatefulSet ::
    "'w Env \<Rightarrow> Cluster \<Rightarrow> Rack \<Rightarrow> ConfigMap option \<Rightarrow> (rack_error option, 'w) action" where
  "registerStatefulSet env c rack customConfigMap =
     bind (CreateStatefulSetForRack env c rack customConfigMap) (\<lambda>r.
       case r of
         Inl err \<Rightarrow> pass (Some (CreateFailed (Rack_Name rack) err))
       | Inr sts \<Rightarrow> bind (WaitUntilRackChangeApplied env c sts) (\<lambda>_. pass None))"

definition registerStatefulSets ::
    "'w Env \<Rightarrow> Cluster \<Rightarrow> ConfigMap option \<Rightarrow> (rack_error option, 'w) action" where
  "registerStatefulSets env c configMap =
     for_each (Cluster_Racks c) (\<lambda>rack. registerStatefulSet env c rack configMap)"

definition updateStatefulSet ::
    "'w Env \<Rightarrow> Cluster \<Rightarrow> ConfigMap \<Rightarrow> Rack \<Rightarrow> (StatefulSet \<Rightarrow> ConfigMap \<Rightarrow> StatefulSet) \<Rightarrow>
     (rack_error option, 'w) action" where
  "updateStatefulSet env c customConfigMap rack action =
     bind (GetStatefulSetForRack env c rack) (\<lambda>r.
       case r of
         Inl err \<Rightarrow> pass (Some (RetrieveFailed (Rack_Name rack) err))
       | Inr sts \<Rightarrow>
           bind (UpdateStatefulSet env c (action sts customConfigMap)) (\<lambda>r.
             case r of
               Inl err \<Rightarrow> pass (Some (UpdateFailed (Rack_Name rack) err))
             | Inr updated \<Rightarrow> WaitUntilRackChangeApplied env c updated))"

definition patchStatefulSet ::
    "'w Env \<Rightarrow> Cluster \<Rightarrow> ClusterChange \<Rightarrow> (rack_error option, 'w) action" where
  "patchStatefulSet env c clusterChange =
     bind (PatchStatefulSet env c (Change_Rack clusterChange) (Patch clusterChange)) (\<lambda>r.
       case r of
         Inl err \<Rightarrow> pass (Some (UpdateFailed (Rack_Name (Change_Rack clusterChange)) err))
       | Inr updated \<Rightarrow> WaitUntilRackChangeApplied env c updated)"

section \<open>Clusters\<close>

definition create_resources ::
    "'w Env \<Rightarrow> Cluster \<Rightarrow> ConfigMap option \<Rightarrow> (bool, 'w) action" where
  "create_resources env c configMap =
     bind (CreateServiceForCluster env c) (\<lambda>r.
       case r of
         Inl err \<Rightarrow> pass False
       | Inr _ \<Rightarrow> bind (registerStatefulSets env c configMap) (\<lambda>err. pass (err = None)))"

definition AddCluster_Execute :: "'w Env \<Rightarrow> ref \<Rightarrow> (unit, 'w) action" where
  "AddCluster_Execute env clusterDefinition =
     bind (read_cassandra clusterDefinition) (\<lambda>d.
     bind (FindCustomConfigMap env (Namespace d) (Name d)) (\<lambda>configMap.
     bind (new_cluster env clusterDefinition) (\<lambda>r.
       case r of
         Inl err \<Rightarrow> pass ()
       | Inr c \<Rightarrow>
           bind (alloc_cluster c) (\<lambda>c_ref.
           seq (modify (\<lambda>s. s\<lparr>clusters := fmupd (Cluster_QualifiedName c) c_ref (clusters s)\<rparr>))
          (bind (FindExistingResourcesFor env c) (\<lambda>foundResources.
           bind (if length foundResources > 0 then pass True
                 else create_resources env c configMap) (\<lambda>go_online.
             if go_online then set_online c_ref True else pass ())))))))"

definition DeleteCluster_Execute :: "'w Env \<Rightarrow> ref \<Rightarrow> (unit, 'w) action" where
  "DeleteCluster_Execute env clusterDefinition =
     bind (read_cassandra clusterDefinition) (\<lambda>d.
     bind (gets (\<lambda>s. fmlookup (clusters s) (Namespace d @ ''.'' @ Name d))) (\<lambda>found.
       case found of
         None \<Rightarrow> pass ()
       | Some c_ref \<Rightarrow>
           bind (read_cluster c_ref) (\<lambda>c.
           seq (modify (\<lambda>s. s\<lparr>clusters := fmdrop (Cluster_QualifiedName c) (clusters s)\<rparr>))
          (seq (set_online c_ref False)
          (seq (DeleteMetrics env c)
          (bind (DeleteStatefulSetsForCluster env c) (\<lambda>_.
           bind (DeleteServiceForCluster env c) (\<lambda>_. pass ()))))))))"

fun change_type_string :: "ClusterChangeType \<Rightarrow> string" where
  "change_type_string deleteRack = ''delete rack''"
| "change_type_string AddRack = ''add rack''"
| "change_type_string UpdateRack = ''update rack''"
| "change_type_string scaleDownRack = ''scale down rack''"

definition apply_change ::
    "'w Env \<Rightarrow> Cluster \<Rightarrow> Cassandra \<Rightarrow> ClusterChange \<Rightarrow> (rack_error option, 'w) action" where
  "apply_change env c oldCluster clusterChange =
     (case ChangeType clusterChange of
        UpdateRack \<Rightarrow> patchStatefulSet env c clusterChange
      | AddRack \<Rightarrow>
          bind (FindCustomConfigMap env (Cluster_Namespace c) (Cluster_Name c))
            (\<lambda>customConfigMap. registerStatefulSet env c (Change_Rack clusterChange) customConfigMap)
      | t \<Rightarrow>
          seq (Eventf oldCluster EventTypeWarning InvalidChangeEvent
                (''Change type '' @ squoted (change_type_string t) @
                 '' isn'' @ [CHR 0x27] @ ''t supported for cluster '' @ Cluster_QualifiedName c))
            (pass None))"

definition UpdateCluster_Execute :: "'w Env \<Rightarrow> ref \<Rightarrow> ClusterUpdate \<Rightarrow> (unit, 'w) action" where
  "UpdateCluster_Execute env c_ref update =
     bind (copy_into env c_ref (NewCluster update)) (\<lambda>err.
       if err \<noteq> None then pass ()
       else
         bind (read_cluster c_ref) (\<lambda>c.
         bind (read_cassandra (OldCluster update)) (\<lambda>oldCluster.
         bind (read_cassandra (NewCluster update)) (\<lambda>newCluster.
           case ChangesForCluster (Spec oldCluster) (Spec newCluster) of
             Inl err \<Rightarrow>
               Eventf oldCluster EventTypeWarning InvalidChangeEvent
                 (''unable to generate patch for cluster '' @ Namespace newCluster @ ''.'' @
                  Name newCluster @ '': '' @ adjust_message err)
           | Inr clusterChanges \<Rightarrow>
               bind (for_each clusterChanges (apply_change env c oldCluster)) (\<lambda>_. pass ())))))"

section \<open>Snapshots\<close>

definition AddSnapshot_Execute :: "'w Env \<Rightarrow> ref \<Rightarrow> (unit, 'w) action" where
  "AddSnapshot_Execute env clusterDefinition =
     bind (new_cluster env clusterDefinition) (\<lambda>r.
       case r of
         Inl err \<Rightarrow> pass ()
       | Inr c \<Rightarrow>
           bind (CreateCronJobForCluster env c (CreateSnapshotJob c)) (\<lambda>r.
             case r of
               Inl err \<Rightarrow> pass ()
             | Inr _ \<Rightarrow>
                 Eventf (cdef c) EventTypeNormal ClusterSnapshotCreationScheduleEvent
                   (''Snapshot creation scheduled for cluster '' @ Cluster_QualifiedName c)))"

definition AddSnapshotCleanup_Execute :: "'w Env \<Rightarrow> ref \<Rightarrow> (unit, 'w) action" where
  "AddSnapshotCleanup_Execute env clusterDefinition =
     bind (new_cluster env clusterDefinition) (\<lambda>r.
       case r of
         Inl err \<Rightarrow> pass ()
       | Inr c \<Rightarrow>
           bind (CreateCronJobForCluster env c (CreateSnapshotCleanupJob c)) (\<lambda>r.
             case r of
               Inl err \<Rightarrow> pass ()
             | Inr _ \<Rightarrow>
                 Eventf (cdef c) EventTypeNormal ClusterSnapshotCleanupScheduleEvent
                   (''Snapshot cleanup scheduled for cluster '' @ Cluster_QualifiedName c)))"

text \<open>The job that a search found: an error of the search counts as no job.\<close>

definition found_job :: "accessor_error + CronJob option \<Rightarrow> CronJob option" where
  "found_job r = (case r of Inl err \<Rightarrow> None | Inr job \<Rightarrow> job)"

text \<open>\<open>Containers[0] = container\<close>, which panics on a job without containers.\<close>

definition set_first_container :: "Container \<Rightarrow> CronJob \<Rightarrow> (CronJob, 'w) action" where
  "set_first_container ct job =
     (case ps_Containers (pt_Spec (cj_Template job)) of
        [] \<Rightarrow> panic_with IndexOutOfRange
      | _ # rest \<Rightarrow> pass (job\<lparr>cj_Template := (cj_Template job)
          \<lparr>pt_Spec := (pt_Spec (cj_Template job))\<lparr>ps_Containers := ct # rest\<rparr>\<rparr>\<rparr>))"

definition read_snapshot :: "ref \<Rightarrow> (Snapshot, 'w) action" where
  "read_snapshot r = bind (read_cassandra r) (\<lambda>d. deref (Spec_Snapshot (Spec d)))"

definition updateSnapshotJob :: "'w Env \<Rightarrow> Cluster \<Rightarrow> ref \<Rightarrow> CronJob \<Rightarrow> (unit, 'w) action" where
  "updateSnapshotJob env c newSnapshot snapshotJob =
     bind (read_snapshot newSnapshot) (\<lambda>snapshot.
     bind (set_first_container (CreateSnapshotContainer c snapshot)
             (snapshotJob\<lparr>cj_Schedule := Schedule snapshot\<rparr>)) (\<lambda>job.
     bind (UpdateCronJob env job) (\<lambda>r.
       case r of
         Inl err \<Rightarrow> pass ()
       | Inr _ \<Rightarrow>
           Eventf (cdef c) EventTypeNormal ClusterSnapshotCreationModificationEvent
             (''Snapshot creation modified for cluster '' @ Cluster_QualifiedName c))))"

definition UpdateSnapshot_Execute :: "'w Env \<Rightarrow> ref \<Rightarrow> ref \<Rightarrow> (unit, 'w) action" where
  "UpdateSnapshot_Execute env c_ref newSnapshot =
     bind (read_cluster c_ref) (\<lambda>c.
     bind (FindCronJobForCluster env (cdef c) (''app='' @ SnapshotJobName (cdef c))) (\<lambda>r.
       case found_job r of
         None \<Rightarrow> pass ()
       | Some job \<Rightarrow> updateSnapshotJob env c newSnapshot job))"

definition updateSnapshotCleanupJob :: "'w Env \<Rightarrow> Cluster \<Rightarrow> ref \<Rightarrow> CronJob \<Rightarrow> (unit, 'w) action" where
  "updateSnapshotCleanupJob env c newSnapshot job =
     bind (read_snapshot newSnapshot) (\<lambda>snapshot.
     bind (deref (Snapshot_RetentionPolicy snapshot)) (\<lambda>retentionPolicy.
     bind (eval (CreateSnapshotCleanupContainer c snapshot)) (\<lambda>container.
     bind (set_first_container container (job\<lparr>cj_Schedule := CleanupSchedule retentionPolicy\<rparr>)) (\<lambda>job.
     bind (UpdateCronJob env job) (\<lambda>r.
       case r of
         Inl err \<Rightarrow> pass ()
       | Inr _ \<Rightarrow>
           Eventf (cdef c) EventTypeNormal ClusterSnapshotCleanupModificationEvent
             (''Snapshot cleanup modified for cluster '' @ Cluster_QualifiedName c))))))"

definition UpdateSnapshotCleanup_Execute :: "'w Env \<Rightarrow> ref \<Rightarrow> ref \<Rightarrow> (unit, 'w) action" where
  "UpdateSnapshotCleanup_Execute env c_ref newSnapshot =
     bind (read_cluster c_ref) (\<lambda>c.
     bind (FindCronJobForCluster env (cdef c) (''app='' @ SnapshotCleanupJobName (cdef c))) (\<lambda>r.
       case found_job r of
         None \<Rightarrow> pass ()
       | Some job \<Rightarrow> updateSnapshotCleanupJob env c newSnapshot job))"

definition DeleteSnapshot_Execute :: "'w Env \<Rightarrow> ref \<Rightarrow> (unit, 'w) action" where
  "DeleteSnapshot_Execute env cassandra =
     bind (read_cassandra cassandra) (\<lambda>d.
     bind (FindCronJobForCluster env d (''app='' @ SnapshotJobName d)) (\<lambda>r.
       case found_job r of
         None \<Rightarrow> pass ()
       | Some job \<Rightarrow>
           bind (DeleteCronJob env job) (\<lambda>_.
             Eventf d EventTypeNormal ClusterSnapshotCreationUnscheduleEvent
               (''Snapshot creation unscheduled for cluster '' @ QualifiedName d))))"

definition DeleteSnapshotCleanup_Execute :: "'w Env \<Rightarrow> ref \<Rightarrow> (unit, 'w) action" where
  "DeleteSnapshotCleanup_Execute env cassandra =
     bind (read_cassandra cassandra) (\<lambda>d.
     bind (FindCronJobForCluster env d (''app='' @ SnapshotCleanupJobName d)) (\<lambda>r.
       case found_job r of
         None \<Rightarrow> pass ()
       | Some job \<Rightarrow>
           bind (DeleteCronJob env job) (\<lambda>_.
             Eventf d EventTypeNormal ClusterSnapshotCleanupUnscheduleEvent
               (''Snapshot cleanup unscheduled for cluster '' @ QualifiedName d))))"

section \<open>Metrics and custom configuration\<close>

definition GatherMetrics_Execute :: "'w Env \<Rightarrow> ref \<Rightarrow> (unit, 'w) action" where
  "GatherMetrics_Execute env c_ref = bind (read_cluster c_ref) (UpdateMetrics env)"

definition AddCustomConfig_Execute :: "'w Env \<Rightarrow> ref \<Rightarrow> ConfigMap \<Rightarrow> (unit, 'w) action" where
  "AddCustomConfig_Execute env c_ref configMap =
     bind (read_cluster c_ref) (\<lambda>c.
     seq (Eventf (cdef c) EventTypeNormal ClusterUpdateEvent
           (''Custom config created for cluster '' @ QualifiedName (cdef c)))
    (bind (for_each (Cluster_Racks c) (\<lambda>rack.
        updateStatefulSet env c configMap rack (AddCustomConfigVolumeToStatefulSet c))) (\<lambda>_.
     pass ())))"

definition UpdateCustomConfig_Execute :: "'w Env \<Rightarrow> ref \<Rightarrow> ConfigMap \<Rightarrow> (unit, 'w) action" where
  "UpdateCustomConfig_Execute env c_ref configMap =
     bind (read_cluster c_ref) (\<lambda>c.
     seq (Eventf (cdef c) EventTypeNormal ClusterUpdateEvent
           (''Custom config updated for cluster '' @ Cluster_QualifiedName c))
    (bind (for_each (Cluster_Racks c) (\<lambda>rack.
        patchStatefulSet env c (CreateConfigMapHashPatchForRack rack configMap))) (\<lambda>_.
     pass ())))"

definition DeleteCustomConfig_Execute :: "'w Env \<Rightarrow> ref \<Rightarrow> ConfigMap \<Rightarrow> (unit, 'w) action" where
  "DeleteCustomConfig_Execute env c_ref configMap =
     bind (read_cluster c_ref) (\<lambda>c.
     seq (Eventf (cdef c) EventTypeNormal ClusterUpdateEvent
           (''Custom config deleted for cluster '' @ Cluster_QualifiedName c))
    (bind (for_each (Cluster_Racks c) (\<lambda>rack.
        updateStatefulSet env c configMap rack (RemoveCustomConfigVolumeFromStatefulSet c))) (\<lambda>_.
     pass ())))"

section \<open>All operations\<close>

fun Execute_operation :: "'w Env \<Rightarrow> operation \<Rightarrow> (unit, 'w) action" where
  "Execute_operation env (AddClusterOperation d) = AddCluster_Execute env d"
| "Execute_operation env (DeleteClusterOperation d) = DeleteCluster_Execute env d"
| "Execute_operation env (UpdateClusterOperation c u) = UpdateCluster_Execute env c u"
| "Execute_operation env (AddSnapshotOperation d) = AddSnapshot_Execute env d"
| "Execute_operation env (AddSnapshotCleanupOperation d) = AddSnapshotCleanup_Execute env d"
| "Execute_operation env (DeleteSnapshotOperation d) = DeleteSnapshot_Execute env d"
| "Execute_operation env (DeleteSnapshotCleanupOperation d) = DeleteSnapshotCleanup_Execute env d"
| "Execute_operation env (UpdateSnapshotOperation c n) = UpdateSnapshot_Execute env c n"
| "Execute_operation env (UpdateSnapshotCleanupOperation c n) = UpdateSnapshotCleanup_Execute env c n"
| "Execute_operation env (GatherMetricsOperation c) = GatherMetrics_Execute env c"
| "Execute_operation env (AddCustomConfigOperation c m) = AddCustomConfig_Execute env c m"
| "Execute_operation env (UpdateCustomConfigOperation c m) = UpdateCustomConfig_Execute env c m"
| "Execute_operation env (DeleteCustomConfigOperation c m) = DeleteCustomConfig_Execute env c m"

end
