(* ===== verification/OperationsCorrect.thy ===== *)
theory OperationsCorrect
  imports Operations
begin

text \<open>
  What the operations promise. Most of their code only talks to the outside; \<open>does m Q\<close> states
  of such an action that it never panics, leaves the operator's memory alone, and adds effects
  that \<open>Q\<close> relates to its result. The operations themselves are then a few memory writes
  around such actions.
\<close>

section \<open>Actions that leave the memory alone\<close>

definition does :: "('a, 'w) action \<Rightarrow> ('a \<Rightarrow> effect list \<Rightarrow> bool) \<Rightarrow> bool" where
  "does m Q \<longleftrightarrow> (\<forall>s. case m s of
     Done a s' \<Rightarrow> onward s s' \<and> (\<exists>es. trace s' = trace s @ es \<and> Q a es)
   | Panicked p s' \<Rightarrow> False
   | Hangs \<Rightarrow> True)"

lemma doesD:
  "does m Q \<Longrightarrow> m s = Done a s' \<Longrightarrow> onward s s' \<and> (\<exists>es. trace s' = trace s @ es \<and> Q a es)"
  unfolding does_def by (drule spec [of _ s]) simp

lemma does_no_panic: "does m Q \<Longrightarrow> m s \<noteq> Panicked p s'"
  unfolding does_def by (drule spec [of _ s]) auto

lemma doesI:
  assumes "\<And>s a s'. m s = Done a s' \<Longrightarrow> onward s s' \<and> (\<exists>es. trace s' = trace s @ es \<and> Q a es)"
    and "\<And>s p s'. m s \<noteq> Panicked p s'"
  shows "does m Q"
  unfolding does_def
proof
  fix s
  show "case m s of Done a s' \<Rightarrow> onward s s' \<and> (\<exists>es. trace s' = trace s @ es \<and> Q a es)
      | Panicked p s' \<Rightarrow> False | Hangs \<Rightarrow> True"
    using assms [of s] by (cases "m s") auto
qed

lemma does_weaken: "does m R \<Longrightarrow> (\<And>a es. R a es \<Longrightarrow> Q a es) \<Longrightarrow> does m Q"
  by (rule doesI) (blast dest: doesD, blast dest: does_no_panic)

lemma does_bind:
  assumes "does m R" and "\<And>a es. R a es \<Longrightarrow> does (f a) (\<lambda>b fs. Q b (es @ fs))"
  shows "does (bind m f) Q"
proof (rule doesI)
  fix s b s'' assume "bind m f s = Done b s''"
  then obtain a s' where 1: "m s = Done a s'" and 2: "f a s' = Done b s''"
    by (auto simp: bind_def split: outcome.splits)
  from doesD [OF assms(1) 1] obtain es where es: "onward s s'" "trace s' = trace s @ es" "R a es" by blast
  from doesD [OF assms(2) [OF es(3)] 2] obtain fs where
    fs: "onward s' s''" "trace s'' = trace s' @ fs" "Q b (es @ fs)" by blast
  have "trace s'' = trace s @ (es @ fs)" using es fs by simp
  with fs(3) onward_trans [OF es(1) fs(1)]
  show "onward s s'' \<and> (\<exists>es. trace s'' = trace s @ es \<and> Q b es)" by blast
next
  fix s p s'
  show "bind m f s \<noteq> Panicked p s'"
  proof (cases "m s")
    case (Done a t)
    then obtain es where "R a es" using doesD [OF assms(1)] by blast
    with Done show ?thesis using does_no_panic [OF assms(2)] by (simp add: bind_def)
  next
    case (Panicked q t)
    then show ?thesis using does_no_panic [OF assms(1)] by blast
  qed (simp add: bind_def)
qed

lemma does_seq:
  "does m R \<Longrightarrow> (\<And>es. R () es \<Longrightarrow> does n (\<lambda>b fs. Q b (es @ fs))) \<Longrightarrow> does (seq m n) Q"
  unfolding seq_def by (rule does_bind, assumption) simp

lemma does_pass: "Q a [] \<Longrightarrow> does (pass a) Q"
  by (rule doesI) (auto simp: pass_def)

lemma does_perform: "Q () [e] \<Longrightarrow> does (perform e) Q"
  by (rule doesI) (auto simp: perform_def modify_def onward_def)

lemma does_Eventf: "Q () [Event (QualifiedName d) ty reason msg] \<Longrightarrow> does (Eventf d ty reason msg) Q"
  by (simp add: Eventf_def does_perform)

lemma does_call: "(\<And>r w. Q (fst (srv req w)) [Request req]) \<Longrightarrow> does (call srv req) Q"
  by (rule doesI) (auto simp: call_def Let_def onward_def split: prod.splits, metis fst_conv)

lemma does_eval: "v = Inr a \<Longrightarrow> Q a [] \<Longrightarrow> does (eval v) Q"
  by (simp add: eval_def does_pass)

lemma does_deref: "v = Some a \<Longrightarrow> Q a [] \<Longrightarrow> does (deref v) Q"
  by (simp add: deref_def does_pass)

lemma does_Sleep: "Q () [Slept d] \<Longrightarrow> does (Sleep env d) Q"
  by (rule doesI) (auto simp: Sleep_def onward_def)

text \<open>
  A loop: \<open>B x r es\<close> holds of every round that runs; the rounds before the last gave \<open>None\<close>.
\<close>

lemma does_for_each:
  assumes "\<And>x. x \<in> set xs \<Longrightarrow> does (body x) (B x)"
    and "Q [] None []"
    and "\<And>x xs r es. B x r es \<Longrightarrow> r \<noteq> None \<Longrightarrow> Q (x # xs) r es"
    and "\<And>x xs es q fs. B x None es \<Longrightarrow> Q xs q fs \<Longrightarrow> Q (x # xs) q (es @ fs)"
  shows "does (for_each xs body) (Q xs)"
  using assms(1)
proof (induction xs)
  case Nil
  then show ?case using assms(2) by (simp add: does_pass)
next
  case (Cons x xs)
  have ih: "does (for_each xs body) (Q xs)" using Cons by simp
  show ?case
    unfolding for_each.simps
  proof (rule does_bind [OF Cons.prems [OF list.set_intros(1)]])
    fix r es assume B: "B x r es"
    show "does (case r of None \<Rightarrow> for_each xs body | Some e \<Rightarrow> pass (Some e)) (\<lambda>q fs. Q (x # xs) q (es @ fs))"
    proof (cases r)
      case None
      with B show ?thesis using does_weaken [OF ih assms(4)] by simp
    next
      case (Some e)
      with assms(3) [OF B] show ?thesis by (simp add: does_pass)
    qed
  qed
qed

section \<open>Writes and rolling changes\<close>

text \<open>The requests that change the outside world, with the names they concern.\<close>

datatype api_write =
    ServiceCreated string string
  | Created string string
  | Patched string string string
  | Updated string string
  | Other request

fun write_of :: "effect \<Rightarrow> api_write list" where
  "write_of (Request (CreateServiceReq ns svc)) = [ServiceCreated ns (om_Name (svc_Meta svc))]"
| "write_of (Request (CreateStatefulSet ns sts)) = [Created ns (om_Name (sts_Meta sts))]"
| "write_of (Request (PatchStatefulSetReq ns n patch)) = [Patched ns n patch]"
| "write_of (Request (UpdateStatefulSetReq ns sts)) = [Updated ns (om_Name (sts_Meta sts))]"
| "write_of (Request (GetConfigMap ns n)) = []"
| "write_of (Request (ListServices ns l)) = []"
| "write_of (Request (ListStatefulSets ns l)) = []"
| "write_of (Request (ListPods ns l)) = []"
| "write_of (Request (GetStatefulSet ns n)) = []"
| "write_of (Request (ListCronJobs ns l)) = []"
| "write_of (Request (HttpGet url)) = []"
| "write_of (Request req) = [Other req]"
| "write_of e = []"

definition writes :: "effect list \<Rightarrow> api_write list" where
  "writes es = concat (map write_of es)"

lemma writes_simps [simp]: "writes [] = []" "writes (e # es) = write_of e @ writes es"
  "writes (es @ fs) = writes es @ writes fs"
  by (simp_all add: writes_def)

text \<open>
  A watch over the effects: it remembers whether a patched or replaced stateful set is still to be
  seen applied, and fails (with \<open>None\<close>) when another stateful set is written meanwhile.
\<close>

fun roll_step :: "effect \<Rightarrow> bool option \<Rightarrow> bool option" where
  "roll_step e None = None"
| "roll_step (Applied ns n) (Some p) = Some False"
| "roll_step (Request (PatchStatefulSetReq ns n patch)) (Some p) = (if p then None else Some True)"
| "roll_step (Request (UpdateStatefulSetReq ns sts)) (Some p) = (if p then None else Some True)"
| "roll_step (Request (CreateStatefulSet ns sts)) (Some p) = (if p then None else Some False)"
| "roll_step e (Some p) = Some p"

definition roll :: "effect list \<Rightarrow> bool option \<Rightarrow> bool option" where
  "roll es = fold roll_step es"

lemma roll_simps [simp]: "roll [] x = x" "roll (e # es) x = roll es (roll_step e x)"
  "roll (es @ fs) x = roll fs (roll es x)"
  by (simp_all add: roll_def)

definition neutral :: "effect \<Rightarrow> bool" where
  "neutral e \<longleftrightarrow> write_of e = [] \<and> (\<forall>p. roll_step e (Some p) = Some p)"

lemma neutral_simps [simp]:
  "neutral (Event o' ty reason msg)" "neutral (Slept d)" "neutral (Request (GetStatefulSet ns n))"
  "neutral (Request (GetConfigMap ns n))" "neutral (Request (ListServices ns l))"
  "neutral (Request (ListStatefulSets ns l))" "neutral (Request (ListPods ns l))"
  "neutral (Request (ListCronJobs ns l))" "neutral (Request (HttpGet url))"
  by (simp_all add: neutral_def)

lemma neutral_list [simp]:
  "list_all neutral es \<Longrightarrow> writes es = []" "list_all neutral es \<Longrightarrow> roll es (Some p) = Some p"
  by (induction es) (auto simp: neutral_def)

section \<open>The outside\<close>

text \<open>
  What the operator relies on: the poll and the loops over maps keep their contracts, the API
  server sets the replica count of a stateful set and never stores a job without a container,
  and pods of a namespace have distinct names.
\<close>

definition env_ok :: "'w Env \<Rightarrow> bool" where
  "env_ok env \<longleftrightarrow> poll_ok env \<and> range_ok env \<and> Intn_ok env \<and> pods_ok env \<and>
     (\<forall>req w sts. fst (api_stateful_set env req w) = Inr sts \<longrightarrow> sts_Replicas sts \<noteq> None) \<and>
     (\<forall>req w jobs job. fst (api_cron_jobs env req w) = Inr jobs \<longrightarrow> job \<in> set jobs \<longrightarrow>
        ps_Containers (pt_Spec (cj_Template job)) \<noteq> [])"

lemma env_okD:
  assumes "env_ok env"
  shows "poll_ok env" "range_ok env" "Intn_ok env" "pods_ok env"
    "fst (api_stateful_set env req w) = Inr sts \<Longrightarrow> sts_Replicas sts \<noteq> None"
    "fst (api_cron_jobs env req w) = Inr jobs \<Longrightarrow> job \<in> set jobs \<Longrightarrow>
       ps_Containers (pt_Spec (cj_Template job)) \<noteq> []"
  using assms by (simp_all add: env_ok_def)

lemma wf_probes:
  assumes "wf_cluster ok c"
  shows "ReadinessProbe (Spec_Pod (Spec (cdef c))) \<noteq> None"
  using assms by (auto simp: wf_cluster_def)

section \<open>Waiting and writing\<close>

definition waited :: "'e option \<Rightarrow> effect list \<Rightarrow> bool" where
  "waited r es \<longleftrightarrow> writes es = [] \<and> (\<forall>p. roll es (Some p) = Some (if r = None then False else p))"

lemma poll_until_applied_neutral:
  assumes "poll_ok env" and "poll_until_applied env d c sts s = Done r s'"
  shows "\<exists>es. trace s' = trace s @ es \<and> list_all neutral es \<and> r \<noteq> None \<or>
    trace s' = trace s @ es @ [Applied (om_Namespace (sts_Meta sts)) (om_Name (sts_Meta sts))] \<and>
      list_all neutral es \<and> r = None"
proof -
  let ?I = "\<lambda>t. \<exists>es. trace t = trace s @ es \<and> list_all neutral es"
  have step: "?I (snd (statefulSetChangeApplied env c sts t))" if "?I t" for t
    using that by (auto simp: statefulSetChangeApplied_def Let_def wait_event_def split: prod.splits sum.splits)
  have keep: "?I t" if "PollImmediateInfinite env d (statefulSetChangeApplied env c sts) s = Some (e, t)" for e t
    by (rule poller.poll_keeps [OF poll_okD [OF assms(1)] that]) (use step in \<open>auto simp: pause_def\<close>)
  from assms(2) keep show ?thesis
    by (fastforce simp: poll_until_applied_def Let_def split: option.splits prod.splits)
qed

lemma does_poll:
  assumes "poll_ok env"
  shows "does (poll_until_applied env d c sts) waited"
proof (rule doesI)
  fix s r s' assume run: "poll_until_applied env d c sts s = Done r s'"
  from poll_until_applied_neutral [OF assms run] obtain es where
    "trace s' = trace s @ es \<and> list_all neutral es \<and> r \<noteq> None \<or>
     trace s' = trace s @ es @ [Applied (om_Namespace (sts_Meta sts)) (om_Name (sts_Meta sts))] \<and>
       list_all neutral es \<and> r = None" by blast
  then have "\<exists>es. trace s' = trace s @ es \<and> waited r es"
    by (auto simp: waited_def)
  with poll_until_applied_onward [OF assms run]
  show "onward s s' \<and> (\<exists>es. trace s' = trace s @ es \<and> waited r es)" by blast
next
  show "poll_until_applied env d c sts s \<noteq> Panicked p s'" for s p s'
    by (auto simp: poll_until_applied_def Let_def split: option.splits prod.splits)
qed

lemma does_Wait:
  assumes "poll_ok env" and "sts_Replicas sts \<noteq> None" and "wf_cluster ok c"
  shows "does (WaitUntilRackChangeApplied env c sts) waited"
proof -
  from assms(2) obtain n where n: "sts_Replicas sts = Some n" by blast
  from wf_probes [OF assms(3)] obtain p where p: "ReadinessProbe (Spec_Pod (Spec (cdef c))) = Some p" by blast
  have quiet: "does m (\<lambda>_ es. list_all neutral es) \<Longrightarrow> does n waited \<Longrightarrow> does (seq m n) waited"
    for m :: "(unit, 'a) action" and n :: "(rack_error option, 'a) action"
    by (rule does_seq, assumption, rule does_weaken, assumption) (auto simp: waited_def)
  have bind: "bind (deref (Some a)) f = f a" for a and f :: "'b \<Rightarrow> ('c, 'd) action"
    by (simp add: fun_eq_iff bind_def deref_def pass_def)
  show ?thesis
    unfolding WaitUntilRackChangeApplied_def recordWaitEvent_def n p bind
    by (intro quiet does_perform does_Sleep does_poll [OF assms(1)]) (simp_all add: wait_event_def)
qed

section \<open>Changing stateful sets one at a time\<close>

text \<open>
  A step that changes stateful sets starts with no change pending and, unless it fails, ends with
  none.
\<close>

definition changed :: "'e option \<Rightarrow> effect list \<Rightarrow> bool" where
  "changed r es \<longleftrightarrow> (\<exists>q. roll es (Some False) = Some q \<and> (r = None \<longrightarrow> \<not> q))"

lemma changed_neutral [simp]: "list_all neutral es \<Longrightarrow> changed r es"
  by (auto simp: changed_def intro: exI [of _ False])

lemma changed_append: "changed None es \<Longrightarrow> changed r fs \<Longrightarrow> changed r (es @ fs)"
  by (auto simp: changed_def)

definition patched_name :: "Cluster \<Rightarrow> Rack \<Rightarrow> string" where
  "patched_name c rack = Cluster_Name c @ ''-'' @ Rack_Name rack"

lemma does_call_sts:
  assumes "env_ok env"
  shows "does (call (api_stateful_set env) req)
    (\<lambda>r es. es = [Request req] \<and> (\<forall>sts. r = Inr sts \<longrightarrow> sts_Replicas sts \<noteq> None))"
  by (rule does_call) (use env_okD(5) [OF assms] in blast)

lemma does_patchStatefulSet:
  assumes "env_ok env" and "wf_cluster ok c"
  shows "does (patchStatefulSet env c ch) (\<lambda>r es. changed r es \<and>
    writes es = [Patched (Cluster_Namespace c) (patched_name c (Change_Rack ch)) (Patch ch)])"
  unfolding patchStatefulSet_def PatchStatefulSet_def
proof (rule does_bind [OF does_call_sts [OF assms(1)]])
  fix a :: "string + StatefulSet" and es
  assume a: "es = [Request (PatchStatefulSetReq (Cluster_Namespace c)
      (Cluster_Name c @ ''-'' @ Rack_Name (Change_Rack ch)) (Patch ch))] \<and>
    (\<forall>sts. a = Inr sts \<longrightarrow> sts_Replicas sts \<noteq> None)"
  show "does (case a of Inl err \<Rightarrow> pass (Some (UpdateFailed (Rack_Name (Change_Rack ch)) err))
      | Inr updated \<Rightarrow> WaitUntilRackChangeApplied env c updated)
      (\<lambda>r fs. changed r (es @ fs) \<and> writes (es @ fs) =
        [Patched (Cluster_Namespace c) (patched_name c (Change_Rack ch)) (Patch ch)])"
  proof (cases a)
    case (Inl err)
    with a show ?thesis by (auto simp: changed_def patched_name_def intro!: does_pass)
  next
    case (Inr sts)
    with a have "does (WaitUntilRackChangeApplied env c sts) waited"
      using does_Wait [OF env_okD(1) [OF assms(1)] _ assms(2)] by blast
    with Inr a show ?thesis
      by (auto simp: changed_def waited_def patched_name_def elim!: does_weaken)
  qed
qed

lemma does_registerStatefulSet:
  assumes "env_ok env" and "wf_cluster ok c"
  shows "does (registerStatefulSet env c rack cm) (\<lambda>r es. changed r es \<and>
    writes es = [Created (Cluster_Namespace c) (RackName (cdef c) rack)])"
proof -
  obtain sts where sts: "createStatefulSetForRack c rack cm = Inr sts"
    using createCassandraContainer_wf [OF assms(2)] by (auto simp: createStatefulSetForRack_def Let_def)
  have bind: "bind (eval (Inr sts)) f = f sts" for f :: "StatefulSet \<Rightarrow> ('b, 'a) action"
    by (simp add: fun_eq_iff bind_def eval_def pass_def)
  show ?thesis
    unfolding registerStatefulSet_def CreateStatefulSetForRack_def sts bind
  proof (rule does_bind [OF does_call_sts [OF assms(1)]])
    fix a :: "string + StatefulSet" and es
    assume a: "es = [Request (CreateStatefulSet (Cluster_Namespace c) sts)] \<and>
      (\<forall>sts. a = Inr sts \<longrightarrow> sts_Replicas sts \<noteq> None)"
    show "does (case a of Inl err \<Rightarrow> pass (Some (CreateFailed (Rack_Name rack) err))
        | Inr sts \<Rightarrow> bind (WaitUntilRackChangeApplied env c sts) (\<lambda>_. pass None))
        (\<lambda>r fs. changed r (es @ fs) \<and> writes (es @ fs) = [Created (Cluster_Namespace c) (RackName (cdef c) rack)])"
    proof (cases a)
      case (Inl err)
      with a show ?thesis
        by (auto simp: changed_def created_parts(1) [OF sts] intro!: does_pass)
    next
      case (Inr sts')
      with a have "does (WaitUntilRackChangeApplied env c sts') waited"
        using does_Wait [OF env_okD(1) [OF assms(1)] _ assms(2)] by blast
      then have "does (bind (WaitUntilRackChangeApplied env c sts') (\<lambda>_. pass None))
          (\<lambda>r fs. changed r (es @ fs) \<and> writes (es @ fs) = [Created (Cluster_Namespace c) (RackName (cdef c) rack)])"
        by (rule does_bind, intro does_pass)
          (use a in \<open>auto simp: changed_def waited_def created_parts(1) [OF sts]\<close>)
      with Inr show ?thesis by simp
    qed
  qed
qed

lemma does_updateStatefulSet:
  assumes "env_ok env" and "wf_cluster ok c"
  shows "does (updateStatefulSet env c cm rack action) changed"
  unfolding updateStatefulSet_def GetStatefulSetForRack_def
proof (rule does_bind [OF does_call_sts [OF assms(1)]])
  fix a :: "string + StatefulSet" and es
  assume a: "es = [Request (GetStatefulSet (Cluster_Namespace c) (Cluster_Name c @ ''-'' @ Rack_Name rack))] \<and>
    (\<forall>sts. a = Inr sts \<longrightarrow> sts_Replicas sts \<noteq> None)"
  have ends: "does (case r of Inl err \<Rightarrow> pass (Some (UpdateFailed (Rack_Name rack) err))
      | Inr updated \<Rightarrow> WaitUntilRackChangeApplied env c updated) (\<lambda>q gs. changed q (es @ fs @ gs))"
    if "fs = [Request (UpdateStatefulSetReq (Cluster_Namespace c) u)] \<and> (\<forall>sts. r = Inr sts \<longrightarrow> sts_Replicas sts \<noteq> None)"
    for r u fs
  proof (cases r)
    case (Inl err)
    with a that show ?thesis by (auto simp: changed_def intro!: does_pass)
  next
    case (Inr sts)
    with that have "does (WaitUntilRackChangeApplied env c sts) waited"
      using does_Wait [OF env_okD(1) [OF assms(1)] _ assms(2)] by blast
    with Inr a that show ?thesis by (auto simp: changed_def waited_def elim!: does_weaken)
  qed
  show "does (case a of Inl err \<Rightarrow> pass (Some (RetrieveFailed (Rack_Name rack) err))
      | Inr sts \<Rightarrow> bind (UpdateStatefulSet env c (action sts cm))
          (\<lambda>r. case r of Inl err \<Rightarrow> pass (Some (UpdateFailed (Rack_Name rack) err))
            | Inr updated \<Rightarrow> WaitUntilRackChangeApplied env c updated)) (\<lambda>q fs. changed q (es @ fs))"
  proof (cases a)
    case (Inl err)
    with a show ?thesis by (auto simp: changed_def intro!: does_pass)
  next
    case (Inr sts)
    then show ?thesis
      unfolding UpdateStatefulSet_def by (auto intro: does_bind [OF does_call_sts [OF assms(1)] ends])
  qed
qed

lemma does_for_each_changed:
  assumes "\<And>x. x \<in> set xs \<Longrightarrow> does (body x) (\<lambda>r es. changed r es \<and> writes es = E x)"
  shows "does (for_each xs body) (\<lambda>r es. changed r es \<and>
    (\<exists>ys. prefix ys xs \<and> writes es = concat (map E ys) \<and> (r = None \<longrightarrow> ys = xs)))"
proof (rule does_for_each [where B = "\<lambda>x r es. changed r es \<and> writes es = E x"
      and Q = "\<lambda>xs r es. changed r es \<and>
        (\<exists>ys. prefix ys xs \<and> writes es = concat (map E ys) \<and> (r = None \<longrightarrow> ys = xs))"])
  show "changed r es \<and> (\<exists>ys. prefix ys (x # xs) \<and> writes es = concat (map E ys) \<and> (r = None \<longrightarrow> ys = x # xs))"
    if "changed r es \<and> writes es = E x" "r \<noteq> None" for x xs r es
    using that by (intro conjI exI [of _ "[x]"]) auto
  show "changed q (es @ fs) \<and> (\<exists>ys. prefix ys (x # xs) \<and> writes (es @ fs) = concat (map E ys) \<and>
      (q = None \<longrightarrow> ys = x # xs))"
    if 1: "changed None es \<and> writes es = E x"
      and 2: "changed q fs \<and> (\<exists>ys. prefix ys xs \<and> writes fs = concat (map E ys) \<and> (q = None \<longrightarrow> ys = xs))"
    for x xs es q fs
  proof -
    from 2 obtain ys where "prefix ys xs" "writes fs = concat (map E ys)" "q = None \<longrightarrow> ys = xs" by blast
    with 1 2 show ?thesis by (intro conjI exI [of _ "x # ys"]) (auto intro: changed_append)
  qed
qed (use assms in \<open>simp_all\<close>)

section \<open>Reads\<close>

abbreviation "reads m \<equiv> does m (\<lambda>_ es. list_all neutral es)"

lemma reads_bind: "reads m \<Longrightarrow> (\<And>a. reads (f a)) \<Longrightarrow> reads (bind m f)"
  by (rule does_bind, assumption) (auto elim!: does_weaken)

lemma reads_call: "neutral (Request req) \<Longrightarrow> reads (call srv req)"
  by (rule does_call) simp

lemma reads_pass: "reads (pass a)"
  by (rule does_pass) simp

lemma reads_FindCustomConfigMap: "reads (FindCustomConfigMap env ns n)"
  unfolding FindCustomConfigMap_def by (intro reads_bind reads_call reads_pass) simp

lemma reads_FindExistingResourcesFor: "reads (FindExistingResourcesFor env c)"
  unfolding FindExistingResourcesFor_def serviceForCluster_def statefulSetsForCluster_def
    podsForCluster_def Let_def
  by (intro reads_bind reads_call reads_pass) simp_all

text \<open>A cron job that a search finds has a container.\<close>

lemma does_FindCronJob:
  assumes "env_ok env"
  shows "does (FindCronJobForCluster env d label) (\<lambda>r es. list_all neutral es \<and>
    (\<forall>job. found_job r = Some job \<longrightarrow> ps_Containers (pt_Spec (cj_Template job)) \<noteq> []))"
proof -
  have "does (call (api_cron_jobs env) req) (\<lambda>r es. es = [Request req] \<and>
      (\<forall>jobs job. r = Inr jobs \<longrightarrow> job \<in> set jobs \<longrightarrow> ps_Containers (pt_Spec (cj_Template job)) \<noteq> []))" for req
    by (rule does_call) (use env_okD(6) [OF assms] in blast)
  then show ?thesis
    unfolding FindCronJobForCluster_def
    by (rule does_bind) (auto intro!: does_pass simp: found_job_def split: sum.split)
qed

text \<open>Reading first, then changing.\<close>

lemma changed_after_reads:
  assumes "reads m" and "\<And>a. does (f a) (\<lambda>r es. changed r es \<and> writes es = E)"
  shows "does (bind m f) (\<lambda>r es. changed r es \<and> writes es = E)"
  by (rule does_bind [OF assms(1)], rule does_weaken [OF assms(2)]) (auto intro: changed_append)

definition expected_write :: "Cluster \<Rightarrow> ClusterChange \<Rightarrow> api_write list" where
  "expected_write c ch =
     (case ChangeType ch of
        UpdateRack \<Rightarrow> [Patched (Cluster_Namespace c) (patched_name c (Change_Rack ch)) (Patch ch)]
      | AddRack \<Rightarrow> [Created (Cluster_Namespace c) (RackName (cdef c) (Change_Rack ch))]
      | _ \<Rightarrow> [])"

lemma does_event_pass:
  "does (seq (Eventf d ty reason msg) (pass None)) (\<lambda>r es. changed r es \<and> writes es = [])"
  by (rule does_seq [where R = "\<lambda>_ es. list_all neutral es"]) (auto intro!: does_Eventf does_pass)

lemma does_apply_change:
  assumes "env_ok env" and "wf_cluster ok c"
  shows "does (apply_change env c old ch) (\<lambda>r es. changed r es \<and> writes es = expected_write c ch)"
proof (cases "ChangeType ch")
  case AddRack
  then show ?thesis
    by (simp add: apply_change_def expected_write_def)
      (intro changed_after_reads reads_FindCustomConfigMap does_registerStatefulSet [OF assms])
next
  case UpdateRack
  then show ?thesis
    by (simp add: apply_change_def expected_write_def does_patchStatefulSet [OF assms])
qed (simp_all add: apply_change_def expected_write_def does_event_pass)

section \<open>The operator's memory\<close>

text \<open>
  Every cluster in memory is well formed, and every registered cluster is registered under its own
  qualified name.
\<close>

definition memory_ok :: "'w Env \<Rightarrow> 'w sys \<Rightarrow> bool" where
  "memory_ok env s \<longleftrightarrow>
     (\<forall>r c. cluster_heap s r = Some c \<longrightarrow> wf_cluster (cron_ok env) c \<and> r < next_cluster s) \<and>
     (\<forall>n r. fmlookup (clusters s) n = Some r \<longrightarrow>
        (\<exists>c. cluster_heap s r = Some c \<and> Cluster_QualifiedName c = n))"

text \<open>What no operation takes back: clusters and definitions stay, with their names and, but for
  the image, their snapshots.\<close>

definition identity_of :: "Cassandra \<Rightarrow> string \<times> string \<times> Snapshot option" where
  "identity_of d =
     (Name d, Namespace d, map_option (Snapshot_Image_update (\<lambda>_. [])) (Spec_Snapshot (Spec d)))"

definition evolves :: "'w sys \<Rightarrow> 'w sys \<Rightarrow> bool" where
  "evolves s s' \<longleftrightarrow>
     (\<forall>r c. cluster_heap s r = Some c \<longrightarrow>
        (\<exists>c'. cluster_heap s' r = Some c' \<and> Cluster_QualifiedName c' = Cluster_QualifiedName c)) \<and>
     (\<forall>r d. cassandra_heap s r = Some d \<longrightarrow>
        (\<exists>d'. cassandra_heap s' r = Some d' \<and> identity_of d' = identity_of d))"

lemma evolves_refl [simp]: "evolves s s"
  by (simp add: evolves_def)

lemma evolves_trans:
  assumes "evolves s t" and "evolves t u"
  shows "evolves s u"
  unfolding evolves_def
proof (intro conjI allI impI)
  fix r c assume "cluster_heap s r = Some c"
  with assms(1) obtain c' where "cluster_heap t r = Some c'" "Cluster_QualifiedName c' = Cluster_QualifiedName c"
    unfolding evolves_def by blast
  with assms(2) show "\<exists>c'. cluster_heap u r = Some c' \<and> Cluster_QualifiedName c' = Cluster_QualifiedName c"
    unfolding evolves_def by metis
next
  fix r d assume "cassandra_heap s r = Some d"
  with assms(1) obtain d' where "cassandra_heap t r = Some d'" "identity_of d' = identity_of d"
    unfolding evolves_def by blast
  with assms(2) show "\<exists>d'. cassandra_heap u r = Some d' \<and> identity_of d' = identity_of d"
    unfolding evolves_def by metis
qed

lemma onward_evolves: "onward s t \<Longrightarrow> evolves s t"
  by (simp add: evolves_def onward_fields)

lemma onward_memory_ok: "onward s t \<Longrightarrow> memory_ok env s \<Longrightarrow> memory_ok env t"
  by (simp add: memory_ok_def onward_fields)

lemma identity_defaults [simp]:
  "identity_of (default_snapshot_image d) = identity_of d"
  "identity_of (snd (default_liveness d)) = identity_of d"
  "identity_of (snd (default_readiness d)) = identity_of d"
  by (auto simp: identity_of_def default_snapshot_image_def snd_default_liveness snd_default_readiness
      split: option.split)

lemma CopyInto_identity:
  assumes "CopyInto ok c d = (err, c', d')"
  shows "identity_of d' = identity_of d"
proof -
  let ?d1 = "default_snapshot_image d"
  have "d' \<in> {d, snd (default_liveness ?d1), snd (default_readiness (snd (default_liveness ?d1)))}"
    using assms by (auto simp: CopyInto_def Let_def split: option.splits prod.splits)
  then show ?thesis by auto
qed

lemma New_identity:
  assumes "New ok d = (r, d')"
  shows "identity_of d' = identity_of d"
  using assms CopyInto_identity [of ok zero_Cluster d]
  by (auto simp: New_def split: prod.splits option.splits)

section \<open>Operations one by one\<close>

lemma goes_does:
  assumes "does m R"
    and "\<And>a t es. onward s t \<Longrightarrow> trace t = trace s @ es \<Longrightarrow> R a es \<Longrightarrow> Q a t"
  shows "goes (m s) Q"
proof (cases "m s")
  case (Done a t)
  with doesD [OF assms(1) Done] assms(2) show ?thesis by (auto simp: goes_def)
qed (use does_no_panic [OF assms(1)] in \<open>auto simp: goes_def\<close>)

lemma goes_read_cassandra [op_simps]:
  "cassandra_heap s r = Some d \<Longrightarrow> goes (read_cassandra r s) Q \<longleftrightarrow> Q d s"
  by (simp add: read_cassandra_def op_simps)

lemma goes_read_cluster [op_simps]:
  "cluster_heap s r = Some c \<Longrightarrow> goes (read_cluster r s) Q \<longleftrightarrow> Q c s"
  by (simp add: read_cluster_def op_simps)

lemma goes_writes [op_simps]:
  "goes (write_cassandra r d s) Q \<longleftrightarrow> Q () (s\<lparr>cassandra_heap := (cassandra_heap s)(r \<mapsto> d)\<rparr>)"
  "goes (write_cluster r c s) Q \<longleftrightarrow> Q () (s\<lparr>cluster_heap := (cluster_heap s)(r \<mapsto> c)\<rparr>)"
  "goes (set_online r b s) Q \<longleftrightarrow> Q () (s\<lparr>cluster_heap :=
     (cluster_heap s)(r := map_option (\<lambda>c. c\<lparr>Online := b\<rparr>) (cluster_heap s r))\<rparr>)"
  by (simp_all add: write_cassandra_def write_cluster_def set_online_def op_simps)

lemma goes_alloc [op_simps]:
  "goes (alloc_cluster c s) Q \<longleftrightarrow> Q (next_cluster s)
     (s\<lparr>cluster_heap := (cluster_heap s)(next_cluster s \<mapsto> c), next_cluster := Suc (next_cluster s)\<rparr>)"
  by (simp add: alloc_cluster_def goes_def)

text \<open>
  What an operation is given must be there: the definitions and clusters it points to, and for an
  update of a snapshot the snapshot.
\<close>

fun op_ok :: "'w sys \<Rightarrow> operation \<Rightarrow> bool" where
  "op_ok s (AddClusterOperation d) \<longleftrightarrow> cassandra_heap s d \<noteq> None"
| "op_ok s (DeleteClusterOperation d) \<longleftrightarrow> cassandra_heap s d \<noteq> None"
| "op_ok s (UpdateClusterOperation c u) \<longleftrightarrow>
     (\<exists>cl old new. cluster_heap s c = Some cl \<and> cassandra_heap s (OldCluster u) = Some old \<and>
        cassandra_heap s (NewCluster u) = Some new \<and> QualifiedName new = Cluster_QualifiedName cl)"
| "op_ok s (AddSnapshotOperation d) \<longleftrightarrow> cassandra_heap s d \<noteq> None"
| "op_ok s (AddSnapshotCleanupOperation d) \<longleftrightarrow> cassandra_heap s d \<noteq> None"
| "op_ok s (DeleteSnapshotOperation d) \<longleftrightarrow> cassandra_heap s d \<noteq> None"
| "op_ok s (DeleteSnapshotCleanupOperation d) \<longleftrightarrow> cassandra_heap s d \<noteq> None"
| "op_ok s (UpdateSnapshotOperation c n) \<longleftrightarrow> cluster_heap s c \<noteq> None \<and>
     (\<exists>d. cassandra_heap s n = Some d \<and> Spec_Snapshot (Spec d) \<noteq> None)"
| "op_ok s (UpdateSnapshotCleanupOperation c n) \<longleftrightarrow> cluster_heap s c \<noteq> None \<and>
     (\<exists>d q. cassandra_heap s n = Some d \<and> Spec_Snapshot (Spec d) = Some q \<and>
        Snapshot_RetentionPolicy q \<noteq> None)"
| "op_ok s (GatherMetricsOperation c) \<longleftrightarrow> cluster_heap s c \<noteq> None"
| "op_ok s (AddCustomConfigOperation c m) \<longleftrightarrow> cluster_heap s c \<noteq> None"
| "op_ok s (UpdateCustomConfigOperation c m) \<longleftrightarrow> cluster_heap s c \<noteq> None"
| "op_ok s (DeleteCustomConfigOperation c m) \<longleftrightarrow> cluster_heap s c \<noteq> None"

text \<open>What holds after an operation: \<open>s\<close> is the state it started in.\<close>

definition safe_after :: "'w Env \<Rightarrow> 'w sys \<Rightarrow> 'w sys \<Rightarrow> bool" where
  "safe_after env s t \<longleftrightarrow> memory_ok env t \<and> evolves s t \<and>
     (\<exists>es. trace t = trace s @ es \<and> roll es (Some False) \<noteq> None)"

text \<open>And before it changes any stateful set.\<close>

definition quiet_after :: "'w Env \<Rightarrow> 'w sys \<Rightarrow> 'w sys \<Rightarrow> bool" where
  "quiet_after env s t \<longleftrightarrow> memory_ok env t \<and> evolves s t \<and>
     (\<exists>es. trace t = trace s @ es \<and> roll es (Some False) = Some False)"

lemma quiet_after_refl: "memory_ok env s \<Longrightarrow> quiet_after env s s"
  by (simp add: quiet_after_def)

lemma quiet_safe: "quiet_after env s t \<Longrightarrow> safe_after env s t"
  by (auto simp: quiet_after_def safe_after_def)

lemma quiet_onward:
  assumes "quiet_after env s t" and "onward t u" and "trace u = trace t @ es"
  shows "roll es (Some False) = Some False \<Longrightarrow> quiet_after env s u"
    and "roll es (Some False) \<noteq> None \<Longrightarrow> safe_after env s u"
  using assms unfolding quiet_after_def safe_after_def
  by (auto intro: onward_memory_ok evolves_trans [OF _ onward_evolves])

lemma memory_ok_cluster:
  "memory_ok env s \<Longrightarrow> cluster_heap s r = Some c \<Longrightarrow> wf_cluster (cron_ok env) c"
  by (simp add: memory_ok_def)

lemma quiet_cassandra:
  assumes "quiet_after env s t" and "cassandra_heap t r = Some d" and "identity_of d' = identity_of d"
  shows "quiet_after env s (t\<lparr>cassandra_heap := (cassandra_heap t)(r \<mapsto> d')\<rparr>)"
proof -
  have "evolves t (t\<lparr>cassandra_heap := (cassandra_heap t)(r \<mapsto> d')\<rparr>)"
    using assms(2,3) by (auto simp: evolves_def)
  with assms(1) show ?thesis
    by (auto simp: quiet_after_def memory_ok_def intro: evolves_trans)
qed

lemma quiet_cluster:
  assumes "quiet_after env s t" and "cluster_heap t r = Some c" and "wf_cluster (cron_ok env) c'"
    and "Cluster_QualifiedName c' = Cluster_QualifiedName c"
  shows "quiet_after env s (t\<lparr>cluster_heap := (cluster_heap t)(r \<mapsto> c')\<rparr>)"
proof -
  have "evolves t (t\<lparr>cluster_heap := (cluster_heap t)(r \<mapsto> c')\<rparr>)"
    using assms(2,4) by (auto simp: evolves_def)
  moreover have "memory_ok env (t\<lparr>cluster_heap := (cluster_heap t)(r \<mapsto> c')\<rparr>)"
    using assms by (fastforce simp: quiet_after_def memory_ok_def)
  ultimately show ?thesis
    using assms(1) by (auto simp: quiet_after_def intro: evolves_trans)
qed

lemma wf_online [simp]: "wf_cluster ok (c\<lparr>Online := b\<rparr>) = wf_cluster ok c"
  by (simp add: wf_cluster_def Cluster_Racks_def)

lemma goes_new_cluster:
  assumes q: "quiet_after env s t" and d: "cassandra_heap t r = Some d"
    and Inl: "\<And>err u. quiet_after env s u \<Longrightarrow> Q (Inl err) u"
    and Inr: "\<And>c u. quiet_after env s u \<Longrightarrow> valid_definition (cron_ok env) d \<Longrightarrow>
      c = \<lparr>cdef = stored d, Online = False\<rparr> \<Longrightarrow>
      u = t\<lparr>cassandra_heap := (cassandra_heap t)(r \<mapsto> defaulted d)\<rparr> \<Longrightarrow> Q (Inr c) u"
  shows "goes (new_cluster env r t) Q"
proof -
  obtain res d' where new: "New (cron_ok env) d = (res, d')" by (cases "New (cron_ok env) d")
  let ?u = "t\<lparr>cassandra_heap := (cassandra_heap t)(r \<mapsto> d')\<rparr>"
  have u: "quiet_after env s ?u" by (rule quiet_cassandra [OF q d New_identity [OF new]])
  have "Q res ?u"
  proof (cases res)
    case (Inl err)
    with assms(3) [OF u] show ?thesis by simp
  next
    case (Inr c)
    with new have "valid_definition (cron_ok env) d" "c = \<lparr>cdef = stored d, Online = False\<rparr>" "d' = defaulted d"
      by (simp_all add: New_Inr)
    with assms(4) [OF u] Inr show ?thesis by simp
  qed
  then show ?thesis by (simp add: new_cluster_def op_simps d new)
qed

lemma quiet_reads:
  assumes "quiet_after env s t" and "reads m"
    and "\<And>a u es. quiet_after env s u \<Longrightarrow> onward t u \<Longrightarrow> trace u = trace t @ es \<Longrightarrow>
      list_all neutral es \<Longrightarrow> Q a u"
  shows "goes (m t) Q"
proof (rule goes_does [OF assms(2)])
  fix a u es assume u: "onward t u" "trace u = trace t @ es" "list_all neutral es"
  have "quiet_after env s u" by (rule quiet_onward(1) [OF assms(1) u(1,2)]) (use u(3) in simp)
  with u show "Q a u" by (intro assms(3))
qed

lemma safe_changed:
  assumes "quiet_after env s t" and "does m R"
    and "\<And>a es. R a es \<Longrightarrow> roll es (Some False) \<noteq> None"
    and "\<And>a u es. safe_after env s u \<Longrightarrow> onward t u \<Longrightarrow> trace u = trace t @ es \<Longrightarrow> R a es \<Longrightarrow> Q a u"
  shows "goes (m t) Q"
proof (rule goes_does [OF assms(2)])
  fix a u es assume u: "onward t u" "trace u = trace t @ es" "R a es"
  then have "safe_after env s u" using assms(3) by (intro quiet_onward(2) [OF assms(1)])
  with u show "Q a u" by (intro assms(4))
qed

lemma quiet_alloc:
  assumes "quiet_after env s t" and "wf_cluster (cron_ok env) c"
  shows "quiet_after env s (t\<lparr>cluster_heap := (cluster_heap t)(next_cluster t \<mapsto> c),
    next_cluster := Suc (next_cluster t),
    clusters := fmupd (Cluster_QualifiedName c) (next_cluster t) (clusters t)\<rparr>)"
proof -
  let ?u = "t\<lparr>cluster_heap := (cluster_heap t)(next_cluster t \<mapsto> c), next_cluster := Suc (next_cluster t),
    clusters := fmupd (Cluster_QualifiedName c) (next_cluster t) (clusters t)\<rparr>"
  have fresh: "cluster_heap t (next_cluster t) = None"
    using assms(1) unfolding quiet_after_def memory_ok_def by (meson less_irrefl not_Some_eq)
  then have "fmlookup (clusters t) n \<noteq> Some (next_cluster t)" for n
    using assms(1) unfolding quiet_after_def memory_ok_def by (metis option.distinct(1))
  then have "memory_ok env ?u"
    using assms fresh unfolding quiet_after_def memory_ok_def
    by (auto simp: less_SucI split: if_splits)
  moreover have "evolves t ?u" using fresh by (auto simp: evolves_def)
  ultimately show ?thesis
    using assms(1) by (auto simp: quiet_after_def intro: evolves_trans)
qed

lemma online_keeps:
  assumes "u = t\<lparr>cluster_heap := (cluster_heap t)(r := map_option (\<lambda>c. c\<lparr>Online := b\<rparr>) (cluster_heap t r))\<rparr>"
  shows "memory_ok env t \<Longrightarrow> memory_ok env u" and "evolves t u"
proof -
  have heap: "cluster_heap u q = map_option (\<lambda>c. if q = r then c\<lparr>Online := b\<rparr> else c) (cluster_heap t q)" for q
    by (cases "cluster_heap t q") (auto simp: assms)
  have rest: "clusters u = clusters t" "next_cluster u = next_cluster t" "cassandra_heap u = cassandra_heap t"
    by (simp_all add: assms)
  have name: "Cluster_QualifiedName (if q = r then c\<lparr>Online := b\<rparr> else c) = Cluster_QualifiedName c" for q c
    by (simp add: Cluster_QualifiedName_def)
  show "evolves t u" by (auto simp: evolves_def heap rest name)
  assume ok: "memory_ok env t"
  show "memory_ok env u"
    unfolding memory_ok_def rest
  proof (intro conjI allI impI)
    fix n q assume "fmlookup (clusters t) n = Some q"
    with ok obtain c where "cluster_heap t q = Some c" "Cluster_QualifiedName c = n"
      unfolding memory_ok_def by blast
    then show "\<exists>c. cluster_heap u q = Some c \<and> Cluster_QualifiedName c = n" by (simp add: heap name)
  qed (use ok in \<open>auto simp: heap memory_ok_def split: if_splits\<close>)
qed

lemma safe_online:
  assumes "safe_after env s t"
  shows "safe_after env s (t\<lparr>cluster_heap :=
    (cluster_heap t)(r := map_option (\<lambda>c. c\<lparr>Online := b\<rparr>) (cluster_heap t r))\<rparr>)"
  using assms online_keeps [OF refl, where t = t and r = r and b = b]
  by (auto simp: safe_after_def intro: evolves_trans)

lemma quiet_online:
  assumes "quiet_after env s t"
  shows "quiet_after env s (t\<lparr>cluster_heap :=
    (cluster_heap t)(r := map_option (\<lambda>c. c\<lparr>Online := b\<rparr>) (cluster_heap t r))\<rparr>)"
  using assms online_keeps [OF refl, where t = t and r = r and b = b]
  by (auto simp: quiet_after_def intro: evolves_trans)

text \<open>The objects a new cluster needs, in the order they are created.\<close>

definition cluster_writes :: "Cluster \<Rightarrow> Rack list \<Rightarrow> api_write list" where
  "cluster_writes c racks =
     ServiceCreated (Cluster_Namespace c) (Cluster_Name c) #
       map (\<lambda>rack. Created (Cluster_Namespace c) (RackName (cdef c) rack)) racks"

lemma service_name: "om_Name (svc_Meta (CreateService c)) = Cluster_Name c"
  by (simp add: CreateService_def objectMetadata_def Cluster_Name_def)

lemma does_registerStatefulSets:
  assumes "env_ok env" and "wf_cluster ok c"
  shows "does (registerStatefulSets env c cm) (\<lambda>r es. changed r es \<and>
    (\<exists>ys. prefix ys (Cluster_Racks c) \<and>
       writes es = map (\<lambda>rack. Created (Cluster_Namespace c) (RackName (cdef c) rack)) ys \<and>
       (r = None \<longrightarrow> ys = Cluster_Racks c)))"
proof -
  have eq: "concat (map (\<lambda>x. [f x]) ys) = map f ys" for f and ys :: "Rack list"
    by (induction ys) simp_all
  show ?thesis
    unfolding registerStatefulSets_def
    using does_for_each_changed [OF does_registerStatefulSet [OF assms]] by (simp add: eq)
qed

lemma does_create_resources:
  assumes "env_ok env" and "wf_cluster ok c"
  shows "does (create_resources env c cm) (\<lambda>b es. roll es (Some False) \<noteq> None \<and>
    (\<exists>ys. prefix ys (Cluster_Racks c) \<and> writes es = cluster_writes c ys \<and>
       (b \<longrightarrow> ys = Cluster_Racks c)))"
  unfolding create_resources_def CreateServiceForCluster_def
proof (rule does_bind [OF does_call [where Q = "\<lambda>_ es. es = [Request (CreateServiceReq (Cluster_Namespace c) (CreateService c))]"]])
  fix a :: "string + unit" and es
  assume es: "es = [Request (CreateServiceReq (Cluster_Namespace c) (CreateService c))]"
  show "does (case a of Inl err \<Rightarrow> pass False
      | Inr _ \<Rightarrow> bind (registerStatefulSets env c cm) (\<lambda>err. pass (err = None)))
      (\<lambda>b fs. roll (es @ fs) (Some False) \<noteq> None \<and> (\<exists>ys. prefix ys (Cluster_Racks c) \<and>
        writes (es @ fs) = cluster_writes c ys \<and> (b \<longrightarrow> ys = Cluster_Racks c)))"
  proof (cases a)
    case (Inl err)
    then show ?thesis by (auto simp: es cluster_writes_def service_name intro!: does_pass)
  next
    case (Inr x)
    show ?thesis
      unfolding Inr sum.case
      by (rule does_bind [OF does_registerStatefulSets [OF assms]], rule does_pass)
        (auto simp: es cluster_writes_def service_name changed_def)
  qed
qed simp

section \<open>Every operation is safe\<close>

lemma goes_AddCluster:
  assumes env: "env_ok env" and ok: "memory_ok env s" and d: "cassandra_heap s r = Some d"
  shows "goes (AddCluster_Execute env r s) (\<lambda>_. safe_after env s)"
  unfolding AddCluster_Execute_def goes_bind goes_read_cassandra [OF d]
proof (rule quiet_reads [OF quiet_after_refl [OF ok] reads_FindCustomConfigMap])
  fix cm t assume t: "quiet_after env s t" "onward s t"
  then have dt: "cassandra_heap t r = Some d" using d by (simp add: onward_fields)
  show "goes (new_cluster env r t) (\<lambda>a u. goes ((case a of Inl err \<Rightarrow> pass ()
       | Inr c \<Rightarrow>
           bind (alloc_cluster c) (\<lambda>c_ref.
           seq (modify (\<lambda>s. s\<lparr>clusters := fmupd (Cluster_QualifiedName c) c_ref (clusters s)\<rparr>))
          (bind (FindExistingResourcesFor env c) (\<lambda>foundResources.
           bind (if length foundResources > 0 then pass True
                 else create_resources env c cm) (\<lambda>go_online.
             if go_online then set_online c_ref True else pass ()))))) u) (\<lambda>_. safe_after env s))"
  proof (rule goes_new_cluster [OF t(1) dt])
    fix c u
    assume u: "quiet_after env s u" and valid: "valid_definition (cron_ok env) d"
      and c: "c = \<lparr>cdef = stored d, Online = False\<rparr>"
    have wf: "wf_cluster (cron_ok env) c"
      using wf_cluster_stored [OF valid, of zero_Cluster] c by (simp add: zero_Cluster_def)
    have online: "goes (bind (if length found > 0 then pass True else create_resources env c cm)
        (\<lambda>go_online. if go_online then set_online r' True else pass ()) v) (\<lambda>_. safe_after env s)"
      if v: "quiet_after env s v" for found :: "string list" and r' v
    proof (cases found)
      case Nil
      have "goes (create_resources env c cm v)
          (\<lambda>b w. goes ((if b then set_online r' True else pass ()) w) (\<lambda>_. safe_after env s))"
        by (rule safe_changed [OF v does_create_resources [OF env wf]]) (auto simp: op_simps safe_online)
      then show ?thesis by (simp add: Nil op_simps)
    next
      case (Cons x xs)
      with v show ?thesis by (simp add: op_simps quiet_safe quiet_online)
    qed
    show "goes ((case Inr c of Inl err \<Rightarrow> pass ()
       | Inr c \<Rightarrow>
           bind (alloc_cluster c) (\<lambda>c_ref.
           seq (modify (\<lambda>s. s\<lparr>clusters := fmupd (Cluster_QualifiedName c) c_ref (clusters s)\<rparr>))
          (bind (FindExistingResourcesFor env c) (\<lambda>foundResources.
           bind (if length foundResources > 0 then pass True
                 else create_resources env c cm) (\<lambda>go_online.
             if go_online then set_online c_ref True else pass ()))))) u) (\<lambda>_. safe_after env s)"
      unfolding sum.case goes_bind goes_seq goes_alloc goes_modify
    proof (rule quiet_reads [OF _ reads_FindExistingResourcesFor])
      show "goes ((if length found > 0 then pass True else create_resources env c cm) v)
          (\<lambda>b w. goes ((if b then set_online (next_cluster u) True else pass ()) w) (\<lambda>_. safe_after env s))"
        if "quiet_after env s v" for found :: "string list" and v
        using online [OF that, of found "next_cluster u"] by (simp only: goes_bind)
    qed (use quiet_alloc [OF u wf] in simp)
  qed (simp add: op_simps quiet_safe)
qed

text \<open>
  Metrics touch the topology and the gauges, which no other operation looks at.
\<close>

definition internal :: "'w sys \<Rightarrow> 'w sys \<Rightarrow> bool" where
  "internal s t \<longleftrightarrow> clusters t = clusters s \<and> cluster_heap t = cluster_heap s \<and>
     next_cluster t = next_cluster s \<and> cassandra_heap t = cassandra_heap s \<and>
     (\<exists>es. trace t = trace s @ es \<and> list_all neutral es)"

lemma internal_trans: "internal s t \<Longrightarrow> internal t u \<Longrightarrow> internal s u"
  by (auto simp: internal_def)

lemma quiet_internal:
  assumes "quiet_after env s t" and "internal t u"
  shows "quiet_after env s u"
  using assms
  by (auto simp: quiet_after_def internal_def memory_ok_def evolves_def)

lemma neutral_gauges [simp]:
  "neutral (SetNodeGauge ls x)" "neutral (DeleteNodeGauge ls)" "neutral (SetSizeGauge ls x)"
  "neutral (DeleteSizeGauge ls)"
  by (simp_all add: neutral_def)

lemma DeleteMetrics_internal: "DeleteMetrics env c s = Done () t \<Longrightarrow> internal s t"
proof -
  have "list_all neutral (delete_effects c known pods)" for known pods
    unfolding list_all_iff by (auto dest: delete_effects_shape)
  then show "DeleteMetrics env c s = Done () t \<Longrightarrow> internal s t"
    by (auto simp: DeleteMetrics_eq internal_def Let_def split: prod.splits)
qed

lemma report_status_internal: "report_status env c names cs s = Done () t \<Longrightarrow> internal s t"
proof -
  have "list_all neutral (node_effects c cs names sts ip)" for sts ip
    by (auto simp: node_effects_def status_effects_def list_all_iff split: option.split)
  then have "list_all neutral (concat (map (node_effects c cs names sts) ips))" for sts ips
    by (induction ips) simp_all
  then show "report_status env c names cs s = Done () t \<Longrightarrow> internal s t"
    by (auto simp: report_status_eq internal_def Let_def split: prod.splits)
qed

text \<open>The requests of the metrics code are reads.\<close>

definition asks_quietly :: "('a, 'w) action \<Rightarrow> bool" where
  "asks_quietly m \<longleftrightarrow> (\<forall>s a t. m s = Done a t \<longrightarrow> internal s t)"

lemma asks_quietly_bind: "asks_quietly m \<Longrightarrow> (\<And>a. asks_quietly (f a)) \<Longrightarrow> asks_quietly (bind m f)"
  unfolding asks_quietly_def bind_def
  by (intro allI impI) (auto split: outcome.splits, metis internal_trans)

lemma asks_quietly_basic:
  "asks_quietly (pass a)" "asks_quietly (panic_with p)" "asks_quietly (ask g)"
  "neutral (Request req) \<Longrightarrow> asks_quietly (call srv req)"
  by (auto simp: asks_quietly_def pass_def panic_with_def ask_def call_def internal_def Let_def
      split: prod.splits)

lemmas asks_quietly_rules = asks_quietly_bind asks_quietly_basic neutral_simps

lemma asks_quietly_urlFor: "asks_quietly (urlFor env c)"
  unfolding urlFor_def podsWithIPAddresses_def list_pods_def
  by (intro asks_quietly_rules) (auto intro!: asks_quietly_rules split: sum.split)

lemma asks_quietly_send: "asks_quietly (sendRequestToJolokia env decode zero url)"
  unfolding sendRequestToJolokia_def by (intro asks_quietly_rules)

lemma asks_quietly_mbeans: "asks_quietly (collect_mbeans env endpoint ms vs)"
  by (induction ms arbitrary: vs)
    (auto intro!: asks_quietly_rules asks_quietly_send split: sum.split)

lemma asks_quietly_racks: "asks_quietly (collect_racks env endpoint ips racks)"
  by (induction ips arbitrary: racks)
    (auto intro!: asks_quietly_rules asks_quietly_send split: sum.split)

lemma asks_quietly_report: "asks_quietly (report_status env c names cs)"
  by (auto simp: asks_quietly_def dest: report_status_internal)

lemma asks_quietly_UpdateMetrics: "asks_quietly (UpdateMetrics env c)"
  unfolding UpdateMetrics_def podsInCluster_def list_pods_def GatherMetricsFor_def
    collectMbeanStatusValuesFor_def collectRackInfoFor_def
  by (auto intro!: asks_quietly_rules asks_quietly_urlFor asks_quietly_mbeans asks_quietly_racks
      asks_quietly_report split: sum.split)

lemma goes_UpdateMetrics:
  assumes "env_ok env" and "quiet_after env s t"
    and "\<And>u. quiet_after env s u \<Longrightarrow> Q () u"
  shows "goes (UpdateMetrics env c t) Q"
proof -
  from returns_UpdateMetrics [OF env_okD(3) [OF assms(1)]] obtain u where u: "UpdateMetrics env c t = Done () u"
    unfolding returns_def by (metis (full_types) old.unit.exhaust)
  with asks_quietly_UpdateMetrics have "internal t u" unfolding asks_quietly_def by blast
  with assms(2,3) u show ?thesis by (simp add: goes_def quiet_internal)
qed

lemma goes_DeleteMetrics:
  assumes "quiet_after env s t" and "\<And>u. quiet_after env s u \<Longrightarrow> Q () u"
  shows "goes (DeleteMetrics env c t) Q"
proof -
  from returns_DeleteMetrics [of env c] obtain u where u: "DeleteMetrics env c t = Done () u"
    unfolding returns_def by (metis (full_types) old.unit.exhaust)
  with assms show ?thesis by (simp add: goes_def quiet_internal DeleteMetrics_internal)
qed

lemma quiet_unregister:
  "quiet_after env s t \<Longrightarrow> quiet_after env s (t\<lparr>clusters := fmdrop n (clusters t)\<rparr>)"
  by (auto simp: quiet_after_def memory_ok_def evolves_def split: if_splits)

text \<open>A request that no stateful set is written by.\<close>

lemma quiet_call:
  assumes "quiet_after env s t" and "roll_step (Request req) (Some False) = Some False"
    and "\<And>a u. quiet_after env s u \<Longrightarrow> cassandra_heap u = cassandra_heap t \<Longrightarrow>
      cluster_heap u = cluster_heap t \<Longrightarrow> Q a u"
  shows "goes (call srv req t) Q"
proof (rule goes_does [OF does_call [where Q = "\<lambda>_ es. es = [Request req]"]])
  fix a u es assume u: "onward t u" "trace u = trace t @ es" "es = [Request req]"
  have "quiet_after env s u" by (rule quiet_onward(1) [OF assms(1) u(1,2)]) (use u(3) assms(2) in simp)
  with u(1) show "Q a u" by (intro assms(3)) (simp_all add: onward_fields)
qed simp

lemma quiet_event:
  "quiet_after env s t \<Longrightarrow> (\<And>u. quiet_after env s u \<Longrightarrow> Q () u) \<Longrightarrow> goes (Eventf d ty reason msg t) Q"
  by (rule quiet_reads [OF _ does_Eventf]) auto

lemma goes_DeleteCluster:
  assumes env: "env_ok env" and ok: "memory_ok env s" and d: "cassandra_heap s r = Some d"
  shows "goes (DeleteCluster_Execute env r s) (\<lambda>_. safe_after env s)"
proof (cases "fmlookup (clusters s) (Namespace d @ ''.'' @ Name d)")
  case None
  with d ok show ?thesis
    by (simp add: DeleteCluster_Execute_def op_simps quiet_safe quiet_after_refl)
next
  case (Some c_ref)
  with ok obtain c where c: "cluster_heap s c_ref = Some c" unfolding memory_ok_def by blast
  show ?thesis
    unfolding DeleteCluster_Execute_def goes_bind goes_read_cassandra [OF d] goes_gets Some option.case
      goes_read_cluster [OF c] goes_seq goes_modify goes_writes
      DeleteStatefulSetsForCluster_def DeleteServiceForCluster_def goes_pass
    by (intro goes_DeleteMetrics quiet_call quiet_online quiet_unregister quiet_after_refl ok quiet_safe)
      (simp_all add: quiet_after_refl ok)
qed

lemma goes_copy_into:
  assumes q: "quiet_after env s t" and c: "cluster_heap t c_ref = Some c"
    and d: "cassandra_heap t r = Some d" and name: "QualifiedName d = Cluster_QualifiedName c"
    and Some: "\<And>err u. quiet_after env s u \<Longrightarrow> Q (Some err) u"
    and None: "\<And>u. quiet_after env s u \<Longrightarrow> valid_definition (cron_ok env) d \<Longrightarrow>
      u = t\<lparr>cassandra_heap := (cassandra_heap t)(r \<mapsto> defaulted d),
           cluster_heap := (cluster_heap t)(c_ref \<mapsto> c\<lparr>cdef := stored d\<rparr>)\<rparr> \<Longrightarrow> Q None u"
  shows "goes (copy_into env c_ref r t) Q"
proof -
  obtain err c' d' where ci: "CopyInto (cron_ok env) c d = (err, c', d')"
    by (cases "CopyInto (cron_ok env) c d")
  let ?t = "t\<lparr>cassandra_heap := (cassandra_heap t)(r \<mapsto> d')\<rparr>"
  let ?u = "?t\<lparr>cluster_heap := (cluster_heap ?t)(c_ref \<mapsto> c')\<rparr>"
  have t: "quiet_after env s ?t" by (rule quiet_cassandra [OF q d CopyInto_identity [OF ci]])
  have wf: "wf_cluster (cron_ok env) c"
    using q c by (auto simp: quiet_after_def intro: memory_ok_cluster)
  have "Q err ?u"
  proof (cases err)
    case None
    with ci have v: "valid_definition (cron_ok env) d" "c' = c\<lparr>cdef := stored d\<rparr>" "d' = defaulted d"
      using CopyInto_None by blast+
    have "Cluster_QualifiedName c' = Cluster_QualifiedName c"
      using name by (simp add: v(2) Cluster_QualifiedName_def QualifiedName_def)
    then have "quiet_after env s ?u"
      using quiet_cluster [OF t, of c_ref c c'] c wf_cluster_stored [OF v(1)] by (simp add: v(2))
    with v None assms(6) show ?thesis by simp
  next
    case (Some e)
    with ci have "c' = c" using CopyInto_Some by blast
    then have "quiet_after env s ?u" using quiet_cluster [OF t, of c_ref c c] c wf by simp
    with Some assms(5) show ?thesis by simp
  qed
  then show ?thesis by (simp add: copy_into_def op_simps c d ci)
qed

lemma goes_UpdateCluster:
  assumes env: "env_ok env" and ok: "memory_ok env s" and op: "op_ok s (UpdateClusterOperation c_ref u)"
  shows "goes (UpdateCluster_Execute env c_ref u s) (\<lambda>_. safe_after env s)"
proof -
  from op obtain c old new where c: "cluster_heap s c_ref = Some c"
    and old: "cassandra_heap s (OldCluster u) = Some old"
    and new: "cassandra_heap s (NewCluster u) = Some new" "QualifiedName new = Cluster_QualifiedName c"
    by auto
  show ?thesis
    unfolding UpdateCluster_Execute_def goes_bind
  proof (rule goes_copy_into [OF quiet_after_refl [OF ok] c new])
    fix t
    assume t: "quiet_after env s t" and valid: "valid_definition (cron_ok env) new"
      and t_eq: "t = s\<lparr>cassandra_heap := (cassandra_heap s)(NewCluster u \<mapsto> defaulted new),
           cluster_heap := (cluster_heap s)(c_ref \<mapsto> c\<lparr>cdef := stored new\<rparr>)\<rparr>"
    let ?c = "c\<lparr>cdef := stored new\<rparr>"
    have ct: "cluster_heap t c_ref = Some ?c" and nt: "cassandra_heap t (NewCluster u) = Some (defaulted new)"
      by (simp_all add: t_eq)
    obtain old' where ot: "cassandra_heap t (OldCluster u) = Some old'"
      using old by (cases "OldCluster u = NewCluster u") (auto simp: t_eq)
    have wf: "wf_cluster (cron_ok env) ?c" by (rule wf_cluster_stored [OF valid])
    have "goes (for_each cs (apply_change env ?c old') t) (\<lambda>_. safe_after env s)" for cs
      by (rule safe_changed [OF t does_for_each_changed [OF does_apply_change [OF env wf]]])
        (auto simp: changed_def)
    then show "goes ((if None \<noteq> None then pass () else
         bind (read_cluster c_ref) (\<lambda>c.
         bind (read_cassandra (OldCluster u)) (\<lambda>oldCluster.
         bind (read_cassandra (NewCluster u)) (\<lambda>newCluster.
           case ChangesForCluster (Spec oldCluster) (Spec newCluster) of
             Inl err \<Rightarrow>
               Eventf oldCluster EventTypeWarning InvalidChangeEvent
                 (''unable to generate patch for cluster '' @ Namespace newCluster @ ''.'' @
                  Name newCluster @ '': '' @ adjust_message err)
           | Inr clusterChanges \<Rightarrow>
               bind (for_each clusterChanges (apply_change env c oldCluster)) (\<lambda>_. pass ()))))) t)
        (\<lambda>_. safe_after env s)"
      by (cases "ChangesForCluster (Spec old') (Spec (defaulted new))")
        (simp_all add: op_simps ct nt ot quiet_event [OF t] quiet_safe)
  qed (simp add: op_simps quiet_safe)
qed

lemma quiet_heaps:
  assumes "quiet_after env s t"
  shows "cassandra_heap s r = Some d \<Longrightarrow> \<exists>d'. cassandra_heap t r = Some d' \<and> identity_of d' = identity_of d"
    and "cluster_heap s r = Some c \<Longrightarrow> \<exists>c'. cluster_heap t r = Some c'"
  using assms unfolding quiet_after_def evolves_def by blast+

lemma goes_AddSnapshot:
  assumes "memory_ok env s" and "cassandra_heap s r = Some d"
  shows "goes (AddSnapshot_Execute env r s) (\<lambda>_. safe_after env s)"
  unfolding AddSnapshot_Execute_def goes_bind CreateCronJobForCluster_def
  by (rule goes_new_cluster [OF quiet_after_refl [OF assms(1)] assms(2)])
    (auto simp: op_simps quiet_safe split: sum.split intro!: quiet_call quiet_event)

lemma goes_AddSnapshotCleanup:
  assumes "memory_ok env s" and "cassandra_heap s r = Some d"
  shows "goes (AddSnapshotCleanup_Execute env r s) (\<lambda>_. safe_after env s)"
  unfolding AddSnapshotCleanup_Execute_def goes_bind CreateCronJobForCluster_def
  by (rule goes_new_cluster [OF quiet_after_refl [OF assms(1)] assms(2)])
    (auto simp: op_simps quiet_safe split: sum.split intro!: quiet_call quiet_event)

text \<open>Looking for a cron job: what is found has a container to replace.\<close>

lemma quiet_find:
  assumes "env_ok env" and "quiet_after env s t"
    and "\<And>r u. quiet_after env s u \<Longrightarrow> onward t u \<Longrightarrow>
      (\<forall>job. found_job r = Some job \<longrightarrow> ps_Containers (pt_Spec (cj_Template job)) \<noteq> []) \<Longrightarrow> Q r u"
  shows "goes (FindCronJobForCluster env d label t) Q"
proof (rule goes_does [OF does_FindCronJob [OF assms(1)]])
  fix r u es
  assume u: "onward t u" "trace u = trace t @ es"
    and R: "list_all neutral es \<and> (\<forall>job. found_job r = Some job \<longrightarrow> ps_Containers (pt_Spec (cj_Template job)) \<noteq> [])"
  have "quiet_after env s u" by (rule quiet_onward(1) [OF assms(2) u]) (use R in simp)
  with u R show "Q r u" by (intro assms(3)) simp_all
qed

lemma goes_DeleteSnapshot:
  assumes "env_ok env" and "memory_ok env s" and "cassandra_heap s r = Some d"
  shows "goes (DeleteSnapshot_Execute env r s) (\<lambda>_. safe_after env s)"
  unfolding DeleteSnapshot_Execute_def goes_bind goes_read_cassandra [OF assms(3)] DeleteCronJob_def
  by (rule quiet_find [OF assms(1) quiet_after_refl [OF assms(2)]])
    (auto simp: op_simps quiet_safe split: option.split intro!: quiet_call quiet_event)

lemma goes_DeleteSnapshotCleanup:
  assumes "env_ok env" and "memory_ok env s" and "cassandra_heap s r = Some d"
  shows "goes (DeleteSnapshotCleanup_Execute env r s) (\<lambda>_. safe_after env s)"
  unfolding DeleteSnapshotCleanup_Execute_def goes_bind goes_read_cassandra [OF assms(3)] DeleteCronJob_def
  by (rule quiet_find [OF assms(1) quiet_after_refl [OF assms(2)]])
    (auto simp: op_simps quiet_safe split: option.split intro!: quiet_call quiet_event)

end
