(* ===== verification/OperationSafety.thy ===== *)
theory OperationSafety
  imports OperationsCorrect
begin

text \<open>
  The remaining operations and the properties of all of them: an operation that runs on a sound
  memory never panics, leaves the memory sound, and never writes a stateful set while an earlier
  write of the same operation is still waited for.
\<close>

section \<open>Updates of snapshots\<close>

lemma quiet_find':
  assumes "env_ok env" and "memory_ok env s"
    and "\<And>r u. quiet_after env s u \<Longrightarrow> onward s u \<Longrightarrow>
      (\<forall>job. found_job r = Some job \<longrightarrow> ps_Containers (pt_Spec (cj_Template job)) \<noteq> []) \<Longrightarrow> Q r u"
  shows "goes (FindCronJobForCluster env d label s) Q"
  by (rule quiet_find [OF assms(1) quiet_after_refl [OF assms(2)]]) (use assms(3) in blast)

lemma goes_set_first_container:
  "ps_Containers (pt_Spec (cj_Template job)) \<noteq> [] \<Longrightarrow> (\<And>job'. Q job' s) \<Longrightarrow>
   goes (set_first_container ct job s) Q"
  by (auto simp: set_first_container_def neq_Nil_conv op_simps)

lemma goes_UpdateSnapshot:
  assumes env: "env_ok env" and ok: "memory_ok env s" and op: "op_ok s (UpdateSnapshotOperation c_ref n)"
  shows "goes (UpdateSnapshot_Execute env c_ref n s) (\<lambda>_. safe_after env s)"
proof -
  from op obtain c d q where c: "cluster_heap s c_ref = Some c" and d: "cassandra_heap s n = Some d"
    and q: "Spec_Snapshot (Spec d) = Some q" by auto
  have job: "goes (updateSnapshotJob env c n job t) (\<lambda>_. safe_after env s)"
    if t: "quiet_after env s t" "cassandra_heap t n = Some d"
      and "ps_Containers (pt_Spec (cj_Template job)) \<noteq> []" for job t
    unfolding updateSnapshotJob_def goes_bind read_snapshot_def goes_read_cassandra [OF t(2)] q goes_deref
      UpdateCronJob_def
    by (rule goes_set_first_container) (use that in \<open>auto intro!: quiet_call quiet_event quiet_safe
        simp: op_simps split: sum.split\<close>)
  show ?thesis
    unfolding UpdateSnapshot_Execute_def goes_bind goes_read_cluster [OF c]
    by (rule quiet_find' [OF env ok])
      (auto simp: op_simps quiet_safe onward_fields d split: option.split intro!: job)
qed

lemma goes_UpdateSnapshotCleanup:
  assumes env: "env_ok env" and ok: "memory_ok env s" and op: "op_ok s (UpdateSnapshotCleanupOperation c_ref n)"
  shows "goes (UpdateSnapshotCleanup_Execute env c_ref n s) (\<lambda>_. safe_after env s)"
proof -
  from op obtain c d q p where c: "cluster_heap s c_ref = Some c" and d: "cassandra_heap s n = Some d"
    and q: "Spec_Snapshot (Spec d) = Some q" and p: "Snapshot_RetentionPolicy q = Some p" by auto
  obtain ct where ct: "CreateSnapshotCleanupContainer c q = Inr ct"
    using p by (auto simp: CreateSnapshotCleanupContainer_def)
  have job: "goes (updateSnapshotCleanupJob env c n job t) (\<lambda>_. safe_after env s)"
    if t: "quiet_after env s t" "cassandra_heap t n = Some d"
      and "ps_Containers (pt_Spec (cj_Template job)) \<noteq> []" for job t
    unfolding updateSnapshotCleanupJob_def goes_bind read_snapshot_def goes_read_cassandra [OF t(2)] q
      goes_deref p ct eval_def sum.case goes_pass UpdateCronJob_def
    by (rule goes_set_first_container) (use that in \<open>auto intro!: quiet_call quiet_event quiet_safe
        simp: op_simps split: sum.split\<close>)
  show ?thesis
    unfolding UpdateSnapshotCleanup_Execute_def goes_bind goes_read_cluster [OF c]
    by (rule quiet_find' [OF env ok])
      (auto simp: op_simps quiet_safe onward_fields d split: option.split intro!: job)
qed

section \<open>Metrics and custom configuration\<close>

lemma goes_GatherMetrics:
  assumes "env_ok env" and "memory_ok env s" and "cluster_heap s c_ref = Some c"
  shows "goes (GatherMetrics_Execute env c_ref s) (\<lambda>_. safe_after env s)"
  unfolding GatherMetrics_Execute_def goes_bind goes_read_cluster [OF assms(3)]
  by (rule goes_UpdateMetrics [OF assms(1) quiet_after_refl [OF assms(2)]]) (rule quiet_safe)

lemma goes_racks:
  assumes "quiet_after env s t" and "\<And>rack. does (body rack) changed"
  shows "goes (for_each racks body t) (\<lambda>_. safe_after env s)"
proof (rule safe_changed [OF assms(1) does_for_each [where B = "\<lambda>_. changed" and Q = "\<lambda>_. changed"]])
  show "roll es (Some False) \<noteq> None" if "changed a es" for a :: "'c option" and es
    using that by (auto simp: changed_def)
qed (use assms(2) in \<open>auto intro: changed_append\<close>)

lemma goes_AddCustomConfig:
  assumes "env_ok env" and "memory_ok env s" and "cluster_heap s c_ref = Some c"
  shows "goes (AddCustomConfig_Execute env c_ref cm s) (\<lambda>_. safe_after env s)"
  unfolding AddCustomConfig_Execute_def goes_bind goes_seq goes_read_cluster [OF assms(3)] goes_pass
  by (rule quiet_event [OF quiet_after_refl [OF assms(2)]], rule goes_racks, assumption)
    (rule does_updateStatefulSet [OF assms(1) memory_ok_cluster [OF assms(2,3)]])

lemma goes_DeleteCustomConfig:
  assumes "env_ok env" and "memory_ok env s" and "cluster_heap s c_ref = Some c"
  shows "goes (DeleteCustomConfig_Execute env c_ref cm s) (\<lambda>_. safe_after env s)"
  unfolding DeleteCustomConfig_Execute_def goes_bind goes_seq goes_read_cluster [OF assms(3)] goes_pass
  by (rule quiet_event [OF quiet_after_refl [OF assms(2)]], rule goes_racks, assumption)
    (rule does_updateStatefulSet [OF assms(1) memory_ok_cluster [OF assms(2,3)]])

lemma goes_UpdateCustomConfig:
  assumes "env_ok env" and "memory_ok env s" and "cluster_heap s c_ref = Some c"
  shows "goes (UpdateCustomConfig_Execute env c_ref cm s) (\<lambda>_. safe_after env s)"
proof -
  have "does (patchStatefulSet env c ch) changed" for ch
    by (rule does_weaken [OF does_patchStatefulSet [OF assms(1) memory_ok_cluster [OF assms(2,3)]]]) blast
  then show ?thesis
    unfolding UpdateCustomConfig_Execute_def goes_bind goes_seq goes_read_cluster [OF assms(3)] goes_pass
    by (intro quiet_event [OF quiet_after_refl [OF assms(2)]] goes_racks)
qed

section \<open>Operations return\<close>

text \<open>
  An operation can only wait for ever for a stateful set. \<open>settles\<close> says that every stateful set
  the API server hands out ends its wait, applied or with an error.
\<close>

definition settles :: "'w Env \<Rightarrow> bool" where
  "settles env \<longleftrightarrow> (\<forall>req w sts d c s. fst (api_stateful_set env req w) = Inr sts \<longrightarrow>
     PollImmediateInfinite env d (statefulSetChangeApplied env c sts) s \<noteq> None)"

definition ends :: "('a, 'w) action \<Rightarrow> bool" where
  "ends m \<longleftrightarrow> (\<forall>s. m s \<noteq> Hangs)"

lemma ends_bind [intro]: "ends m \<Longrightarrow> (\<And>a. ends (f a)) \<Longrightarrow> ends (bind m f)"
  by (auto simp: ends_def bind_def split: outcome.split)

lemma ends_seq [intro]: "ends m \<Longrightarrow> ends n \<Longrightarrow> ends (seq m n)"
  unfolding seq_def by (rule ends_bind)

lemma ends_basic [intro]:
  "ends (pass a)" "ends (panic_with p)" "ends (gets g)" "ends (modify h)" "ends (perform e)"
  "ends (call srv req)" "ends (Eventf d ty reason msg)" "ends (Sleep env t)"
  by (auto simp: ends_def pass_def panic_with_def gets_def modify_def perform_def call_def Eventf_def
      Sleep_def Let_def split: prod.splits)

lemma ends_deref [intro]: "ends (deref v)"
  by (cases v) (auto simp: deref_def)

lemma ends_eval [intro]: "ends (eval v)"
  by (cases v) (auto simp: eval_def)

lemma ends_reads [intro]: "ends (read_cassandra r)" "ends (read_cluster c_ref)"
  unfolding read_cassandra_def read_cluster_def by blast+

lemma ends_memory [intro]:
  "ends (write_cassandra r d)" "ends (write_cluster r c)" "ends (set_online r b)" "ends (alloc_cluster c)"
  unfolding write_cassandra_def write_cluster_def set_online_def
  by (auto simp: ends_def alloc_cluster_def modify_def)

lemma ends_case [intro]:
  "ends n \<Longrightarrow> (\<And>x. ends (f x)) \<Longrightarrow> ends (case_option n f x)"
  "(\<And>x. ends (g x)) \<Longrightarrow> (\<And>y. ends (h y)) \<Longrightarrow> ends (case_sum g h z)"
  "ends m \<Longrightarrow> ends n \<Longrightarrow> ends (if b then m else n)"
  by (simp_all split: option.split sum.split)

lemma ends_for_each [intro]: "(\<And>x. ends (body x)) \<Longrightarrow> ends (for_each xs body)"
  by (induction xs) auto

lemma ends_returns: "returns m \<Longrightarrow> ends m"
  unfolding returns_def ends_def by (metis outcome.distinct(3))

lemma ends_Wait:
  assumes "\<And>d s. PollImmediateInfinite env d (statefulSetChangeApplied env c sts) s \<noteq> None"
  shows "ends (WaitUntilRackChangeApplied env c sts)"
proof -
  have "ends (poll_until_applied env d c sts)" for d
    using assms by (auto simp: ends_def poll_until_applied_def Let_def split: option.split prod.split)
  then show ?thesis
    unfolding WaitUntilRackChangeApplied_def recordWaitEvent_def by (intro ends_seq ends_bind ends_basic ends_deref)
qed

lemma ends_call_sts:
  assumes "settles env" and "\<And>err. ends (f (Inl err))"
    and "\<And>sts. (\<And>c. ends (WaitUntilRackChangeApplied env c sts)) \<Longrightarrow> ends (f (Inr sts))"
  shows "ends (bind (call (api_stateful_set env) req) f)"
proof -
  have "ends (f (fst (api_stateful_set env req w)))" for w
  proof (cases "fst (api_stateful_set env req w)")
    case (Inr sts)
    with assms(1) have "ends (WaitUntilRackChangeApplied env c sts)" for c
      unfolding settles_def by (intro ends_Wait) blast
    with Inr assms(3) show ?thesis by simp
  qed (use assms(2) in simp)
  then show ?thesis by (auto simp: ends_def bind_def call_def Let_def split: prod.split) (metis fst_conv)
qed

lemma ends_FindCronJob [intro]: "ends (FindCronJobForCluster env d label)"
  unfolding FindCronJobForCluster_def by blast

lemma ends_FindCustomConfigMap [intro]: "ends (FindCustomConfigMap env ns n)"
  unfolding FindCustomConfigMap_def by blast

lemma ends_new_cluster [intro]: "ends (new_cluster env r)"
  unfolding new_cluster_def by (intro ends_bind ends_reads) (auto split: prod.split)

lemma ends_copy_into [intro]: "ends (copy_into env c_ref r)"
  unfolding copy_into_def by (intro ends_bind ends_reads) (auto split: prod.split)

lemma ends_registerStatefulSet:
  assumes "settles env"
  shows "ends (registerStatefulSet env c rack cm)"
proof (cases "createStatefulSetForRack c rack cm")
  case (Inl p)
  then show ?thesis
    by (simp add: ends_def registerStatefulSet_def CreateStatefulSetForRack_def bind_def eval_def panic_with_def)
next
  case (Inr sts)
  have eq: "CreateStatefulSetForRack env c rack cm =
      call (api_stateful_set env) (CreateStatefulSet (Cluster_Namespace c) sts)"
    by (simp add: fun_eq_iff CreateStatefulSetForRack_def Inr bind_def eval_def pass_def)
  show ?thesis
    unfolding registerStatefulSet_def eq by (rule ends_call_sts [OF assms]) auto
qed

lemma ends_updateStatefulSet:
  assumes "settles env"
  shows "ends (updateStatefulSet env c cm rack action)"
  unfolding updateStatefulSet_def GetStatefulSetForRack_def UpdateStatefulSet_def
  by (rule ends_call_sts [OF assms]; (simp only: sum.case)?; (rule ends_call_sts [OF assms])?) auto

lemma ends_patchStatefulSet: "settles env \<Longrightarrow> ends (patchStatefulSet env c ch)"
  unfolding patchStatefulSet_def PatchStatefulSet_def by (erule ends_call_sts) auto

lemma ends_apply_change: "settles env \<Longrightarrow> ends (apply_change env c old ch)"
  unfolding apply_change_def
  by (cases "ChangeType ch") (auto intro: ends_patchStatefulSet ends_registerStatefulSet)

lemmas ends_rules = ends_bind ends_seq ends_case ends_basic ends_deref ends_eval ends_reads ends_memory
  ends_for_each ends_FindCronJob ends_FindCustomConfigMap ends_new_cluster ends_copy_into

lemma ends_snapshot_updates:
  "ends (updateSnapshotJob env c n job)" "ends (updateSnapshotCleanupJob env c n job)"
proof -
  have 1: "ends (set_first_container ct j)" for ct j
    unfolding set_first_container_def by (auto split: list.split)
  have 2: "ends (read_snapshot n)" unfolding read_snapshot_def by blast
  have 3: "ends (UpdateCronJob env j)" for j unfolding UpdateCronJob_def by blast
  show "ends (updateSnapshotJob env c n job)"
    unfolding updateSnapshotJob_def by (intro ends_bind 1 2 3 ends_case ends_basic)
  show "ends (updateSnapshotCleanupJob env c n job)"
    unfolding updateSnapshotCleanupJob_def
    by (intro ends_bind 1 2 3 ends_case ends_basic ends_deref ends_eval)
qed

lemma ends_AddCluster:
  assumes "settles env"
  shows "ends (AddCluster_Execute env r)"
proof -
  have "ends (create_resources env c cm)" for c cm
    unfolding create_resources_def CreateServiceForCluster_def registerStatefulSets_def
    by (intro ends_rules ends_registerStatefulSet [OF assms])
  moreover have "ends (FindExistingResourcesFor env c)" for c
    unfolding FindExistingResourcesFor_def serviceForCluster_def statefulSetsForCluster_def
      podsForCluster_def Let_def by (intro ends_rules)
  ultimately show ?thesis
    unfolding AddCluster_Execute_def by (intro ends_rules)
qed

lemma ends_operation:
  assumes "env_ok env" and "settles env"
  shows "ends (Execute_operation env op)"
proof -
  note metrics = ends_returns [OF returns_UpdateMetrics [OF env_okD(3) [OF assms(1)]]]
    ends_returns [OF returns_DeleteMetrics]
  note racks = ends_updateStatefulSet [OF assms(2)] ends_patchStatefulSet [OF assms(2)]
    ends_apply_change [OF assms(2)]
  have d: "ends (DeleteCluster_Execute env r)" for r
    unfolding DeleteCluster_Execute_def DeleteStatefulSetsForCluster_def DeleteServiceForCluster_def
    by (intro ends_rules metrics)
  have u: "ends (UpdateCluster_Execute env r x)" for r x
    unfolding UpdateCluster_Execute_def by (intro ends_rules racks)
  have c: "ends (AddCustomConfig_Execute env r m)" "ends (UpdateCustomConfig_Execute env r m)"
    "ends (DeleteCustomConfig_Execute env r m)" for r m
    unfolding AddCustomConfig_Execute_def UpdateCustomConfig_Execute_def DeleteCustomConfig_Execute_def
    by (intro ends_rules racks)+
  have s: "ends (AddSnapshot_Execute env r)" "ends (AddSnapshotCleanup_Execute env r)"
    "ends (DeleteSnapshot_Execute env r)" "ends (DeleteSnapshotCleanup_Execute env r)" for r
    unfolding AddSnapshot_Execute_def AddSnapshotCleanup_Execute_def DeleteSnapshot_Execute_def
      DeleteSnapshotCleanup_Execute_def CreateCronJobForCluster_def DeleteCronJob_def
    by (intro ends_rules)+
  have us: "ends (UpdateSnapshot_Execute env r n)" "ends (UpdateSnapshotCleanup_Execute env r n)" for r n
    unfolding UpdateSnapshot_Execute_def UpdateSnapshotCleanup_Execute_def
    by (intro ends_rules ends_snapshot_updates)+
  show ?thesis
    by (cases op) (simp_all add: d u c s us ends_AddCluster assms GatherMetrics_Execute_def ends_bind metrics ends_reads)
qed

section \<open>The property of all operations\<close>

lemma safe_operation:
  assumes "env_ok env" and "memory_ok env s" and "op_ok s op"
  shows "goes (Execute_operation env op s) (\<lambda>_. safe_after env s)"
  using assms
  by (cases op)
    (auto intro: goes_AddCluster goes_DeleteCluster goes_UpdateCluster goes_AddSnapshot
      goes_AddSnapshotCleanup goes_DeleteSnapshot goes_DeleteSnapshotCleanup goes_UpdateSnapshot
      goes_UpdateSnapshotCleanup goes_GatherMetrics goes_AddCustomConfig goes_UpdateCustomConfig
      goes_DeleteCustomConfig simp del: op_ok.simps(3,8,9))

text \<open>
  (C21) An operation on a sound memory always returns, provided every wait for a stateful set the
  API server hands out ends: it does not panic, every cluster in memory stays well formed and
  registered under its own name, no cluster or definition disappears or changes its name, and the
  operation never writes a stateful set while one it changed before has not been seen applied.
\<close>

theorem operation_returns_safely:
  assumes "env_ok env" and "settles env" and "memory_ok env s" and "op_ok s op"
  shows "\<exists>t. Execute_operation env op s = Done () t \<and> safe_after env s t"
proof -
  have "goes (Execute_operation env op s) (\<lambda>_. safe_after env s)"
    by (rule safe_operation [OF assms(1,3,4)])
  moreover have "Execute_operation env op s \<noteq> Hangs"
    using ends_operation [OF assms(1,2)] by (simp add: ends_def)
  ultimately show ?thesis by (cases "Execute_operation env op s") (auto simp: goes_def)
qed

text \<open>
  The same without any assumption on the waits: an operation never panics, and if it returns
  the memory is sound and its changes were rolled out one at a time.
\<close>

theorem operation_never_panics:
  assumes "env_ok env" and "memory_ok env s" and "op_ok s op"
  shows "(\<nexists>p t. Execute_operation env op s = Panicked p t) \<and>
    (\<forall>t. Execute_operation env op s = Done () t \<longrightarrow> safe_after env s t)"
  using safe_operation [OF assms] by (auto simp: goes_def)

section \<open>Adding a cluster\<close>

lemma new_cluster_run:
  assumes "cassandra_heap s r = Some d"
  shows "valid_definition (cron_ok env) d \<Longrightarrow> new_cluster env r s =
      Done (Inr \<lparr>cdef = stored d, Online = False\<rparr>) (s\<lparr>cassandra_heap := (cassandra_heap s)(r \<mapsto> defaulted d)\<rparr>)"
    and "\<not> valid_definition (cron_ok env) d \<Longrightarrow> \<exists>err d'. new_cluster env r s =
      Done (Inl err) (s\<lparr>cassandra_heap := (cassandra_heap s)(r \<mapsto> d')\<rparr>)"
  using assms New_valid [of "cron_ok env" d] New_invalid [of "cron_ok env" d]
  by (auto simp: new_cluster_def read_cassandra_def bind_def seq_def gets_def deref_def pass_def
      write_cassandra_def modify_def)

lemma goes_Done: "goes (Done a s) Q \<longleftrightarrow> Q a s"
  by (simp add: goes_def)

text \<open>What a cluster that was added is, and what it took.\<close>

definition cluster_added :: "Cassandra \<Rightarrow> 'w sys \<Rightarrow> 'w sys \<Rightarrow> bool" where
  "cluster_added d s t \<longleftrightarrow>
     (\<exists>r c es. clusters t = fmupd (QualifiedName d) r (clusters s) \<and> cluster_heap s r = None \<and>
        cluster_heap t = (cluster_heap s)(r \<mapsto> c) \<and> cdef c = stored d \<and> trace t = trace s @ es \<and>
        (writes es = [] \<and> Online c \<or>
         (\<exists>ys. prefix ys (Racks (Spec d)) \<and> writes es = cluster_writes c ys \<and>
            (Online c \<longrightarrow> ys = Racks (Spec d)))))"

lemma Cluster_QualifiedName_stored: "Cluster_QualifiedName \<lparr>cdef = stored d, Online = b\<rparr> = QualifiedName d"
  by (simp add: Cluster_QualifiedName_def QualifiedName_def)

lemma goes_create_or_skip:
  assumes env: "env_ok env" and wf: "wf_cluster ok c"
    and "\<And>b u es. onward t u \<Longrightarrow> trace u = trace t @ es \<Longrightarrow>
      writes es = [] \<and> b \<or> (\<exists>ys. prefix ys (Cluster_Racks c) \<and> writes es = cluster_writes c ys \<and>
        (b \<longrightarrow> ys = Cluster_Racks c)) \<Longrightarrow> Q b u"
  shows "goes (bind (FindExistingResourcesFor env c) (\<lambda>found.
      if length found > 0 then pass True else create_resources env c cm) t) Q"
proof -
  have "does (bind (FindExistingResourcesFor env c) (\<lambda>found.
      if length found > 0 then pass True else create_resources env c cm))
    (\<lambda>b es. writes es = [] \<and> b \<or> (\<exists>ys. prefix ys (Cluster_Racks c) \<and> writes es = cluster_writes c ys \<and>
        (b \<longrightarrow> ys = Cluster_Racks c)))"
  proof (rule does_bind [OF reads_FindExistingResourcesFor])
    fix found :: "string list" and es assume es: "list_all neutral es"
    show "does (if length found > 0 then pass True else create_resources env c cm)
      (\<lambda>b fs. writes (es @ fs) = [] \<and> b \<or> (\<exists>ys. prefix ys (Cluster_Racks c) \<and>
        writes (es @ fs) = cluster_writes c ys \<and> (b \<longrightarrow> ys = Cluster_Racks c)))"
      by (cases found) (auto simp: es intro: does_pass does_weaken [OF does_create_resources [OF env wf]])
  qed
  then show ?thesis by (rule goes_does) (rule assms(3))
qed

lemma goes_AddCluster_effects:
  assumes "env_ok env" and "memory_ok env s" and "cassandra_heap s r = Some d"
  shows "goes (AddCluster_Execute env r s) (\<lambda>_ t.
    if valid_definition (cron_ok env) d then cluster_added d s t
    else clusters t = clusters s \<and> cluster_heap t = cluster_heap s \<and>
      (\<exists>es. trace t = trace s @ es \<and> writes es = []))"
  unfolding AddCluster_Execute_def goes_bind goes_read_cassandra [OF assms(3)]
proof (rule goes_does [OF reads_FindCustomConfigMap])
  fix cm t es
  assume t: "onward s t" "trace t = trace s @ es" "list_all neutral es"
  then have dt: "cassandra_heap t r = Some d" using assms(3) by (simp add: onward_fields)
  let ?rest = "\<lambda>a. case a of Inl err \<Rightarrow> pass ()
       | Inr c \<Rightarrow>
           bind (alloc_cluster c) (\<lambda>c_ref.
           seq (modify (\<lambda>s. s\<lparr>clusters := fmupd (Cluster_QualifiedName c) c_ref (clusters s)\<rparr>))
          (bind (FindExistingResourcesFor env c) (\<lambda>foundResources.
           bind (if length foundResources > 0 then pass True else create_resources env c cm) (\<lambda>go_online.
             if go_online then set_online c_ref True else pass ()))))"
  let ?Q = "\<lambda>_ t. if valid_definition (cron_ok env) d then cluster_added d s t
    else clusters t = clusters s \<and> cluster_heap t = cluster_heap s \<and>
      (\<exists>es. trace t = trace s @ es \<and> writes es = [])"
  show "goes (new_cluster env r t) (\<lambda>a u. goes (?rest a u) ?Q)"
  proof (cases "valid_definition (cron_ok env) d")
    case False
    from new_cluster_run(2) [OF dt False] t False show ?thesis
      by (auto simp: goes_Done op_simps onward_fields)
  next
    case True
    let ?c = "\<lparr>cdef = stored d, Online = False\<rparr>"
    have wf: "wf_cluster (cron_ok env) ?c"
      using wf_cluster_stored [OF True, of zero_Cluster] by (simp add: zero_Cluster_def)
    have fresh: "cluster_heap s (next_cluster s) = None"
      using assms(2) unfolding memory_ok_def by (meson less_irrefl not_Some_eq)
    have racks: "Cluster_Racks ?c = Racks (Spec d)" by (simp add: Cluster_Racks_def)
    have assoc: "bind m (\<lambda>a. bind (f a) g) = bind (bind m f) g"
      for m :: "('x, 'a) action" and f :: "'x \<Rightarrow> (bool, 'a) action" and g :: "bool \<Rightarrow> (unit, 'a) action"
      by (auto simp: fun_eq_iff bind_def split: outcome.split)
    show ?thesis
      unfolding new_cluster_run(1) [OF dt True] goes_Done sum.case goes_bind [of "alloc_cluster c" for c]
        goes_seq goes_alloc goes_modify assoc
      unfolding goes_bind [of "bind m f" g for m f g]
    proof (rule goes_create_or_skip [OF assms(1) wf], goal_cases)
      case (1 b u fs)
      then have u: "clusters u = fmupd (QualifiedName d) (next_cluster s) (clusters s)"
        "cluster_heap u = (cluster_heap s)(next_cluster s \<mapsto> ?c)" "trace u = trace s @ es @ fs"
        using t by (simp_all add: onward_fields Cluster_QualifiedName_stored)
      have "cluster_added d s (u\<lparr>cluster_heap := (cluster_heap s)(next_cluster s \<mapsto> ?c\<lparr>Online := b\<rparr>)\<rparr>)"
        unfolding cluster_added_def
        using 1(3) t(3) by (intro exI [of _ "next_cluster s"] exI [of _ "?c\<lparr>Online := b\<rparr>"] exI [of _ "es @ fs"])
          (simp add: u fresh racks cluster_writes_def Cluster_Namespace_def Cluster_Name_def)
      moreover have "u\<lparr>cluster_heap := (cluster_heap s)(next_cluster s \<mapsto> ?c)\<rparr> = u"
        by (simp add: u(2) [symmetric])
      ultimately show ?case
        using True by (cases b) (simp_all add: op_simps u(2) onward_fields(3) [OF t(1)])
    qed
  qed
qed


section \<open>Updating a cluster\<close>

text \<open>The API server accepts every stateful set and always reports a status.\<close>

definition server_works :: "'w Env \<Rightarrow> bool" where
  "server_works env \<longleftrightarrow> (\<forall>req w. (\<exists>sts. fst (api_stateful_set env req w) = Inr sts) \<and>
     (\<exists>st. fst (api_status env req w) = Inr st))"

definition no_error :: "('e option, 'w) action \<Rightarrow> bool" where
  "no_error m \<longleftrightarrow> (\<forall>s r t. m s = Done r t \<longrightarrow> r = None)"

lemma no_error_after: "(\<And>a. no_error (f a)) \<Longrightarrow> no_error (bind m f)"
  by (auto simp: no_error_def bind_def split: outcome.splits)

lemma no_error_pass: "no_error (pass None)"
  by (simp add: no_error_def pass_def)

lemma no_error_call_sts:
  assumes "server_works env" and "\<And>sts. no_error (f (Inr sts))"
  shows "no_error (bind (call (api_stateful_set env) req) f)"
proof -
  have "no_error (f (fst (api_stateful_set env req w)))" for w
    using assms unfolding server_works_def by (metis (full_types))
  then show ?thesis
    by (auto simp: no_error_def bind_def call_def Let_def split: prod.splits) (metis fst_conv)
qed

lemma no_error_Wait:
  assumes "poll_ok env" and "server_works env"
  shows "no_error (WaitUntilRackChangeApplied env c sts)"
proof -
  have never: "fst (statefulSetChangeApplied env c sts s) \<noteq> Inl err" for s err
  proof -
    obtain st w where "api_status env (status_request sts) (world s) = (Inr st, w)"
      using assms(2) unfolding server_works_def by (metis prod.collapse)
    then show ?thesis by (simp add: statefulSetChangeApplied_def status_request_def Let_def)
  qed
  have "r = None" if "polls (pause env d) (statefulSetChangeApplied env c sts) s r t" for d s r t
    using that by induction (use never in \<open>metis fst_conv\<close>, simp_all)
  then have "no_error (poll_until_applied env d c sts)" for d
    using poller.poll_sound [OF poll_okD [OF assms(1), of d]]
    by (fastforce simp: no_error_def poll_until_applied_def Let_def split: option.splits prod.splits)
  then show ?thesis
    unfolding WaitUntilRackChangeApplied_def seq_def by (intro no_error_after)
qed

lemma no_error_for_each: "(\<And>x. no_error (body x)) \<Longrightarrow> no_error (for_each xs body)"
proof (induction xs)
  case (Cons x xs)
  then have "no_error (for_each xs body)" "no_error (body x)" by blast+
  then show ?case unfolding no_error_def for_each.simps
    by (auto simp: bind_def split: outcome.splits option.splits) blast
qed (simp add: no_error_pass)

lemma no_error_apply_change:
  assumes "poll_ok env" and "server_works env"
  shows "no_error (apply_change env c old ch)"
proof -
  note wait = no_error_Wait [OF assms] and sts = no_error_call_sts [OF assms(2)]
  have 1: "no_error (patchStatefulSet env c ch)"
    unfolding patchStatefulSet_def PatchStatefulSet_def by (rule sts) (simp add: wait)
  have 2: "no_error (registerStatefulSet env c rack cm)" for rack cm
  proof (cases "createStatefulSetForRack c rack cm")
    case (Inr x)
    then have eq: "CreateStatefulSetForRack env c rack cm =
        call (api_stateful_set env) (CreateStatefulSet (Cluster_Namespace c) x)"
      by (simp add: fun_eq_iff CreateStatefulSetForRack_def bind_def eval_def pass_def)
    show ?thesis
      unfolding registerStatefulSet_def eq
      by (rule sts) (simp add: no_error_after no_error_pass)
  qed (simp add: no_error_def registerStatefulSet_def CreateStatefulSetForRack_def bind_def eval_def panic_with_def)
  show ?thesis
    unfolding apply_change_def seq_def
    by (cases "ChangeType ch") (auto intro: 1 2 no_error_after no_error_pass)
qed

text \<open>What an update writes: the changes of the new definition in order, cut short by an error only.\<close>

definition update_effects :: "'w Env \<Rightarrow> Cluster \<Rightarrow> Cassandra \<Rightarrow> CassandraSpec \<Rightarrow> effect list \<Rightarrow> bool" where
  "update_effects env c old new es \<longleftrightarrow>
     (case ChangesForCluster (Spec old) new of
        Inl err \<Rightarrow> (\<exists>msg. es = [Event (QualifiedName old) EventTypeWarning InvalidChangeEvent msg])
      | Inr changes \<Rightarrow> (\<exists>ys. prefix ys changes \<and> writes es = concat (map (expected_write c) ys) \<and>
          (server_works env \<longrightarrow> ys = changes)))"


text \<open>
  (C30) An update that changes a field that may not change is refused, with an event that
  says that the old value stays in use, and nothing is written; but the cluster in memory has the
  refused definition by then, and later operations build on it.
\<close>

theorem refused_update_is_kept:
  assumes "cluster_heap s c_ref = Some c" and "cassandra_heap s (OldCluster u) = Some old"
    and "cassandra_heap s (NewCluster u) = Some new" and "OldCluster u \<noteq> NewCluster u"
    and "valid_definition (cron_ok env) new" and "forbidden_change (Spec old) (Spec (defaulted new))"
  shows "\<exists>t msg. UpdateCluster_Execute env c_ref u s = Done () t \<and>
    trace t = trace s @ [Event (QualifiedName old) EventTypeWarning InvalidChangeEvent msg] \<and>
    cluster_heap t c_ref = Some (c\<lparr>cdef := stored new\<rparr>)"
proof -
  obtain err where "ChangesForCluster (Spec old) (Spec (defaulted new)) = Inl err"
    using assms(6) ChangesForCluster_forbidden by blast
  with assms show ?thesis
    by (simp add: UpdateCluster_Execute_def copy_into_def read_cluster_def read_cassandra_def bind_def
        seq_def gets_def deref_def pass_def write_cassandra_def write_cluster_def modify_def
        CopyInto_valid Eventf_def perform_def)
qed

section \<open>Witnesses\<close>

text \<open>
  The sample world with an API server that fills in what a client leaves out of a stateful set: its
  generation and a replica count of one.
\<close>

definition server_defaults :: "StatefulSet \<Rightarrow> StatefulSet" where
  "server_defaults sts = sts\<lparr>sts_Generation := 1,
     sts_Replicas := Some (case sts_Replicas sts of None \<Rightarrow> 1 | Some n \<Rightarrow> n)\<rparr>"

definition server_env :: "nat Env" where
  "server_env = sample_env\<lparr>api_stateful_set := (\<lambda>r w. (Inr (server_defaults (case r of
     CreateStatefulSet ns sts \<Rightarrow> sts | UpdateStatefulSetReq ns sts \<Rightarrow> sts | _ \<Rightarrow> sample_sts)), w))\<rparr>"

lemma server_defaults_simps [simp]:
  "sts_Generation (server_defaults sts) = 1" "sts_Replicas (server_defaults sts) \<noteq> None"
  by (simp_all add: server_defaults_def)

lemma server_env_fields [simp]:
  "cron_ok server_env = (\<lambda>_. True)" "api_status server_env r w = (Inr (sample_status w), w)"
  "PollImmediateInfinite server_env = PollImmediateInfinite sample_env"
  by (simp_all add: server_env_def sample_env_def)

lemma server_sts: "\<exists>sts'. fst (api_stateful_set server_env req w) = Inr (server_defaults sts')"
  by (auto simp: server_env_def)

lemma server_works_server_env: "server_works server_env"
  unfolding server_works_def using server_sts by fastforce

lemma server_env_ok: "env_ok server_env"
proof -
  have "poll_ok server_env"
  proof -
    have "pause server_env d = pause sample_env d" for d
      by (simp add: fun_eq_iff pause_def server_env_def)
    with sample_poll_ok show ?thesis by (simp add: poll_ok_def)
  qed
  moreover have "range_ok server_env" "pods_ok server_env" "Intn_ok server_env"
    using sample_env_ok by (simp_all add: range_ok_def pods_ok_def Intn_ok_def server_env_def)
  moreover have "fst (api_cron_jobs server_env req w) = Inr jobs \<Longrightarrow> jobs = []" for req w jobs
    by (simp add: server_env_def sample_env_def)
  ultimately show ?thesis
    unfolding env_ok_def using server_sts by (metis empty_iff list.set(1) server_defaults_simps(2) sum.sel(2))
qed

lemma server_settles: "settles server_env"
proof -
  have "PollImmediateInfinite server_env d (statefulSetChangeApplied server_env c sts) s \<noteq> None"
    if "sts_Generation sts = 1" for d c sts s
  proof -
    let ?check = "statefulSetChangeApplied server_env c sts"
    let ?pause = "\<lambda>s::nat sys. s\<lparr>world := Suc (world s)\<rparr>"
    let ?st = "\<lambda>k. ((\<lambda>s. ?pause (snd (?check s))) ^^ k) s"
    have applied: "change_applied sts (sample_status w) \<longleftrightarrow> 3 \<le> w" for w
      using that by (simp add: change_applied_def sample_status_def)
    have check: "fst (?check t) = Inr (3 \<le> world t)" "world (snd (?check t)) = world t" for t
      by (simp_all add: statefulSetChangeApplied_def Let_def applied)
    have world: "world (?st k) = world s + k" for k
      by (induction k) (simp_all add: check)
    have "poll_ref ?pause ?check (?st 0) = Some (None, snd (?check (?st (3 - world s))))"
    proof (rule ref_poll.poll_returns)
      fix k assume "k < 3 - world s"
      then have "fst (?check (?st k)) = Inr False" using check(1) [of "?st k"] by (simp add: world)
      then show "\<exists>s'. ?check (?st k) = (Inr False, s') \<and> ?st (Suc k) = ?pause s'"
        by (intro exI [of _ "snd (?check (?st k))"]) (simp add: prod_eq_iff)
    next
      have "fst (?check (?st (3 - world s))) = Inr True"
        using check(1) [of "?st (3 - world s)"] by (simp add: world)
      then show "?check (?st (3 - world s)) = (Inr True, snd (?check (?st (3 - world s))))"
        by (simp add: prod_eq_iff)
    qed
    moreover have "PollImmediateInfinite server_env d = poll_ref ?pause" by (simp add: sample_env_def)
    ultimately show ?thesis by simp
  qed
  then show ?thesis
    unfolding settles_def using server_sts by (metis server_defaults_simps(1) sum.sel(2))
qed

lemma sample_sys_ok: "memory_ok env sample_sys" "cassandra_heap sample_sys 0 = Some sample_definition"
  by (simp_all add: memory_ok_def sample_sys_def)

lemma operation_returns_safely_witness:
  "\<exists>t. Execute_operation server_env (AddClusterOperation 0) sample_sys = Done () t \<and>
     safe_after server_env sample_sys t"
  by (rule operation_returns_safely [OF server_env_ok server_settles sample_sys_ok(1)])
    (simp add: sample_sys_ok)

lemma operation_never_panics_witness:
  "\<nexists>p t. Execute_operation server_env (DeleteSnapshotOperation 0) sample_sys = Panicked p t"
  using operation_never_panics [OF server_env_ok sample_sys_ok(1), of "DeleteSnapshotOperation 0"]
  by (simp add: sample_sys_ok)

lemma sample_add_returns: "\<exists>t. AddCluster_Execute server_env 0 sample_sys = Done () t"
proof -
  have "goes (AddCluster_Execute server_env 0 sample_sys) (\<lambda>_. safe_after server_env sample_sys)"
    by (rule goes_AddCluster [OF server_env_ok sample_sys_ok])
  with ends_AddCluster [OF server_settles, of 0] show ?thesis
    unfolding ends_def goes_def by (auto split: outcome.splits)
qed


text \<open>
  A cluster in memory with its definition and two new ones: another rack layout, and the same in
  another data centre.
\<close>

definition update_sys :: "nat sys" where
  "update_sys = sample_sys\<lparr>
     clusters := fmupd ''mynamespace.mycluster'' 0 fmempty,
     cluster_heap := [0 \<mapsto> \<lparr>cdef = stored sample_definition, Online = True\<rparr>],
     next_cluster := 1,
     cassandra_heap := [0 \<mapsto> sample_definition,
       5 \<mapsto> sample_definition\<lparr>Spec := (Spec sample_definition)
         \<lparr>Racks := [sample_rack, sample_rack\<lparr>Rack_Name := ''b''\<rparr>]\<rparr>\<rparr>,
       6 \<mapsto> sample_definition\<lparr>Spec := (Spec sample_definition)\<lparr>DC := ''elsewhere''\<rparr>\<rparr>]\<rparr>"

lemma update_sys_fields:
  "cluster_heap update_sys 0 = Some \<lparr>cdef = stored sample_definition, Online = True\<rparr>"
  "cassandra_heap update_sys 0 = Some sample_definition"
  "cassandra_heap update_sys 5 = Some (sample_definition\<lparr>Spec := (Spec sample_definition)
         \<lparr>Racks := [sample_rack, sample_rack\<lparr>Rack_Name := ''b''\<rparr>]\<rparr>\<rparr>)"
  "cassandra_heap update_sys 6 = Some (sample_definition\<lparr>Spec := (Spec sample_definition)\<lparr>DC := ''elsewhere''\<rparr>\<rparr>)"
  by (simp_all add: update_sys_def)

lemma update_sys_ok: "memory_ok server_env update_sys"
  using wf_cluster_stored [OF sample_definition_valid, of "\<lparr>cdef = stored sample_definition, Online = True\<rparr>"]
    Cluster_QualifiedName_stored [of sample_definition True]
  by (auto simp: memory_ok_def update_sys_def sample_sys_def QualifiedName_def sample_definition_def
      split: if_splits)


lemma refused_update_is_kept_witness:
  "\<exists>t c. UpdateCluster_Execute server_env 0 \<lparr>OldCluster = 0, NewCluster = 6\<rparr> update_sys = Done () t \<and>
     cluster_heap t 0 = Some c \<and> DC (Spec (cdef c)) = ''elsewhere''"
proof -
  let ?new = "sample_definition\<lparr>Spec := (Spec sample_definition)\<lparr>DC := ''elsewhere''\<rparr>\<rparr>"
  have valid: "valid_definition (cron_ok server_env) ?new"
    by (simp add: valid_definition_def sample_definition_def rack_ok_def snapshot_ok_def
      retention_ok_def not_negative_def mergeable_def)
  have "forbidden_change (Spec sample_definition) (Spec (defaulted ?new))"
    by (simp add: forbidden_change_def) (simp add: sample_definition_def)
  with refused_update_is_kept [OF update_sys_fields(1), where env = server_env and new = ?new
      and u = "\<lparr>OldCluster = 0, NewCluster = 6\<rparr>" and old = sample_definition] valid
  show ?thesis by (auto simp: update_sys_fields)
qed

end
