(* ===== verification/Receiver.thy ===== *)
theory Receiver
  imports OperationSafety
begin

text \<open>
  From events to operations, after
  \<^verbatim>\<open>cassandra-operator/pkg/operator/operations/receiver.go\<close>: which operations an event triggers, and
  their execution in order. An event carries its kind as a string and its data as an
  \<open>interface{}\<close>, so a handler that asserts another type panics.
\<close>

section \<open>Events\<close>

definition AddCluster :: string where "AddCluster = ''ADD_CLUSTER''"
definition DeleteCluster :: string where "DeleteCluster = ''DELETE_CLUSTER''"
definition UpdateCluster :: string where "UpdateCluster = ''UPDATE_CLUSTER''"
definition GatherMetrics :: string where "GatherMetrics = ''GATHER_METRICS''"
definition AddCustomConfig :: string where "AddCustomConfig = ''ADD_CUSTOM_CONFIG''"
definition UpdateCustomConfig :: string where "UpdateCustomConfig = ''UPDATE_CUSTOM_CONFIG''"
definition DeleteCustomConfig :: string where "DeleteCustomConfig = ''DELETE_CUSTOM_CONFIG''"

lemmas kind_defs = AddCluster_def DeleteCluster_def UpdateCluster_def GatherMetrics_def
  AddCustomConfig_def UpdateCustomConfig_def DeleteCustomConfig_def

datatype event_data =
    CassandraData ref
  | ClusterUpdateData ClusterUpdate
  | ClusterData ref
  | ConfigMapData ConfigMap

record Event =
  Kind :: string
  Key :: string
  Event_Data :: event_data

text \<open>The type assertions on the data.\<close>

definition as_Cassandra :: "event_data \<Rightarrow> (ref, 'w) action" where
  "as_Cassandra data = (case data of CassandraData r \<Rightarrow> pass r | _ \<Rightarrow> panic_with TypeAssertion)"

definition as_ClusterUpdate :: "event_data \<Rightarrow> (ClusterUpdate, 'w) action" where
  "as_ClusterUpdate data = (case data of ClusterUpdateData u \<Rightarrow> pass u | _ \<Rightarrow> panic_with TypeAssertion)"

definition as_Cluster :: "event_data \<Rightarrow> (ref, 'w) action" where
  "as_Cluster data = (case data of ClusterData r \<Rightarrow> pass r | _ \<Rightarrow> panic_with TypeAssertion)"

definition as_ConfigMap :: "event_data \<Rightarrow> (ConfigMap, 'w) action" where
  "as_ConfigMap data = (case data of ConfigMapData m \<Rightarrow> pass m | _ \<Rightarrow> panic_with TypeAssertion)"

section \<open>The operations of an event\<close>

text \<open>Without a snapshot, with one, and with one that is cleaned up.\<close>

definition operationsForAddCluster :: "ref \<Rightarrow> (operation list, 'w) action" where
  "operationsForAddCluster cassandra =
     bind (read_cassandra cassandra) (\<lambda>d. pass (AddClusterOperation cassandra #
       (case Spec_Snapshot (Spec d) of
          None \<Rightarrow> []
        | Some snapshot \<Rightarrow> AddSnapshotOperation cassandra #
            (if HasRetentionPolicyEnabled snapshot then [AddSnapshotCleanupOperation cassandra] else []))))"

definition operationsForDeleteCluster :: "ref \<Rightarrow> (operation list, 'w) action" where
  "operationsForDeleteCluster cassandra =
     bind (read_cassandra cassandra) (\<lambda>d. pass (DeleteClusterOperation cassandra #
       (case Spec_Snapshot (Spec d) of
          None \<Rightarrow> []
        | Some snapshot \<Rightarrow> DeleteSnapshotOperation cassandra #
            (if HasRetentionPolicyEnabled snapshot then [DeleteSnapshotCleanupOperation cassandra] else []))))"

text \<open>What an update does to the snapshot jobs; comparing two snapshots may panic.\<close>

definition snapshot_operations ::
    "ref \<Rightarrow> ref \<Rightarrow> Snapshot option \<Rightarrow> Snapshot option \<Rightarrow> panic + operation list" where
  "snapshot_operations c newCluster old new =
     (case (new, old) of
        (None, Some o') \<Rightarrow> Inr (DeleteSnapshotOperation newCluster #
          (if HasRetentionPolicyEnabled o' then [DeleteSnapshotCleanupOperation newCluster] else []))
      | (Some n, Some o') \<Rightarrow>
          (case SnapshotPropertiesUpdated o' n of
             Inl p \<Rightarrow> Inl p
           | Inr updated \<Rightarrow>
               (case SnapshotCleanupPropertiesUpdated o' n of
                  Inl p \<Rightarrow> Inl p
                | Inr cleanup_updated \<Rightarrow> Inr (
                    (if \<not> HasRetentionPolicyEnabled n \<and> HasRetentionPolicyEnabled o'
                     then [DeleteSnapshotCleanupOperation newCluster] else []) @
                    (if updated then [UpdateSnapshotOperation c newCluster] else []) @
                    (if cleanup_updated then [UpdateSnapshotCleanupOperation c newCluster] else []))))
      | (Some n, None) \<Rightarrow> Inr (AddSnapshotOperation newCluster #
          (if HasRetentionPolicyEnabled n then [AddSnapshotCleanupOperation newCluster] else []))
      | (None, None) \<Rightarrow> Inr [])"

definition operationsForUpdateCluster :: "ClusterUpdate \<Rightarrow> (operation list, 'w) action" where
  "operationsForUpdateCluster clusterUpdate =
     bind (read_cassandra (NewCluster clusterUpdate)) (\<lambda>newCluster.
     bind (gets (\<lambda>s. fmlookup (clusters s) (QualifiedName newCluster))) (\<lambda>found.
       case found of
         None \<Rightarrow> operationsForAddCluster (NewCluster clusterUpdate)
       | Some c \<Rightarrow>
           bind (read_cassandra (OldCluster clusterUpdate)) (\<lambda>oldCluster.
           bind (eval (snapshot_operations c (NewCluster clusterUpdate)
                  (Spec_Snapshot (Spec oldCluster)) (Spec_Snapshot (Spec newCluster)))) (\<lambda>operations.
           pass (UpdateClusterOperation c clusterUpdate # operations)))))"

definition clusterForConfigMap :: "ConfigMap \<Rightarrow> (ref option, 'w) action" where
  "clusterForConfigMap configMap =
     (case QualifiedClusterNameFor configMap of
        Inl err \<Rightarrow> pass None
      | Inr clusterName \<Rightarrow> gets (\<lambda>s. fmlookup (clusters s) clusterName))"

definition config_operations ::
    "(ref \<Rightarrow> ConfigMap \<Rightarrow> operation) \<Rightarrow> event_data \<Rightarrow> (operation list, 'w) action" where
  "config_operations build data =
     bind (as_ConfigMap data) (\<lambda>configMap.
     bind (clusterForConfigMap configMap) (\<lambda>found.
       pass (case found of None \<Rightarrow> [] | Some c \<Rightarrow> [build c configMap])))"

definition operationsToExecute :: "Event \<Rightarrow> (operation list, 'w) action" where
  "operationsToExecute event =
     (let kind = Kind event; data = Event_Data event
      in if kind = AddCluster then bind (as_Cassandra data) operationsForAddCluster
         else if kind = DeleteCluster then bind (as_Cassandra data) operationsForDeleteCluster
         else if kind = UpdateCluster then bind (as_ClusterUpdate data) operationsForUpdateCluster
         else if kind = GatherMetrics then bind (as_Cluster data) (\<lambda>c. pass [GatherMetricsOperation c])
         else if kind = UpdateCustomConfig then config_operations UpdateCustomConfigOperation data
         else if kind = AddCustomConfig then config_operations AddCustomConfigOperation data
         else if kind = DeleteCustomConfig then config_operations DeleteCustomConfigOperation data
         else pass [])"

section \<open>Execution\<close>

text \<open>The description of an operation, which is computed for the log whatever its level.\<close>

definition cassandra_text :: "string \<Rightarrow> ref \<Rightarrow> (string, 'w) action" where
  "cassandra_text what r = bind (read_cassandra r) (\<lambda>d. pass (what @ QualifiedName d))"

definition cluster_text :: "string \<Rightarrow> ref \<Rightarrow> (string, 'w) action" where
  "cluster_text what r = bind (read_cluster r) (\<lambda>c. pass (what @ Cluster_QualifiedName c))"

definition AddCluster_String :: "ref \<Rightarrow> (string, 'w) action" where
  "AddCluster_String = cassandra_text ''add cluster ''"

definition DeleteCluster_String :: "ref \<Rightarrow> (string, 'w) action" where
  "DeleteCluster_String = cassandra_text ''delete cluster ''"

definition UpdateCluster_String :: "ref \<Rightarrow> (string, 'w) action" where
  "UpdateCluster_String = cluster_text ''update cluster ''"

definition AddSnapshot_String :: "ref \<Rightarrow> (string, 'w) action" where
  "AddSnapshot_String = cassandra_text ''add snapshot schedule for cluster ''"

definition AddSnapshotCleanup_String :: "ref \<Rightarrow> (string, 'w) action" where
  "AddSnapshotCleanup_String = cassandra_text ''add snapshot cleanup schedule for cluster ''"

definition DeleteSnapshot_String :: "ref \<Rightarrow> (string, 'w) action" where
  "DeleteSnapshot_String = cassandra_text ''delete snapshot schedule for cluster ''"

definition DeleteSnapshotCleanup_String :: "ref \<Rightarrow> (string, 'w) action" where
  "DeleteSnapshotCleanup_String = cassandra_text ''delete snapshot cleanup schedule for cluster ''"

definition UpdateSnapshot_String :: "ref \<Rightarrow> (string, 'w) action" where
  "UpdateSnapshot_String = cluster_text ''update snapshot schedule for cluster ''"

definition UpdateSnapshotCleanup_String :: "ref \<Rightarrow> (string, 'w) action" where
  "UpdateSnapshotCleanup_String = cluster_text ''update snapshot cleanup schedule for cluster ''"

definition GatherMetrics_String :: "ref \<Rightarrow> (string, 'w) action" where
  "GatherMetrics_String = cluster_text ''gather metrics for cluster ''"

definition AddCustomConfig_String :: "ref \<Rightarrow> (string, 'w) action" where
  "AddCustomConfig_String = cluster_text ''add custom config for cluster ''"

definition UpdateCustomConfig_String :: "ref \<Rightarrow> (string, 'w) action" where
  "UpdateCustomConfig_String = cluster_text ''update custom config for cluster ''"

definition DeleteCustomConfig_String :: "ref \<Rightarrow> (string, 'w) action" where
  "DeleteCustomConfig_String = cluster_text ''remove custom config for cluster ''"

fun operation_String :: "operation \<Rightarrow> (string, 'w) action" where
  "operation_String (AddClusterOperation d) = AddCluster_String d"
| "operation_String (DeleteClusterOperation d) = DeleteCluster_String d"
| "operation_String (UpdateClusterOperation c u) = UpdateCluster_String c"
| "operation_String (AddSnapshotOperation d) = AddSnapshot_String d"
| "operation_String (AddSnapshotCleanupOperation d) = AddSnapshotCleanup_String d"
| "operation_String (DeleteSnapshotOperation d) = DeleteSnapshot_String d"
| "operation_String (DeleteSnapshotCleanupOperation d) = DeleteSnapshotCleanup_String d"
| "operation_String (UpdateSnapshotOperation c n) = UpdateSnapshot_String c"
| "operation_String (UpdateSnapshotCleanupOperation c n) = UpdateSnapshotCleanup_String c"
| "operation_String (GatherMetricsOperation c) = GatherMetrics_String c"
| "operation_String (AddCustomConfigOperation c m) = AddCustomConfig_String c"
| "operation_String (UpdateCustomConfigOperation c m) = UpdateCustomConfig_String c"
| "operation_String (DeleteCustomConfigOperation c m) = DeleteCustomConfig_String c"

lemmas String_defs =
  AddCluster_String_def DeleteCluster_String_def UpdateCluster_String_def AddSnapshot_String_def AddSnapshotCleanup_String_def
  DeleteSnapshot_String_def DeleteSnapshotCleanup_String_def UpdateSnapshot_String_def UpdateSnapshotCleanup_String_def
  GatherMetrics_String_def AddCustomConfig_String_def UpdateCustomConfig_String_def DeleteCustomConfig_String_def

fun execute_all :: "'w Env \<Rightarrow> operation list \<Rightarrow> (unit, 'w) action" where
  "execute_all env [] = pass ()"
| "execute_all env (op # ops) =
     bind (operation_String op) (\<lambda>_. seq (Execute_operation env op) (execute_all env ops))"

definition Receive :: "'w Env \<Rightarrow> Event \<Rightarrow> (unit, 'w) action" where
  "Receive env event = bind (operationsToExecute event) (execute_all env)"

section \<open>What is executed is sound\<close>

text \<open>Operations that were sound when they were computed still are when their turn comes.\<close>

lemma evolvesD:
  assumes "evolves s t"
  shows "cluster_heap s r = Some c \<Longrightarrow>
      \<exists>c'. cluster_heap t r = Some c' \<and> Cluster_QualifiedName c' = Cluster_QualifiedName c"
    and "cassandra_heap s r = Some d \<Longrightarrow> \<exists>d'. cassandra_heap t r = Some d' \<and> identity_of d' = identity_of d"
  using assms unfolding evolves_def by blast+

lemma identity_ofD:
  assumes "identity_of d' = identity_of d"
  shows "QualifiedName d' = QualifiedName d"
    and "Spec_Snapshot (Spec d) = Some q \<Longrightarrow>
      \<exists>q'. Spec_Snapshot (Spec d') = Some q' \<and> Snapshot_RetentionPolicy q' = Snapshot_RetentionPolicy q \<and>
        Snapshot_TimeoutSeconds q' = Snapshot_TimeoutSeconds q"
proof -
  show "QualifiedName d' = QualifiedName d" using assms by (simp add: identity_of_def QualifiedName_def)
  assume q: "Spec_Snapshot (Spec d) = Some q"
  with assms obtain q' where q': "Spec_Snapshot (Spec d') = Some q'"
    "q'\<lparr>Snapshot_Image := []\<rparr> = q\<lparr>Snapshot_Image := []\<rparr>" by (auto simp: identity_of_def)
  have "Snapshot_RetentionPolicy (q'\<lparr>Snapshot_Image := []\<rparr>) = Snapshot_RetentionPolicy (q\<lparr>Snapshot_Image := []\<rparr>)"
    "Snapshot_TimeoutSeconds (q'\<lparr>Snapshot_Image := []\<rparr>) = Snapshot_TimeoutSeconds (q\<lparr>Snapshot_Image := []\<rparr>)"
    by (simp_all only: q'(2))
  with q'(1) show "\<exists>q'. Spec_Snapshot (Spec d') = Some q' \<and>
      Snapshot_RetentionPolicy q' = Snapshot_RetentionPolicy q \<and>
      Snapshot_TimeoutSeconds q' = Snapshot_TimeoutSeconds q"
    by simp
qed

lemma op_ok_evolves:
  assumes "evolves s t" and "op_ok s op"
  shows "op_ok t op"
proof -
  have heap: "cassandra_heap s r \<noteq> None \<Longrightarrow> cassandra_heap t r \<noteq> None"
    "cluster_heap s r \<noteq> None \<Longrightarrow> cluster_heap t r \<noteq> None" for r
    using evolvesD(2) [OF assms(1), of r] evolvesD(1) [OF assms(1), of r] by auto
  show ?thesis
  proof (cases op)
    case (UpdateClusterOperation c u)
    with assms(2) obtain cl old new where 1: "cluster_heap s c = Some cl"
      "cassandra_heap s (OldCluster u) = Some old" "cassandra_heap s (NewCluster u) = Some new"
      "QualifiedName new = Cluster_QualifiedName cl" by auto
    from evolvesD(1) [OF assms(1) 1(1)] obtain cl' where
      "cluster_heap t c = Some cl'" "Cluster_QualifiedName cl' = Cluster_QualifiedName cl" by blast
    moreover from evolvesD(2) [OF assms(1) 1(2)] obtain old' where
      "cassandra_heap t (OldCluster u) = Some old'" by blast
    moreover from evolvesD(2) [OF assms(1) 1(3)] obtain new' where
      "cassandra_heap t (NewCluster u) = Some new'" "identity_of new' = identity_of new" by blast
    moreover from this(2) have "QualifiedName new' = QualifiedName new" by (rule identity_ofD(1))
    ultimately show ?thesis using 1(4) UpdateClusterOperation by simp
  next
    case (UpdateSnapshotOperation c n)
    with assms(2) obtain d q where 1: "cassandra_heap s n = Some d" "Spec_Snapshot (Spec d) = Some q"
      "cluster_heap s c \<noteq> None" by auto
    from evolvesD(2) [OF assms(1) 1(1)] obtain d' where
      d': "cassandra_heap t n = Some d'" "identity_of d' = identity_of d" by blast
    with identity_ofD(2) [OF d'(2) 1(2)] heap(2) [OF 1(3)] UpdateSnapshotOperation show ?thesis by auto
  next
    case (UpdateSnapshotCleanupOperation c n)
    with assms(2) obtain d q where 1: "cassandra_heap s n = Some d" "Spec_Snapshot (Spec d) = Some q"
      "Snapshot_RetentionPolicy q \<noteq> None" "cluster_heap s c \<noteq> None" by auto
    from evolvesD(2) [OF assms(1) 1(1)] obtain d' where
      d': "cassandra_heap t n = Some d'" "identity_of d' = identity_of d" by blast
    with identity_ofD(2) [OF d'(2) 1(2)] heap(2) [OF 1(4)] UpdateSnapshotCleanupOperation 1(3)
    show ?thesis by auto
  qed (use assms(2) heap in auto)
qed

text \<open>
  The events the operator can handle: their data have the type of their kind and point to memory
  that is there, and the timeouts that an update compares are set.
\<close>

definition comparable :: "Snapshot option \<Rightarrow> Snapshot option \<Rightarrow> bool" where
  "comparable old new \<longleftrightarrow> (\<forall>o' n. old = Some o' \<longrightarrow> new = Some n \<longrightarrow>
     (\<exists>b b'. SnapshotPropertiesUpdated o' n = Inr b \<and> SnapshotCleanupPropertiesUpdated o' n = Inr b'))"

fun data_ok :: "'w sys \<Rightarrow> event_data \<Rightarrow> bool" where
  "data_ok s (CassandraData r) \<longleftrightarrow> cassandra_heap s r \<noteq> None"
| "data_ok s (ClusterUpdateData u) \<longleftrightarrow>
     (\<exists>old new. cassandra_heap s (OldCluster u) = Some old \<and> cassandra_heap s (NewCluster u) = Some new)"
| "data_ok s (ClusterData c) \<longleftrightarrow> cluster_heap s c \<noteq> None"
| "data_ok s (ConfigMapData m) \<longleftrightarrow> True"

fun kind_ok :: "string \<Rightarrow> event_data \<Rightarrow> bool" where
  "kind_ok k (CassandraData r) \<longleftrightarrow> k = AddCluster \<or> k = DeleteCluster"
| "kind_ok k (ClusterUpdateData u) \<longleftrightarrow> k = UpdateCluster"
| "kind_ok k (ClusterData c) \<longleftrightarrow> k = GatherMetrics"
| "kind_ok k (ConfigMapData m) \<longleftrightarrow> k = AddCustomConfig \<or> k = UpdateCustomConfig \<or> k = DeleteCustomConfig"

definition event_ok :: "'w sys \<Rightarrow> Event \<Rightarrow> bool" where
  "event_ok s e \<longleftrightarrow> kind_ok (Kind e) (Event_Data e) \<and> data_ok s (Event_Data e) \<and>
     (\<forall>u old new. Event_Data e = ClusterUpdateData u \<longrightarrow> cassandra_heap s (OldCluster u) = Some old \<longrightarrow>
        cassandra_heap s (NewCluster u) = Some new \<longrightarrow>
        comparable (Spec_Snapshot (Spec old)) (Spec_Snapshot (Spec new)))"


section \<open>Handling an event\<close>

lemma snapshot_operations_ok:
  assumes "comparable old new"
  shows "\<exists>ops. snapshot_operations c r old new = Inr ops"
proof (cases "old = None \<or> new = None")
  case False
  then obtain o' n where on: "old = Some o'" "new = Some n" by auto
  with assms obtain b b' where
    "SnapshotPropertiesUpdated o' n = Inr b" "SnapshotCleanupPropertiesUpdated o' n = Inr b'"
    unfolding comparable_def by blast
  with on show ?thesis by (simp add: snapshot_operations_def)
qed (auto simp: snapshot_operations_def split: option.split)

lemma cleanup_updated_policy:
  "SnapshotCleanupPropertiesUpdated o' n = Inr True \<Longrightarrow> Snapshot_RetentionPolicy n \<noteq> None"
  by (auto simp: SnapshotCleanupPropertiesUpdated_def split: option.splits)

lemma snapshot_operations_op_ok:
  assumes "snapshot_operations c r old new = Inr ops" and "cluster_heap s c \<noteq> None"
    and "cassandra_heap s r = Some d" and "Spec_Snapshot (Spec d) = new"
  shows "\<forall>op \<in> set ops. op_ok s op"
  using assms cleanup_updated_policy
  by (auto simp: snapshot_operations_def split: option.splits sum.splits if_splits)

lemma add_operations_ok:
  assumes "cassandra_heap s r = Some d"
  shows "goes (operationsForAddCluster r s) (\<lambda>ops t. t = s \<and> (\<forall>op \<in> set ops. op_ok s op))"
    and "goes (operationsForDeleteCluster r s) (\<lambda>ops t. t = s \<and> (\<forall>op \<in> set ops. op_ok s op))"
  using assms
  by (auto simp: operationsForAddCluster_def operationsForDeleteCluster_def op_simps split: option.splits)

lemma update_operations_ok:
  assumes "memory_ok env s" and "cassandra_heap s (OldCluster u) = Some old"
    and "cassandra_heap s (NewCluster u) = Some new"
    and "comparable (Spec_Snapshot (Spec old)) (Spec_Snapshot (Spec new))"
  shows "goes (operationsForUpdateCluster u s) (\<lambda>ops t. t = s \<and> (\<forall>op \<in> set ops. op_ok s op))"
proof (cases "fmlookup (clusters s) (QualifiedName new)")
  case None
  then show ?thesis
    by (simp add: operationsForUpdateCluster_def op_simps assms(3) add_operations_ok [OF assms(3)])
next
  case (Some c)
  with assms(1) obtain cl where cl: "cluster_heap s c = Some cl" "Cluster_QualifiedName cl = QualifiedName new"
    unfolding memory_ok_def by blast
  from snapshot_operations_ok [OF assms(4)] obtain ops where
    ops: "snapshot_operations c (NewCluster u) (Spec_Snapshot (Spec old)) (Spec_Snapshot (Spec new)) = Inr ops"
    by blast
  have "\<forall>op \<in> set ops. op_ok s op"
    by (rule snapshot_operations_op_ok [OF ops _ assms(3) refl]) (simp add: cl)
  with Some ops show ?thesis
    by (simp add: operationsForUpdateCluster_def op_simps assms(2,3) eval_def cl)
qed

lemma goes_clusterForConfigMap:
  "goes (clusterForConfigMap m s) (\<lambda>found t. t = s \<and>
     (\<forall>c. found = Some c \<longrightarrow> (\<exists>n. fmlookup (clusters s) n = Some c)))"
  by (auto simp: clusterForConfigMap_def op_simps split: sum.split)

lemma config_operations_ok:
  assumes "memory_ok env s" and "\<And>c m. cluster_heap s c \<noteq> None \<Longrightarrow> op_ok s (build c m)"
  shows "goes (config_operations build (ConfigMapData m) s) (\<lambda>ops t. t = s \<and> (\<forall>op \<in> set ops. op_ok s op))"
  unfolding config_operations_def goes_bind as_ConfigMap_def event_data.case goes_pass
proof (rule goes_weaken [OF goes_clusterForConfigMap])
  fix found t
  assume "t = s \<and> (\<forall>c. found = Some c \<longrightarrow> (\<exists>n. fmlookup (clusters s) n = Some c))"
  with assms show "t = s \<and> (\<forall>op \<in> set (case found of None \<Rightarrow> [] | Some c \<Rightarrow> [build c m]). op_ok s op)"
    unfolding memory_ok_def by (cases found) fastforce+
qed

lemma operationsToExecute_ok:
  assumes "memory_ok env s" and "event_ok s e"
  shows "goes (operationsToExecute e s) (\<lambda>ops t. t = s \<and> (\<forall>op \<in> set ops. op_ok s op))"
proof (cases "Event_Data e")
  case (CassandraData r)
  with assms(2) obtain d where "cassandra_heap s r = Some d" "Kind e = AddCluster \<or> Kind e = DeleteCluster"
    by (auto simp: event_ok_def)
  with add_operations_ok [OF this(1)] CassandraData show ?thesis
    by (auto simp: operationsToExecute_def Let_def kind_defs as_Cassandra_def op_simps)
next
  case (ClusterUpdateData u)
  with assms(2) obtain old new where "cassandra_heap s (OldCluster u) = Some old"
    "cassandra_heap s (NewCluster u) = Some new" "Kind e = UpdateCluster"
    "comparable (Spec_Snapshot (Spec old)) (Spec_Snapshot (Spec new))"
    by (auto simp: event_ok_def)
  with update_operations_ok [OF assms(1)] ClusterUpdateData show ?thesis
    by (simp add: operationsToExecute_def Let_def kind_defs as_ClusterUpdate_def op_simps)
next
  case (ClusterData c)
  with assms(2) show ?thesis
    by (simp add: operationsToExecute_def Let_def kind_defs as_Cluster_def op_simps event_ok_def)
next
  case (ConfigMapData m)
  have "goes (config_operations build (ConfigMapData m) s) (\<lambda>ops t. t = s \<and> (\<forall>op \<in> set ops. op_ok s op))"
    if "build \<in> {AddCustomConfigOperation, UpdateCustomConfigOperation, DeleteCustomConfigOperation}" for build
    by (rule config_operations_ok [OF assms(1)]) (use that in auto)
  with ConfigMapData assms(2) show ?thesis
    by (auto simp: operationsToExecute_def Let_def kind_defs event_ok_def)
qed

lemma goes_operation_String:
  assumes "op_ok s op"
  shows "goes (operation_String op s) (\<lambda>_ t. t = s)"
  using assms
  by (cases op) (auto simp: String_defs cassandra_text_def cluster_text_def op_simps)

lemma ends_operation_String: "ends (operation_String op)"
  by (cases op) (auto simp: String_defs cassandra_text_def cluster_text_def)

text \<open>What an event leaves: a sound memory in which nothing got lost.\<close>

definition handled :: "'w Env \<Rightarrow> 'w sys \<Rightarrow> 'w sys \<Rightarrow> bool" where
  "handled env s t \<longleftrightarrow> memory_ok env t \<and> evolves s t \<and> prefix (trace s) (trace t)"

lemma execute_all_handled:
  assumes "env_ok env"
  shows "memory_ok env s \<Longrightarrow> \<forall>op \<in> set ops. op_ok s op \<Longrightarrow> goes (execute_all env ops s) (\<lambda>_. handled env s)"
proof (induction ops arbitrary: s)
  case Nil
  then show ?case by (simp add: op_simps handled_def)
next
  case (Cons op ops)
  then have op: "op_ok s op" by simp
  show ?case
    unfolding execute_all.simps goes_bind goes_seq
  proof (rule goes_weaken [OF goes_operation_String [OF op]])
    fix a t assume "t = s"
    have "goes (Execute_operation env op s) (\<lambda>_ u. goes (execute_all env ops u) (\<lambda>_. handled env s))"
    proof (rule goes_weaken [OF safe_operation [OF assms Cons.prems(1) op]])
      fix u assume u: "safe_after env s u"
      then have "goes (execute_all env ops u) (\<lambda>_. handled env u)"
        using Cons.prems(2) by (intro Cons.IH) (auto simp: safe_after_def intro: op_ok_evolves)
      then show "goes (execute_all env ops u) (\<lambda>_. handled env s)"
        by (rule goes_weaken) (use u in \<open>auto simp: handled_def safe_after_def intro: evolves_trans prefix_order.trans [OF prefixI]\<close>)
    qed
    with \<open>t = s\<close> show "goes (Execute_operation env op t) (\<lambda>_ u. goes (execute_all env ops u) (\<lambda>_. handled env s))"
      by simp
  qed
qed

lemma ends_Receive:
  assumes "env_ok env" and "settles env"
  shows "ends (Receive env e)"
proof -
  have exec: "ends (execute_all env ops)" for ops
    by (induction ops) (auto intro!: ends_rules ends_operation_String ends_operation [OF assms])
  have forcm: "ends (clusterForConfigMap m)" for m
    by (auto simp: clusterForConfigMap_def split: sum.split intro: ends_rules)
  have conf: "ends (config_operations mk d)" for mk d
    unfolding config_operations_def as_ConfigMap_def
    by (intro ends_rules forcm) (auto split: event_data.split intro: ends_rules)
  have as: "ends (as_Cassandra d)" "ends (as_ClusterUpdate d)" "ends (as_Cluster d)" for d
    by (auto simp: as_Cassandra_def as_ClusterUpdate_def as_Cluster_def split: event_data.split intro: ends_rules)
  have ops: "ends (operationsForAddCluster r)" "ends (operationsForDeleteCluster r)" for r
    unfolding operationsForAddCluster_def operationsForDeleteCluster_def by (intro ends_rules)+
  have "ends (operationsForUpdateCluster u)" for u
    unfolding operationsForUpdateCluster_def by (intro ends_rules ops)
  then have "ends (operationsToExecute e)"
    unfolding operationsToExecute_def Let_def by (intro ends_rules ops conf as) 
  then show ?thesis unfolding Receive_def by (intro ends_rules exec)
qed

section \<open>The contract of an event handler\<close>

text \<open>
  What the dispatcher's clients rely on of the function that handles events: in a sound memory, an
  event that fits it is handled without a panic, and what follows is sound again. A handler that
  ends moreover returns.
\<close>

locale event_handler =
  fixes handler :: "Event \<Rightarrow> (unit, 'w) action"
    and sound :: "'w sys \<Rightarrow> bool"
    and fits :: "'w sys \<Rightarrow> Event \<Rightarrow> bool"
    and follows :: "'w sys \<Rightarrow> 'w sys \<Rightarrow> bool"
  assumes handler_goes: "sound s \<Longrightarrow> fits s e \<Longrightarrow> goes (handler e s) (\<lambda>_ t. sound t \<and> follows s t)"
begin

lemma handler_Done: "sound s \<Longrightarrow> fits s e \<Longrightarrow> handler e s = Done () t \<Longrightarrow> sound t \<and> follows s t"
  using handler_goes [of s e] by (simp add: goes_def)

lemma no_panic: "sound s \<Longrightarrow> fits s e \<Longrightarrow> handler e s \<noteq> Panicked p t"
  using handler_goes [of s e] by (auto simp: goes_def)

end

locale ending_handler = event_handler +
  assumes handler_ends: "sound s \<Longrightarrow> fits s e \<Longrightarrow> handler e s \<noteq> Hangs"
begin

lemma handler_returns: "sound s \<Longrightarrow> fits s e \<Longrightarrow> \<exists>t. handler e s = Done () t \<and> sound t \<and> follows s t"
  using handler_Done [of s e] no_panic [of s e] handler_ends [of s e] by (cases "handler e s") auto

end

lemma goes_Receive:
  assumes "env_ok env" and "memory_ok env s" and "event_ok s e"
  shows "goes (Receive env e s) (\<lambda>_. handled env s)"
  unfolding Receive_def goes_bind
  by (rule goes_weaken [OF operationsToExecute_ok [OF assms(2,3)]])
    (use execute_all_handled [OF assms(1,2)] in blast)

interpretation received: event_handler "Receive env" "\<lambda>s. env_ok env \<and> memory_ok env s" event_ok "handled env" for env
proof
  fix s e assume "env_ok env \<and> memory_ok env s" "event_ok s e"
  then show "goes (Receive env e s) (\<lambda>_ t. (env_ok env \<and> memory_ok env t) \<and> handled env s t)"
    by (intro goes_weaken [OF goes_Receive]) (auto simp: handled_def)
qed

interpretation settled: ending_handler "Receive env" "\<lambda>s. env_ok env \<and> settles env \<and> memory_ok env s" event_ok
  "handled env" for env
proof
  fix s e assume ok: "env_ok env \<and> settles env \<and> memory_ok env s" "event_ok s e"
  then show "goes (Receive env e s) (\<lambda>_ t. (env_ok env \<and> settles env \<and> memory_ok env t) \<and> handled env s t)"
    by (intro goes_weaken [OF goes_Receive]) (auto simp: handled_def)
  show "Receive env e s \<noteq> Hangs"
    using ends_Receive [of env e] ok(1) by (simp add: ends_def)
qed

text \<open>
  The receiver handles every well-formed event completely: all its operations run and return,
  none of them panics, and the memory they leave is sound, provided the waits end.
\<close>

theorem Receive_handles:
  assumes "env_ok env" and "settles env" and "memory_ok env s" and "event_ok s e"
  shows "\<exists>t. Receive env e s = Done () t \<and> handled env s t"
  using settled.handler_returns [of env s e] assms by blast

lemma Receive_handles_witness:
  "\<exists>t. Receive server_env \<lparr>Kind = AddCluster, Key = ''k'', Event_Data = CassandraData 0\<rparr> sample_sys = Done () t \<and>
     handled server_env sample_sys t"
  by (rule Receive_handles [OF server_env_ok server_settles sample_sys_ok(1)])
    (simp add: event_ok_def sample_sys_ok)

section \<open>The jobs of a cluster's snapshots\<close>

text \<open>
  The jobs that a definition asks for, and what an operation does to the jobs there are: an update
  of a job that is not there does nothing.
\<close>

datatype job = CreationJob | CleanupJob

definition wanted_jobs :: "Snapshot option \<Rightarrow> job set" where
  "wanted_jobs snapshot =
     (case snapshot of
        None \<Rightarrow> {}
      | Some q \<Rightarrow> (if HasRetentionPolicyEnabled q then {CreationJob, CleanupJob} else {CreationJob}))"

fun job_step :: "operation \<Rightarrow> job set \<Rightarrow> job set" where
  "job_step (AddSnapshotOperation r) J = insert CreationJob J"
| "job_step (AddSnapshotCleanupOperation r) J = insert CleanupJob J"
| "job_step (DeleteSnapshotOperation r) J = J - {CreationJob}"
| "job_step (DeleteSnapshotCleanupOperation r) J = J - {CleanupJob}"
| "job_step op J = J"

definition retention_switched_on :: "Snapshot option \<Rightarrow> Snapshot option \<Rightarrow> bool" where
  "retention_switched_on old new \<longleftrightarrow>
     (\<exists>o' n. old = Some o' \<and> new = Some n \<and> \<not> HasRetentionPolicyEnabled o' \<and> HasRetentionPolicyEnabled n)"



text \<open>Adding and deleting a cluster ask for all jobs and for none.\<close>

lemma add_delete_jobs:
  assumes "cassandra_heap s r = Some d"
  shows "goes (operationsForAddCluster r s) (\<lambda>ops _. fold job_step ops {} = wanted_jobs (Spec_Snapshot (Spec d)))"
    and "goes (operationsForDeleteCluster r s)
      (\<lambda>ops _. fold job_step ops (wanted_jobs (Spec_Snapshot (Spec d))) = {})"
  using assms
  by (auto simp: operationsForAddCluster_def operationsForDeleteCluster_def op_simps wanted_jobs_def
      split: option.splits)

section \<open>The update that ends the operator\<close>

text \<open>The comparisons that read a missing timeout or retention period.\<close>

definition unset_timeout :: "Snapshot \<Rightarrow> Snapshot \<Rightarrow> bool" where
  "unset_timeout o' n \<longleftrightarrow> Schedule o' = Schedule n \<and>
     (Snapshot_TimeoutSeconds o' = None \<or> Snapshot_TimeoutSeconds n = None)"

definition unset_retention :: "Snapshot \<Rightarrow> Snapshot \<Rightarrow> bool" where
  "unset_retention o' n \<longleftrightarrow>
     (\<exists>p q. Snapshot_RetentionPolicy o' = Some p \<and> Snapshot_RetentionPolicy n = Some q \<and>
        CleanupSchedule p = CleanupSchedule q \<and>
        (CleanupTimeoutSeconds p = None \<or> CleanupTimeoutSeconds q = None \<or>
         CleanupTimeoutSeconds p = CleanupTimeoutSeconds q \<and>
           (RetentionPeriodDays p = None \<or> RetentionPeriodDays q = None)))"

lemma CleanupProperties_panic_iff:
  "(\<exists>p. SnapshotCleanupPropertiesUpdated o' n = Inl p) \<longleftrightarrow> unset_retention o' n"
proof (cases "Snapshot_RetentionPolicy o' = None \<or> Snapshot_RetentionPolicy n = None")
  case False
  then obtain p q where pq: "Snapshot_RetentionPolicy o' = Some p" "Snapshot_RetentionPolicy n = Some q" by auto
  show ?thesis
    by (cases "CleanupTimeoutSeconds p"; cases "CleanupTimeoutSeconds q"; cases "RetentionPeriodDays p";
        cases "RetentionPeriodDays q")
      (auto simp: SnapshotCleanupPropertiesUpdated_def unset_retention_def pq or_else_bool)
qed (auto simp: SnapshotCleanupPropertiesUpdated_def unset_retention_def split: option.splits)

text \<open>
  (C29) An update of a known cluster takes the operator down exactly when both definitions have a
  snapshot and the comparison of the two reads an optional field that is not set: the timeout when
  the schedules agree, or the timeout or period of the cleanup. Nothing is done before.
\<close>

theorem update_panics_iff:
  assumes "cassandra_heap s (OldCluster u) = Some old" and "cassandra_heap s (NewCluster u) = Some new"
    and "fmlookup (clusters s) (QualifiedName new) = Some c"
    and "Kind e = UpdateCluster" and "Event_Data e = ClusterUpdateData u"
  shows "operationsToExecute e s = Panicked NilDereference s \<longleftrightarrow>
    (\<exists>o' n. Spec_Snapshot (Spec old) = Some o' \<and> Spec_Snapshot (Spec new) = Some n \<and>
       (unset_timeout o' n \<or> unset_retention o' n))"
proof -
  have run: "operationsToExecute e s =
      (case snapshot_operations c (NewCluster u) (Spec_Snapshot (Spec old)) (Spec_Snapshot (Spec new)) of
         Inl p \<Rightarrow> Panicked p s | Inr ops \<Rightarrow> Done (UpdateClusterOperation c u # ops) s)"
    using assms by (simp add: operationsToExecute_def Let_def kind_defs as_ClusterUpdate_def
        operationsForUpdateCluster_def bind_def pass_def read_cassandra_def gets_def deref_def eval_def
        panic_with_def split: sum.split)
  have p: "SnapshotPropertiesUpdated o' n = Inl p \<longleftrightarrow> p = NilDereference \<and> unset_timeout o' n" for o' n p
    by (auto simp: SnapshotPropertiesUpdated_panic_iff unset_timeout_def)
  have q: "SnapshotCleanupPropertiesUpdated o' n = Inl p \<longleftrightarrow> p = NilDereference \<and> unset_retention o' n"
    for o' n p
  proof -
    have "p = NilDereference" if "SnapshotCleanupPropertiesUpdated o' n = Inl p" for p
      using that by (auto simp: SnapshotCleanupPropertiesUpdated_def or_else_bool deref_neq_def or_else_def
          split: option.splits if_splits sum.splits bool.splits)
    with CleanupProperties_panic_iff [of o' n] show ?thesis by blast
  qed
  show ?thesis
  proof (cases "Spec_Snapshot (Spec old) = None \<or> Spec_Snapshot (Spec new) = None")
    case True
    then show ?thesis unfolding run by (auto simp: snapshot_operations_def split: option.splits)
  next
    case False
    then obtain o' n where on: "Spec_Snapshot (Spec old) = Some o'" "Spec_Snapshot (Spec new) = Some n" by auto
    have "unset_timeout o' n \<longleftrightarrow> SnapshotPropertiesUpdated o' n = Inl NilDereference"
      "unset_retention o' n \<longleftrightarrow> SnapshotCleanupPropertiesUpdated o' n = Inl NilDereference"
      using p q by simp_all
    then show ?thesis
      unfolding run on snapshot_operations_def
      using p [of o' n "projl (SnapshotPropertiesUpdated o' n)"] q [of o' n "projl (SnapshotCleanupPropertiesUpdated o' n)"]
      by (cases "SnapshotPropertiesUpdated o' n"; cases "SnapshotCleanupPropertiesUpdated o' n") simp_all
  qed
qed

lemma update_panics_iff_witness:
  "\<exists>s::nat sys. operationsToExecute \<lparr>Kind = UpdateCluster, Key = ''k'',
     Event_Data = ClusterUpdateData \<lparr>OldCluster = 0, NewCluster = 5\<rparr>\<rparr> s = Panicked NilDereference s"
proof -
  let ?q = "\<lparr>Snapshot_Image = [], Schedule = ''1 * * * *'', Keyspaces = None, Snapshot_TimeoutSeconds = None,
              Snapshot_RetentionPolicy = None\<rparr>"
  let ?d = "sample_definition\<lparr>Spec := (Spec sample_definition)\<lparr>Spec_Snapshot := Some ?q\<rparr>\<rparr>"
  let ?s = "update_sys\<lparr>cassandra_heap := [0 \<mapsto> ?d, 5 \<mapsto> ?d]\<rparr>"
  let ?e = "\<lparr>Kind = UpdateCluster, Key = ''k'',
     Event_Data = ClusterUpdateData \<lparr>OldCluster = 0, NewCluster = 5\<rparr>\<rparr>"
  have "operationsToExecute ?e ?s = Panicked NilDereference ?s \<longleftrightarrow>
      (\<exists>o' n. Spec_Snapshot (Spec ?d) = Some o' \<and> Spec_Snapshot (Spec ?d) = Some n \<and>
       (unset_timeout o' n \<or> unset_retention o' n))"
    by (rule update_panics_iff [where c = 0])
      (simp_all add: update_sys_def QualifiedName_def sample_definition_def)
  then have "operationsToExecute ?e ?s = Panicked NilDereference ?s"
    by (simp add: unset_timeout_def)
  then show ?thesis by blast
qed

end
