(* ===== verification/OperationFrame.thy ===== *)
theory OperationFrame
  imports Receiver
begin

text \<open>
  A logic for what operations keep, and the operations of
  \<^verbatim>\<open>cassandra-operator/pkg/operator/operations/\<close> in it, once and for all: which effects they have and
  which parts of the memory they write, as the assumptions of a locale. Whatever allows these
  effects and is kept by these writes is kept by every operation.
\<close>

section \<open>Actions that keep an invariant\<close>

definition yields :: "('w sys \<Rightarrow> bool) \<Rightarrow> ('a, 'w) action \<Rightarrow> ('a \<Rightarrow> bool) \<Rightarrow> bool" where
  "yields I m Q \<longleftrightarrow> (\<forall>s a t. I s \<longrightarrow> m s = Done a t \<longrightarrow> I t \<and> Q a)"

definition keeps :: "('w sys \<Rightarrow> bool) \<Rightarrow> ('a, 'w) action \<Rightarrow> bool" where
  "keeps I m \<longleftrightarrow> yields I m (\<lambda>_. True)"

lemma yieldsD: "yields I m Q \<Longrightarrow> I s \<Longrightarrow> m s = Done a t \<Longrightarrow> I t \<and> Q a"
  by (simp add: yields_def)

lemma yieldsI: "(\<And>s a t. I s \<Longrightarrow> m s = Done a t \<Longrightarrow> I t \<and> Q a) \<Longrightarrow> yields I m Q"
  by (simp add: yields_def)

lemma keepsD: "keeps I m \<Longrightarrow> I s \<Longrightarrow> m s = Done a t \<Longrightarrow> I t"
  by (simp add: keeps_def yields_def)

lemma keepsI: "(\<And>s a t. I s \<Longrightarrow> m s = Done a t \<Longrightarrow> I t) \<Longrightarrow> keeps I m"
  by (simp add: keeps_def yields_def)

lemma keeps_bind:
  assumes "yields I m P" and "\<And>a. P a \<Longrightarrow> keeps I (f a)"
  shows "keeps I (bind m f)"
proof (rule keepsI)
  fix s b u assume s: "I s" and "bind m f s = Done b u"
  then obtain a t where "m s = Done a t" "f a t = Done b u" by (auto simp: bind_def split: outcome.splits)
  with yieldsD [OF assms(1) s] keepsD [OF assms(2)] show "I u" by blast
qed

lemma yields_keeps: "keeps I m \<Longrightarrow> yields I m (\<lambda>_. True)"
  by (simp add: keeps_def)

lemmas keeps_bind_any = keeps_bind [OF yields_keeps]

lemma keeps_seq: "keeps I m \<Longrightarrow> keeps I n \<Longrightarrow> keeps I (seq m n)"
  unfolding seq_def by (rule keeps_bind_any)

lemma keeps_pass: "keeps I (pass a)" "keeps I (gets f)" "keeps I (panic_with p)" "keeps I (deref v)" "keeps I (eval x)"
  by (auto simp: keeps_def yields_def pass_def gets_def panic_with_def deref_def eval_def split: option.splits sum.splits)

lemma keeps_case:
  "(\<And>x. r = Inl x \<Longrightarrow> keeps I (f x)) \<Longrightarrow> (\<And>y. r = Inr y \<Longrightarrow> keeps I (g y)) \<Longrightarrow> keeps I (case r of Inl x \<Rightarrow> f x | Inr y \<Rightarrow> g y)"
  "(p = None \<Longrightarrow> keeps I n) \<Longrightarrow> (\<And>y. p = Some y \<Longrightarrow> keeps I (h y)) \<Longrightarrow> keeps I (case p of None \<Rightarrow> n | Some y \<Rightarrow> h y)"
  "(b \<Longrightarrow> keeps I m) \<Longrightarrow> (\<not> b \<Longrightarrow> keeps I m') \<Longrightarrow> keeps I (if b then m else m')"
  by (auto split: sum.split option.split)

lemma keeps_for_each: "(\<And>x. keeps I (f x)) \<Longrightarrow> keeps I (for_each xs f)"
  by (induction xs) (auto intro!: keeps_bind_any keeps_pass keeps_case)

lemma keeps_reads: "keeps I (read_cassandra r)" "keeps I (read_cluster r)" "keeps I (read_snapshot r)"
  unfolding read_cassandra_def read_cluster_def read_snapshot_def by (intro keeps_bind_any keeps_pass)+

lemma keeps_operation_String: "keeps I (operation_String op)"
  by (cases op) (simp_all add: String_defs cassandra_text_def cluster_text_def keeps_bind_any keeps_pass keeps_reads)

lemma set_first_container_meta: "yields I (set_first_container ct job) (\<lambda>j. cj_Meta j = cj_Meta job)"
  by (auto simp: yields_def set_first_container_def pass_def panic_with_def split: list.splits)

text \<open>Validation and defaults leave the identity of a definition and its kind of storage alone.\<close>

definition same_kind :: "Cassandra \<Rightarrow> Cassandra \<Rightarrow> bool" where
  "same_kind d d' \<longleftrightarrow> Name d' = Name d \<and> Namespace d' = Namespace d \<and> UseEmptyDir (Spec d') = UseEmptyDir (Spec d)"

lemma default_same_kind:
  "default_liveness d = (err, d') \<Longrightarrow> same_kind d d'" "default_readiness d = (err, d') \<Longrightarrow> same_kind d d'"
  using snd_default_liveness [of d] snd_default_readiness [of d] by (auto simp: same_kind_def)

lemma CopyInto_same_kind:
  assumes "CopyInto valid_cron c d = (err, c', d')"
  shows "same_kind d d' \<and> (same_kind (cdef c) (cdef c') \<or> same_kind d (cdef c')) \<and> (err = None \<longrightarrow> same_kind d (cdef c'))"
  using assms
  by (auto simp: CopyInto_def Let_def same_kind_def split: option.splits prod.splits
      dest!: default_same_kind [unfolded same_kind_def])

lemma New_same_kind:
  assumes "New valid_cron d = (r, d')"
  shows "same_kind d d' \<and> (\<forall>c. r = Inr c \<longrightarrow> same_kind d (cdef c))"
  using assms CopyInto_same_kind [of valid_cron zero_Cluster d] by (auto simp: New_def split: prod.splits option.splits)

section \<open>What an operation works on\<close>

fun operation_refs :: "operation \<Rightarrow> ref set" where
  "operation_refs (AddClusterOperation r) = {r}"
| "operation_refs (DeleteClusterOperation r) = {r}"
| "operation_refs (UpdateClusterOperation c u) = {OldCluster u, NewCluster u}"
| "operation_refs (AddSnapshotOperation r) = {r}"
| "operation_refs (AddSnapshotCleanupOperation r) = {r}"
| "operation_refs (DeleteSnapshotOperation r) = {r}"
| "operation_refs (DeleteSnapshotCleanupOperation r) = {r}"
| "operation_refs (UpdateSnapshotOperation c r) = {r}"
| "operation_refs (UpdateSnapshotCleanupOperation c r) = {r}"
| "operation_refs op = {}"

fun operation_clusters :: "operation \<Rightarrow> ref set" where
  "operation_clusters (UpdateClusterOperation c u) = {c}"
| "operation_clusters (UpdateSnapshotOperation c r) = {c}"
| "operation_clusters (UpdateSnapshotCleanupOperation c r) = {c}"
| "operation_clusters (GatherMetricsOperation c) = {c}"
| "operation_clusters (AddCustomConfigOperation c m) = {c}"
| "operation_clusters (UpdateCustomConfigOperation c m) = {c}"
| "operation_clusters (DeleteCustomConfigOperation c m) = {c}"
| "operation_clusters op = {}"

fun event_refs :: "event_data \<Rightarrow> ref set" where
  "event_refs (CassandraData r) = {r}"
| "event_refs (ClusterUpdateData u) = {OldCluster u, NewCluster u}"
| "event_refs (ClusterData c) = {}"
| "event_refs (ConfigMapData m) = {}"

text \<open>The cluster that an event finds in memory.\<close>

fun event_clusters :: "'w sys \<Rightarrow> event_data \<Rightarrow> ref set" where
  "event_clusters s (CassandraData r) = {}"
| "event_clusters s (ClusterUpdateData u) = {c. \<exists>d. cassandra_heap s (NewCluster u) = Some d \<and>
     fmlookup (clusters s) (QualifiedName d) = Some c}"
| "event_clusters s (ClusterData c) = {c}"
| "event_clusters s (ConfigMapData m) = {c. \<exists>n. QualifiedClusterNameFor m = Inr n \<and> fmlookup (clusters s) n = Some c}"

lemma snapshot_operations_refs:
  "snapshot_operations c n old new = Inr ops \<Longrightarrow> op \<in> set ops \<Longrightarrow> operation_refs op \<subseteq> {n} \<and> operation_clusters op \<subseteq> {c}"
  by (auto simp: snapshot_operations_def split: option.splits sum.splits if_splits)

lemma operationsToExecute_refs:
  assumes "operationsToExecute e s = Done ops t"
  shows "t = s \<and> (\<forall>op \<in> set ops. operation_refs op \<subseteq> event_refs (Event_Data e) \<and>
    operation_clusters op \<subseteq> event_clusters s (Event_Data e))"
proof -
  have add: "t = s \<and> (\<forall>op \<in> set ops. operation_refs op \<subseteq> {r} \<and> operation_clusters op = {})"
    if "operationsForAddCluster r s = Done ops t" for r
    using that
    by (auto simp: operationsForAddCluster_def read_cassandra_def bind_def gets_def deref_def pass_def panic_with_def
        split: option.splits if_splits)
  have delete: "t = s \<and> (\<forall>op \<in> set ops. operation_refs op \<subseteq> {r} \<and> operation_clusters op = {})"
    if "operationsForDeleteCluster r s = Done ops t" for r
    using that
    by (auto simp: operationsForDeleteCluster_def read_cassandra_def bind_def gets_def deref_def pass_def panic_with_def
        split: option.splits if_splits)
  have update: "t = s \<and> (\<forall>op \<in> set ops. operation_refs op \<subseteq> {OldCluster u, NewCluster u} \<and>
      operation_clusters op \<subseteq> event_clusters s (ClusterUpdateData u))"
    if run: "operationsForUpdateCluster u s = Done ops t" for u
  proof -
    obtain n where n: "cassandra_heap s (NewCluster u) = Some n"
      using run by (auto simp: operationsForUpdateCluster_def read_cassandra_def bind_def gets_def deref_def pass_def
          panic_with_def split: option.splits)
    show ?thesis
    proof (cases "fmlookup (clusters s) (QualifiedName n)")
      case None
      with run n have "operationsForAddCluster (NewCluster u) s = Done ops t"
        by (simp add: operationsForUpdateCluster_def read_cassandra_def bind_def gets_def deref_def pass_def)
      from add [OF this] show ?thesis by blast
    next
      case (Some c)
      with run n have "\<exists>(o' :: Cassandra) ops'. snapshot_operations c (NewCluster u) (Spec_Snapshot (Spec o')) (Spec_Snapshot (Spec n)) = Inr ops' \<and>
          ops = UpdateClusterOperation c u # ops' \<and> t = s"
        by (auto simp: operationsForUpdateCluster_def read_cassandra_def bind_def gets_def deref_def pass_def
            panic_with_def eval_def split: option.splits sum.splits)
      then obtain o' :: Cassandra and ops'
        where ops': "snapshot_operations c (NewCluster u) (Spec_Snapshot (Spec o')) (Spec_Snapshot (Spec n)) = Inr ops'"
          and ops: "ops = UpdateClusterOperation c u # ops'" "t = s" by blast
      have c: "c \<in> event_clusters s (ClusterUpdateData u)" using n Some by simp
      from snapshot_operations_refs [OF ops'] ops c show ?thesis
        by (auto simp del: event_clusters.simps)
    qed
  qed
  have custom: "t = s \<and> (\<forall>op \<in> set ops. operation_refs op = {} \<and> operation_clusters op \<subseteq> event_clusters s (Event_Data e))"
    if "config_operations build (Event_Data e) s = Done ops t"
      and "\<And>c m. operation_refs (build c m) = {} \<and> operation_clusters (build c m) = {c}" for build
    using that
    by (auto simp: config_operations_def clusterForConfigMap_def as_ConfigMap_def bind_def gets_def pass_def panic_with_def
        split: option.splits event_data.splits sum.splits)
  note custom = custom [of AddCustomConfigOperation] custom [of UpdateCustomConfigOperation] custom [of DeleteCustomConfigOperation]
  show ?thesis
    using assms add delete update custom
    by (cases "Event_Data e")
      (auto simp: operationsToExecute_def Let_def as_Cassandra_def as_ClusterUpdate_def as_Cluster_def bind_def pass_def
        panic_with_def split: if_splits)
qed

section \<open>The contract of the effects\<close>

fun reading :: "effect \<Rightarrow> bool" where
  "reading (Request (GetConfigMap n m)) = True"
| "reading (Request (ListServices n m)) = True"
| "reading (Request (ListStatefulSets n m)) = True"
| "reading (Request (ListPods n m)) = True"
| "reading (Request (GetStatefulSet n m)) = True"
| "reading (Request (ListCronJobs n m)) = True"
| "reading (Request (HttpGet url)) = True"
| "reading (Slept d) = True"
| "reading (Applied n m) = True"
| "reading e = False"

text \<open>
  \<open>D\<close> says which definitions operations are about, \<open>ok\<close> which effects they may have then, and
  \<open>trusted\<close> what is asked of the outside.
\<close>

locale operation_effects =
  fixes trusted :: "'w Env \<Rightarrow> bool"
    and D :: "Cassandra \<Rightarrow> bool"
    and ok :: "effect \<Rightarrow> bool"
  assumes trusted_poll: "trusted env \<Longrightarrow> poll_ok env"
    and D_same: "D d \<Longrightarrow> same_kind d d' \<Longrightarrow> D d'"
    and ok_reading: "reading e \<Longrightarrow> ok e"
    and ok_event: "D d \<Longrightarrow> ok (Event (QualifiedName d) ty reason msg)"
    and ok_service: "D (cdef c) \<Longrightarrow> ok (Request (CreateServiceReq (Cluster_Namespace c) (CreateService c)))"
    and ok_delete: "D (cdef c) \<Longrightarrow> ok (Request (DeleteServiceReq (Cluster_Namespace c) (Cluster_Name c)))"
      "D (cdef c) \<Longrightarrow> ok (Request (DeleteStatefulSets (Cluster_Namespace c) (operator_selector c)))"
    and ok_create: "D (cdef c) \<Longrightarrow> createStatefulSetForRack c rack m = Inr sts \<Longrightarrow>
      ok (Request (CreateStatefulSet (Cluster_Namespace c) sts))"
    and ok_patch: "D (cdef c) \<Longrightarrow> ok (Request (PatchStatefulSetReq (Cluster_Namespace c) (Cluster_Name c @ ''-'' @ r) patch))"
    and ok_update: "D (cdef c) \<Longrightarrow> ok (Request (UpdateStatefulSetReq (Cluster_Namespace c) sts))"
    and ok_job: "D (cdef c) \<Longrightarrow> ok (Request (CreateCronJob (Cluster_Namespace c) job))"
    and ok_listed: "trusted env \<Longrightarrow> D d \<Longrightarrow> api_cron_jobs env (ListCronJobs (Namespace d) label) w = (Inr jobs, w') \<Longrightarrow>
      j \<in> set jobs \<Longrightarrow> cj_Meta j' = cj_Meta j \<Longrightarrow>
      ok (Request (DeleteCronJobReq (om_Namespace (cj_Meta j)) (om_Name (cj_Meta j)))) \<and>
      ok (Request (UpdateCronJobReq (om_Namespace (cj_Meta j')) j'))"
    and ok_node: "D (cdef c) \<Longrightarrow> ok (SetNodeGauge (node_labels c rackName pod l) x)"
      "D (cdef c) \<Longrightarrow> ok (DeleteNodeGauge (node_labels c rackName pod l))"
    and ok_size: "D (cdef c) \<Longrightarrow> ok (SetSizeGauge (size_labels c) x)" "D (cdef c) \<Longrightarrow> ok (DeleteSizeGauge (size_labels c))"

section \<open>The contract of the memory\<close>

text \<open>
  \<open>I\<close> is what is to be kept. The definitions at \<open>R\<close> and the clusters at \<open>K\<close> are those that the event
  is about; \<open>W\<close> holds all clusters that may be written, new ones included.
\<close>

locale operation_memory = operation_effects trusted D ok
  for trusted :: "'w Env \<Rightarrow> bool" and D :: "Cassandra \<Rightarrow> bool" and ok :: "effect \<Rightarrow> bool" +
  fixes I :: "'w sys \<Rightarrow> bool"
    and R :: "ref set"
    and W :: "ref set"
    and K :: "ref set"
  assumes I_emit: "I s \<Longrightarrow> list_all ok es \<Longrightarrow> I (s\<lparr>world := w, trace := trace s @ es\<rparr>)"
    and R_read: "I s \<Longrightarrow> r \<in> R \<Longrightarrow> cassandra_heap s r = Some d \<Longrightarrow> D d"
    and K_read: "I s \<Longrightarrow> r \<in> K \<Longrightarrow> cluster_heap s r = Some c \<Longrightarrow> D (cdef c)"
    and I_write_cassandra: "I s \<Longrightarrow> r \<in> R \<Longrightarrow> D d \<Longrightarrow> I (s\<lparr>cassandra_heap := (cassandra_heap s)(r \<mapsto> d)\<rparr>)"
    and I_write_cluster: "I s \<Longrightarrow> r \<in> K \<Longrightarrow> D (cdef c) \<Longrightarrow> I (s\<lparr>cluster_heap := (cluster_heap s)(r \<mapsto> c)\<rparr>)"
    and I_online: "I s \<Longrightarrow> r \<in> W \<Longrightarrow> I (s\<lparr>cluster_heap :=
      (cluster_heap s)(r := map_option (\<lambda>c. c\<lparr>Online := b\<rparr>) (cluster_heap s r))\<rparr>)"
    and I_register: "I s \<Longrightarrow> D (cdef c) \<Longrightarrow> next_cluster s \<in> W \<and>
      I (s\<lparr>cluster_heap := (cluster_heap s)(next_cluster s \<mapsto> c), next_cluster := Suc (next_cluster s),
           clusters := fmupd (Cluster_QualifiedName c) (next_cluster s) (clusters s)\<rparr>)"
    and I_lookup: "I s \<Longrightarrow> D d \<Longrightarrow> fmlookup (clusters s) (QualifiedName d) = Some r \<Longrightarrow>
      r \<in> W \<and> (\<forall>c. cluster_heap s r = Some c \<longrightarrow> D (cdef c))"
    and I_drop: "I s \<Longrightarrow> D (cdef c) \<Longrightarrow> I (s\<lparr>clusters := fmdrop (Cluster_QualifiedName c) (clusters s)\<rparr>)"
    and I_topology: "I s \<Longrightarrow> D (cdef c) \<Longrightarrow> I (s\<lparr>topology := fmupd (Cluster_QualifiedName c) n (topology s)\<rparr>)"
      "I s \<Longrightarrow> D (cdef c) \<Longrightarrow> I (s\<lparr>topology := fmdrop (Cluster_QualifiedName c) (topology s)\<rparr>)"
begin

lemma I_trace: "I s \<Longrightarrow> list_all ok es \<Longrightarrow> I (s\<lparr>trace := trace s @ es\<rparr>)"
proof -
  have "s\<lparr>trace := trace s @ es\<rparr> = s\<lparr>world := world s, trace := trace s @ es\<rparr>" by (cases s) simp
  then show "I s \<Longrightarrow> list_all ok es \<Longrightarrow> I (s\<lparr>trace := trace s @ es\<rparr>)" by (simp only: I_emit)
qed

lemma kept_performs: "list_all ok es \<Longrightarrow> keeps I (performs es)"
  by (auto simp: keeps_def yields_def performs_def modify_def intro: I_trace)

lemma kept_perform: "ok e \<Longrightarrow> keeps I (perform e)"
  using I_trace [where es = "[e]"] by (auto simp: keeps_def yields_def perform_def modify_def)

lemma kept_ask: "keeps I (ask f)"
  using I_emit [where es = "[]"] by (auto simp: keeps_def yields_def ask_def split: prod.splits)

lemma kept_Sleep: "keeps I (Sleep env d)"
  using I_emit [where es = "[Slept d]"] ok_reading [of "Slept d"] by (auto simp: keeps_def yields_def Sleep_def)

lemma kept_call: "ok (Request req) \<Longrightarrow> keeps I (call srv req)"
  using I_emit [where es = "[Request req]"] by (auto simp: keeps_def yields_def call_def Let_def split: prod.splits)

lemma kept_read: "reading (Request req) \<Longrightarrow> keeps I (call srv req)"
  by (rule kept_call) (rule ok_reading)

lemma kept_Eventf: "D d \<Longrightarrow> keeps I (Eventf d ty reason msg)"
  unfolding Eventf_def by (rule kept_perform) (rule ok_event)

lemma kept_read_cassandra: "r \<in> R \<Longrightarrow> yields I (read_cassandra r) D"
  by (auto simp: yields_def read_cassandra_def bind_def gets_def deref_def pass_def panic_with_def
      split: option.splits intro: R_read)

lemma kept_read_cluster: "r \<in> K \<Longrightarrow> yields I (read_cluster r) (\<lambda>c. D (cdef c))"
  by (auto simp: yields_def read_cluster_def bind_def gets_def deref_def pass_def panic_with_def
      split: option.splits intro: K_read)

lemma kept_online: "r \<in> W \<Longrightarrow> keeps I (set_online r b)"
  by (auto simp: keeps_def yields_def set_online_def modify_def intro: I_online)

lemma kept_modify:
  "D (cdef c) \<Longrightarrow> keeps I (modify (\<lambda>s. s\<lparr>clusters := fmdrop (Cluster_QualifiedName c) (clusters s)\<rparr>))"
  "D (cdef c) \<Longrightarrow> keeps I (modify (\<lambda>s. s\<lparr>topology := fmupd (Cluster_QualifiedName c) n (topology s)\<rparr>))"
  "D (cdef c) \<Longrightarrow> keeps I (modify (\<lambda>s. s\<lparr>topology := fmdrop (Cluster_QualifiedName c) (topology s)\<rparr>))"
  by (auto simp: keeps_def yields_def modify_def intro: I_drop I_topology)

lemma kept_new_cluster:
  assumes "r \<in> R"
  shows "yields I (new_cluster env r) (\<lambda>x. \<forall>c. x = Inr c \<longrightarrow> D (cdef c))"
proof (rule yieldsI)
  fix s x t assume s: "I s" and run: "new_cluster env r s = Done x t"
  obtain d d' where d: "cassandra_heap s r = Some d" and new: "New (cron_ok env) d = (x, d')"
    and t: "t = s\<lparr>cassandra_heap := (cassandra_heap s)(r \<mapsto> d')\<rparr>"
    using run
    by (auto simp: new_cluster_def read_cassandra_def bind_def gets_def deref_def pass_def panic_with_def seq_def
        write_cassandra_def modify_def split: prod.splits option.splits)
  have D: "D d" by (rule R_read [OF s assms d])
  with New_same_kind [OF new] D_same have "D d'" "\<forall>c. x = Inr c \<longrightarrow> D (cdef c)" by blast+
  with I_write_cassandra [OF s assms] t show "I t \<and> (\<forall>c. x = Inr c \<longrightarrow> D (cdef c))" by blast
qed

lemma kept_copy_into:
  assumes "c_ref \<in> K" and "r \<in> R"
  shows "keeps I (copy_into env c_ref r)"
proof (rule keepsI)
  fix s x t assume s: "I s" and run: "copy_into env c_ref r s = Done x t"
  obtain c d c' d' where c: "cluster_heap s c_ref = Some c" and d: "cassandra_heap s r = Some d"
    and copy: "CopyInto (cron_ok env) c d = (x, c', d')"
    and t: "t = (s\<lparr>cassandra_heap := (cassandra_heap s)(r \<mapsto> d')\<rparr>)\<lparr>cluster_heap := (cluster_heap s)(c_ref \<mapsto> c')\<rparr>"
    using run
    by (auto simp: copy_into_def read_cluster_def read_cassandra_def bind_def gets_def deref_def pass_def panic_with_def seq_def
        write_cassandra_def write_cluster_def modify_def split: prod.splits option.splits)
  have "D d" "D (cdef c)" by (rule R_read [OF s assms(2) d], rule K_read [OF s assms(1) c])
  with CopyInto_same_kind [OF copy] D_same have "D d'" "D (cdef c')" by blast+
  with I_write_cluster [OF I_write_cassandra [OF s assms(2)] assms(1), of d' c'] t show "I t" by simp
qed

lemma kept_register:
  assumes "D (cdef c)" and "\<And>c_ref. c_ref \<in> W \<Longrightarrow> keeps I (f c_ref)"
  shows "keeps I (bind (alloc_cluster c) (\<lambda>c_ref.
    seq (modify (\<lambda>s. s\<lparr>clusters := fmupd (Cluster_QualifiedName c) c_ref (clusters s)\<rparr>)) (f c_ref)))"
proof (rule keepsI)
  fix s a t assume s: "I s" and "bind (alloc_cluster c) (\<lambda>c_ref.
    seq (modify (\<lambda>s. s\<lparr>clusters := fmupd (Cluster_QualifiedName c) c_ref (clusters s)\<rparr>)) (f c_ref)) s = Done a t"
  then have "f (next_cluster s) (s\<lparr>cluster_heap := (cluster_heap s)(next_cluster s \<mapsto> c), next_cluster := Suc (next_cluster s),
      clusters := fmupd (Cluster_QualifiedName c) (next_cluster s) (clusters s)\<rparr>) = Done a t"
    by (simp add: bind_def alloc_cluster_def seq_def modify_def)
  with I_register [OF s assms(1)] assms(2) show "I t" by (blast dest: keepsD)
qed

text \<open>The wait polls: its condition reads and reports.\<close>

lemma kept_wait:
  assumes "trusted env" and "D (cdef c)"
  shows "keeps I (WaitUntilRackChangeApplied env c sts)"
proof -
  have event: "ok (wait_event c sts)" using ok_event [OF assms(2)] by (simp add: wait_event_def)
  have poll: "keeps I (poll_until_applied env d c sts)" for d
  proof (rule keepsI)
    fix s x t assume s: "I s" and run: "poll_until_applied env d c sts s = Done x t"
    then obtain e u where u: "PollImmediateInfinite env d (statefulSetChangeApplied env c sts) s = Some (e, u)"
      and t: "t = u \<or> t = u\<lparr>trace := trace u @ [Applied (om_Namespace (sts_Meta sts)) (om_Name (sts_Meta sts))]\<rparr>"
      by (auto simp: poll_until_applied_def Let_def split: option.splits)
    have "I u"
    proof (rule poller.poll_keeps [OF poll_okD [OF trusted_poll [OF assms(1)]] u, where I = I, OF s])
      fix v assume v: "I v"
      let ?req = "Request (GetStatefulSet (om_Namespace (sts_Meta sts)) (om_Name (sts_Meta sts)))"
      have "I (v\<lparr>world := w, trace := trace v @ [?req]\<rparr>)" "I (v\<lparr>world := w, trace := trace v @ [?req, wait_event c sts]\<rparr>)" for w
        by (intro I_emit [OF v]; simp add: ok_reading event)+
      then show "I (snd (statefulSetChangeApplied env c sts v))"
        by (auto simp: statefulSetChangeApplied_def Let_def split: prod.splits sum.splits)
      from I_emit [OF v, of "[]"] show "I (pause env d v)" by (simp add: pause_def)
    qed
    with t I_trace [of u "[Applied (om_Namespace (sts_Meta sts)) (om_Name (sts_Meta sts))]"] show "I t"
      by (auto simp: ok_reading)
  qed
  show ?thesis
    unfolding WaitUntilRackChangeApplied_def recordWaitEvent_def
    by (intro keeps_seq keeps_bind_any keeps_pass kept_perform kept_Sleep poll event)
qed

lemma kept_create:
  assumes "D (cdef c)"
  shows "keeps I (CreateStatefulSetForRack env c rack m)"
proof (cases "createStatefulSetForRack c rack m")
  case (Inr sts)
  then have create: "CreateStatefulSetForRack env c rack m =
      call (api_stateful_set env) (CreateStatefulSet (Cluster_Namespace c) sts)"
    by (simp add: CreateStatefulSetForRack_def bind_def eval_def pass_def fun_eq_iff)
  show ?thesis unfolding create by (rule kept_call) (rule ok_create [OF assms Inr])
qed (auto simp: CreateStatefulSetForRack_def keeps_def yields_def bind_def eval_def panic_with_def)

text \<open>The parts of an operation, each with the best that is known of its result.\<close>

lemmas kept_rules =
  keeps_bind [OF kept_read_cluster] keeps_bind [OF kept_read_cassandra] keeps_bind [OF kept_new_cluster] kept_register
  keeps_bind_any keeps_seq keeps_pass keeps_case keeps_for_each keeps_reads kept_modify kept_ask kept_Sleep kept_read
  kept_perform kept_performs kept_Eventf kept_online kept_copy_into kept_create

lemma kept_requests:
  "keeps I (FindCustomConfigMap env n m)" "keeps I (GetStatefulSetForRack env c rack)" "keeps I (FindExistingResourcesFor env c)"
  "D (cdef c) \<Longrightarrow> keeps I (CreateServiceForCluster env c)" "D (cdef c) \<Longrightarrow> keeps I (DeleteServiceForCluster env c)"
  "D (cdef c) \<Longrightarrow> keeps I (DeleteStatefulSetsForCluster env c)" "D (cdef c) \<Longrightarrow> keeps I (PatchStatefulSet env c rack patch)"
  "D (cdef c) \<Longrightarrow> keeps I (UpdateStatefulSet env c sts)" "D (cdef c) \<Longrightarrow> keeps I (CreateCronJobForCluster env c job)"
  unfolding FindCustomConfigMap_def CreateServiceForCluster_def DeleteServiceForCluster_def
    DeleteStatefulSetsForCluster_def PatchStatefulSet_def GetStatefulSetForRack_def UpdateStatefulSet_def
    FindExistingResourcesFor_def serviceForCluster_def statefulSetsForCluster_def podsForCluster_def
    CreateCronJobForCluster_def Let_def
  by (intro kept_rules; simp; fail | intro kept_call ok_service ok_delete ok_patch ok_update ok_job; assumption)+

lemma kept_sets:
  assumes "trusted env" and "D (cdef c)"
  shows "keeps I (registerStatefulSet env c rack m)"
    and "keeps I (registerStatefulSets env c m)"
    and "keeps I (updateStatefulSet env c cm rack edit)"
    and "keeps I (patchStatefulSet env c change)"
  unfolding registerStatefulSets_def registerStatefulSet_def updateStatefulSet_def patchStatefulSet_def
  by (intro kept_rules kept_wait [OF assms] kept_requests assms(2))+

lemma kept_metrics:
  assumes "D (cdef c)"
  shows "keeps I (UpdateMetrics env c)" "keeps I (DeleteMetrics env c)"
proof -
  have send: "keeps I (sendRequestToJolokia env decode zero url)" for decode zero url
    unfolding sendRequestToJolokia_def by (intro kept_rules) simp
  have pods: "keeps I (list_pods env c)"
    unfolding list_pods_def by (intro kept_rules) simp
  have url: "keeps I (urlFor env c)"
    unfolding urlFor_def podsWithIPAddresses_def by (intro kept_rules pods)
  have mbeans: "keeps I (collect_mbeans env endpoint ms vs)" for endpoint ms vs
    by (induction ms arbitrary: vs) (auto intro!: kept_rules send)
  have racks: "keeps I (collect_racks env endpoint ips rs)" for endpoint ips rs
    by (induction ips arbitrary: rs) (auto intro!: kept_rules send)
  have gather: "keeps I (GatherMetricsFor env c)"
    unfolding GatherMetricsFor_def collectMbeanStatusValuesFor_def collectRackInfoFor_def
    by (intro kept_rules url mbeans racks)
  have update: "keeps I (updateNodeStatus c rack pod n)" for rack pod n
    unfolding updateNodeStatus_def by (rule kept_performs) (auto simp: list_all_iff intro: ok_node [OF assms])
  have report: "keeps I (report_nodes c cs podNames statuses ips nodes)" for cs podNames statuses ips nodes
    by (induction ips arbitrary: nodes) (auto simp: Let_def intro!: kept_rules update split: option.split)
  have remove: "keeps I (remove_nodes c nodes ps)" for nodes ps
    by (induction ps)
      (auto simp: RemoveNodeFromMetrics_def list_all_iff intro!: kept_rules ok_node [OF assms])
  show "keeps I (UpdateMetrics env c)"
    unfolding UpdateMetrics_def report_status_def range_order_def podsInCluster_def Let_def
    by (intro kept_rules pods gather report assms ok_size)
  show "keeps I (DeleteMetrics env c)"
    unfolding DeleteMetrics_def range_order_def
    by (intro kept_rules remove assms ok_size)
qed

text \<open>Cron jobs are written under the names under which the server listed them.\<close>

definition listed :: "CronJob \<Rightarrow> bool" where
  "listed j \<longleftrightarrow> (\<forall>j'. cj_Meta j' = cj_Meta j \<longrightarrow>
     ok (Request (DeleteCronJobReq (om_Namespace (cj_Meta j)) (om_Name (cj_Meta j)))) \<and>
     ok (Request (UpdateCronJobReq (om_Namespace (cj_Meta j')) j')))"

lemma kept_FindCronJob:
  assumes "trusted env" and "D d"
  shows "yields I (FindCronJobForCluster env d label) (\<lambda>r. \<forall>j. found_job r = Some j \<longrightarrow> listed j)"
proof (rule yieldsI)
  fix s r t assume s: "I s" and run: "FindCronJobForCluster env d label s = Done r t"
  let ?req = "ListCronJobs (Namespace d) label"
  obtain x w where x: "api_cron_jobs env ?req (world s) = (x, w)" by fastforce
  from run x have t: "t = s\<lparr>world := w, trace := trace s @ [Request ?req]\<rparr>"
    by (simp add: FindCronJobForCluster_def bind_def call_def pass_def)
  have "listed j" if j: "found_job r = Some j" for j
  proof -
    from run x j obtain jobs where jobs: "x = Inr jobs" "j \<in> set jobs"
      by (fastforce simp: FindCronJobForCluster_def bind_def call_def pass_def found_job_def split: sum.splits if_splits)
    show ?thesis
      unfolding listed_def using ok_listed [OF assms x [unfolded jobs(1)] jobs(2)] by blast
  qed
  moreover have "I t" unfolding t by (rule I_emit [OF s]) (simp add: ok_reading)
  ultimately show "I t \<and> (\<forall>j. found_job r = Some j \<longrightarrow> listed j)" by blast
qed

lemma kept_job_writes:
  "listed j \<Longrightarrow> keeps I (DeleteCronJob env j)"
  "listed j \<Longrightarrow> cj_Meta j' = cj_Meta j \<Longrightarrow> keeps I (UpdateCronJob env j')"
  unfolding DeleteCronJob_def UpdateCronJob_def listed_def by (rule kept_call; blast)+

lemma kept_updates:
  assumes "listed j" and "D (cdef c)"
  shows "keeps I (updateSnapshotJob env c r j)" "keeps I (updateSnapshotCleanupJob env c r j)"
proof -
  have set: "keeps I (bind (set_first_container ct (j\<lparr>cj_Schedule := x\<rparr>)) f)"
    if "\<And>j'. cj_Meta j' = cj_Meta j \<Longrightarrow> keeps I (f j')" for ct x f
    using that by (intro keeps_bind [OF set_first_container_meta]) simp
  show "keeps I (updateSnapshotJob env c r j)" "keeps I (updateSnapshotCleanupJob env c r j)"
    unfolding updateSnapshotJob_def updateSnapshotCleanupJob_def
    by (intro set kept_rules kept_job_writes [OF assms(1)] assms(2); assumption)+
qed

section \<open>Every operation\<close>

lemma kept_AddCluster:
  assumes "trusted env" and "r \<in> R"
  shows "keeps I (AddCluster_Execute env r)"
proof -
  have create: "keeps I (create_resources env c m)" if "D (cdef c)" for c m
    unfolding create_resources_def by (intro kept_rules kept_requests kept_sets [OF assms(1)] that)
  show ?thesis
    unfolding AddCluster_Execute_def
    by (intro kept_rules kept_requests assms(2); (intro kept_rules kept_requests create)?; blast)
qed

lemma kept_DeleteCluster:
  assumes "trusted env" and "r \<in> R"
  shows "keeps I (DeleteCluster_Execute env r)"
proof -
  have found: "keeps I (bind (gets (\<lambda>s. fmlookup (clusters s) (Namespace d @ ''.'' @ Name d))) (\<lambda>found.
      case found of None \<Rightarrow> pass () | Some c_ref \<Rightarrow> bind (read_cluster c_ref) (f c_ref)))"
    if d: "D d" and f: "\<And>c_ref c. c_ref \<in> W \<Longrightarrow> D (cdef c) \<Longrightarrow> keeps I (f c_ref c)" for d and f :: "ref \<Rightarrow> Cluster \<Rightarrow> (unit, 'w) action"
  proof (rule keepsI)
    fix s a t assume s: "I s" and run: "bind (gets (\<lambda>s. fmlookup (clusters s) (Namespace d @ ''.'' @ Name d))) (\<lambda>found.
      case found of None \<Rightarrow> pass () | Some c_ref \<Rightarrow> bind (read_cluster c_ref) (f c_ref)) s = Done a t"
    show "I t"
    proof (cases "fmlookup (clusters s) (QualifiedName d)")
      case None
      with run s show ?thesis by (simp add: bind_def gets_def pass_def QualifiedName_def)
    next
      case (Some c_ref)
      with run obtain c where c: "cluster_heap s c_ref = Some c" and go: "f c_ref c s = Done a t"
        by (auto simp: bind_def gets_def pass_def QualifiedName_def read_cluster_def deref_def panic_with_def split: option.splits)
      from I_lookup [OF s d Some] c have "keeps I (f c_ref c)" by (intro f) auto
      with s go show ?thesis by (blast dest: keepsD)
    qed
  qed
  show ?thesis
    unfolding DeleteCluster_Execute_def
    by (rule keeps_bind [OF kept_read_cassandra [OF assms(2)]], rule found, assumption)
      (intro kept_rules kept_requests kept_metrics; assumption)
qed

lemma kept_UpdateCluster:
  assumes "trusted env" and "c_ref \<in> K" and "OldCluster u \<in> R" and "NewCluster u \<in> R"
  shows "keeps I (UpdateCluster_Execute env c_ref u)"
proof -
  have change: "keeps I (apply_change env c d change)" if "D (cdef c)" and "D d" for c d change
    using that
    by (cases "ChangeType change")
      (auto simp: apply_change_def intro!: kept_rules kept_requests kept_sets [OF assms(1)])
  show ?thesis
    unfolding UpdateCluster_Execute_def by (intro kept_rules change assms(2,3,4); assumption)
qed

lemma kept_snapshot_operations:
  assumes "trusted env"
  shows "r \<in> R \<Longrightarrow> keeps I (AddSnapshot_Execute env r)"
    and "r \<in> R \<Longrightarrow> keeps I (AddSnapshotCleanup_Execute env r)"
    and "r \<in> R \<Longrightarrow> keeps I (DeleteSnapshot_Execute env r)"
    and "r \<in> R \<Longrightarrow> keeps I (DeleteSnapshotCleanup_Execute env r)"
    and "c \<in> K \<Longrightarrow> keeps I (UpdateSnapshot_Execute env c r)"
    and "c \<in> K \<Longrightarrow> keeps I (UpdateSnapshotCleanup_Execute env c r)"
  unfolding AddSnapshot_Execute_def AddSnapshotCleanup_Execute_def DeleteSnapshot_Execute_def
    DeleteSnapshotCleanup_Execute_def UpdateSnapshot_Execute_def UpdateSnapshotCleanup_Execute_def
  by (intro keeps_bind [OF kept_FindCronJob [OF assms]] kept_rules kept_requests kept_job_writes kept_updates;
    blast)+

lemma kept_cluster_operations:
  assumes "trusted env" and "c \<in> K"
  shows "keeps I (GatherMetrics_Execute env c)"
    and "keeps I (AddCustomConfig_Execute env c m)"
    and "keeps I (UpdateCustomConfig_Execute env c m)"
    and "keeps I (DeleteCustomConfig_Execute env c m)"
  unfolding GatherMetrics_Execute_def AddCustomConfig_Execute_def UpdateCustomConfig_Execute_def DeleteCustomConfig_Execute_def
  by (intro kept_rules kept_metrics kept_sets [OF assms(1)] assms(2); assumption)+

lemma kept_Execute:
  assumes "trusted env" and "operation_refs op \<subseteq> R" and "operation_clusters op \<subseteq> K"
  shows "keeps I (Execute_operation env op)"
  using assms(2,3) kept_AddCluster [OF assms(1)] kept_DeleteCluster [OF assms(1)] kept_UpdateCluster [OF assms(1)]
    kept_snapshot_operations [OF assms(1)] kept_cluster_operations [OF assms(1)]
  by (cases op) simp_all

lemma kept_execute_all:
  assumes "trusted env"
  shows "\<forall>op \<in> set ops. operation_refs op \<subseteq> R \<and> operation_clusters op \<subseteq> K \<Longrightarrow> keeps I (execute_all env ops)"
  by (induction ops)
    (auto intro!: keeps_pass keeps_bind_any [OF keeps_operation_String] keeps_seq kept_Execute [OF assms])

lemma kept_Receive:
  assumes "trusted env" and "event_refs (Event_Data e) \<subseteq> R \<and> event_clusters s (Event_Data e) \<subseteq> K"
    and "I s" and "Receive env e s = Done () t"
  shows "I t"
proof -
  obtain ops u where ops: "operationsToExecute e s = Done ops u" and run: "execute_all env ops u = Done () t"
    using assms(4) by (auto simp: Receive_def bind_def split: outcome.splits)
  from operationsToExecute_refs [OF ops] assms(2)
  have u: "u = s" and "\<forall>op \<in> set ops. operation_refs op \<subseteq> R \<and> operation_clusters op \<subseteq> K" by blast+
  from keepsD [OF kept_execute_all [OF assms(1) this(2)] assms(3)] run u show "I t" by simp
qed

end

end
