(* ===== verification/OperatorEvents.thy ===== *)
theory OperatorEvents
  imports Receiver
begin

text \<open>
  Where events come from, after \<^verbatim>\<open>cassandra-operator/pkg/operator/operator.go\<close>: the handlers of the
  two informers and the metrics poll, and after \<^verbatim>\<open>cmd/operator/main.go\<close> the configuration they run
  with. A handler returns the events it hands to the dispatcher, in order.
\<close>

section \<open>Configuration\<close>

record Config =
  MetricPollInterval :: Duration
  MetricRequestDuration :: Duration
  AllowEmptyDir :: bool

text \<open>The flags of the command line.\<close>

record Flags =
  metricPollInterval :: Duration
  metricRequestTimeout :: Duration
  logLevel :: string
  allowEmptyDir :: bool

definition default_flags :: Flags where
  "default_flags = \<lparr>metricPollInterval = 5 * Second, metricRequestTimeout = 2 * Second,
     logLevel = ''info'', allowEmptyDir = False\<rparr>"

text \<open>A duration is positive when adding it to the current time gives a later time.\<close>

definition isPositive :: "Duration \<Rightarrow> bool" where
  "isPositive duration \<longleftrightarrow> 0 <s duration"

datatype args_error = InvalidPollInterval | InvalidLogLevel

text \<open>Which log levels parse is up to the logging library.\<close>

definition handleArgs :: "(string \<Rightarrow> bool) \<Rightarrow> Flags \<Rightarrow> args_error option" where
  "handleArgs parses_level flags =
     (if \<not> isPositive (metricPollInterval flags) then Some InvalidPollInterval
      else if \<not> parses_level (logLevel flags) then Some InvalidLogLevel
      else None)"

definition startOperator :: "Flags \<Rightarrow> Config" where
  "startOperator flags = \<lparr>MetricPollInterval = metricPollInterval flags,
     MetricRequestDuration = metricPollInterval flags, AllowEmptyDir = allowEmptyDir flags\<rparr>"

section \<open>Handlers\<close>

text \<open>
  What an informer hands over is an \<open>interface{}\<close>: an object, or for a deletion that the watch
  missed a \<open>cache.DeletedFinalStateUnknown\<close> with the key of the object.
\<close>

datatype informer_object =
    CassandraObject ref
  | ConfigMapObject ConfigMap
  | DeletedFinalStateUnknown string

definition assert_Cassandra :: "informer_object \<Rightarrow> (ref, 'w) action" where
  "assert_Cassandra obj = (case obj of CassandraObject r \<Rightarrow> pass r | _ \<Rightarrow> panic_with TypeAssertion)"

definition assert_ConfigMap :: "informer_object \<Rightarrow> (ConfigMap, 'w) action" where
  "assert_ConfigMap obj = (case obj of ConfigMapObject m \<Rightarrow> pass m | _ \<Rightarrow> panic_with TypeAssertion)"

definition config_event :: "string \<Rightarrow> ConfigMap \<Rightarrow> ConfigMap \<Rightarrow> Event" where
  "config_event kind keyed cm =
     \<lparr>Kind = kind, Key = cm_Namespace keyed @ ''.'' @ cm_Name keyed, Event_Data = ConfigMapData cm\<rparr>"

text \<open>The map of clusters as the handlers read it: from names to the clusters it points to.\<close>

definition managed_clusters :: "'w sys \<Rightarrow> (string, Cluster) fmap" where
  "managed_clusters s =
     fmmap (\<lambda>r. case cluster_heap s r of None \<Rightarrow> zero_Cluster | Some c \<Rightarrow> c) (clusters s)"

definition configMapAdded :: "informer_object \<Rightarrow> (Event list, 'w) action" where
  "configMapAdded obj =
     bind (assert_ConfigMap obj) (\<lambda>cm.
       pass (if LooksLikeACassandraConfigMap cm then [config_event AddCustomConfig cm cm] else []))"

definition configMapDeleted :: "informer_object \<Rightarrow> (Event list, 'w) action" where
  "configMapDeleted obj =
     bind (assert_ConfigMap obj) (\<lambda>cm.
     bind (gets managed_clusters) (\<lambda>managed.
       pass (if ConfigMapBelongsToAManagedCluster managed cm
             then [config_event DeleteCustomConfig cm cm] else [])))"

definition configMapUpdated :: "informer_object \<Rightarrow> informer_object \<Rightarrow> (Event list, 'w) action" where
  "configMapUpdated old new =
     bind (assert_ConfigMap old) (\<lambda>oldConfigMap.
     bind (assert_ConfigMap new) (\<lambda>newConfigMap.
       if Data oldConfigMap = Data newConfigMap then pass []
       else
         bind (gets managed_clusters) (\<lambda>managed.
           pass (if ConfigMapBelongsToAManagedCluster managed oldConfigMap
                 then [config_event UpdateCustomConfig oldConfigMap newConfigMap] else []))))"

text \<open>The definition an event carries is the informer's own object, which is changed in place.\<close>

definition adjustUseEmptyDir :: "Config \<Rightarrow> ref \<Rightarrow> (unit, 'w) action" where
  "adjustUseEmptyDir config r =
     bind (read_cassandra r) (\<lambda>d.
       if UseEmptyDir (Spec d) \<and> \<not> AllowEmptyDir config
       then write_cassandra r (d\<lparr>Spec := (Spec d)\<lparr>UseEmptyDir := False\<rparr>\<rparr>)
       else pass ())"

definition cluster_event :: "string \<Rightarrow> ref \<Rightarrow> event_data \<Rightarrow> (Event list, 'w) action" where
  "cluster_event kind r data =
     bind (read_cassandra r) (\<lambda>d.
       pass [\<lparr>Kind = kind, Key = Namespace d @ ''.'' @ Name d, Event_Data = data\<rparr>])"

definition clusterAdded :: "Config \<Rightarrow> informer_object \<Rightarrow> (Event list, 'w) action" where
  "clusterAdded config obj =
     bind (assert_Cassandra obj) (\<lambda>clusterDefinition.
     seq (adjustUseEmptyDir config clusterDefinition)
         (cluster_event AddCluster clusterDefinition (CassandraData clusterDefinition)))"

definition clusterDeleted :: "Config \<Rightarrow> informer_object \<Rightarrow> (Event list, 'w) action" where
  "clusterDeleted config obj =
     bind (assert_Cassandra obj) (\<lambda>clusterDefinition.
     seq (adjustUseEmptyDir config clusterDefinition)
         (cluster_event DeleteCluster clusterDefinition (CassandraData clusterDefinition)))"

definition clusterUpdated :: "Config \<Rightarrow> informer_object \<Rightarrow> informer_object \<Rightarrow> (Event list, 'w) action" where
  "clusterUpdated config old new =
     bind (assert_Cassandra old) (\<lambda>oldCluster.
     bind (assert_Cassandra new) (\<lambda>newCluster.
     seq (adjustUseEmptyDir config oldCluster)
    (seq (adjustUseEmptyDir config newCluster)
    (bind (read_cassandra oldCluster) (\<lambda>o'.
     bind (read_cassandra newCluster) (\<lambda>n.
       if Spec o' = Spec n then pass []
       else cluster_event UpdateCluster newCluster
              (ClusterUpdateData \<lparr>OldCluster = oldCluster, NewCluster = newCluster\<rparr>)))))))"

section \<open>The metrics poll\<close>

fun online_events :: "(string, ref) fmap \<Rightarrow> string list \<Rightarrow> (Event list, 'w) action" where
  "online_events managed [] = pass []"
| "online_events managed (name # names) =
     (case fmlookup managed name of
        None \<Rightarrow> online_events managed names
      | Some r \<Rightarrow>
          bind (read_cluster r) (\<lambda>c.
          bind (online_events managed names) (\<lambda>events.
            pass (if Online c
                  then \<lparr>Kind = GatherMetrics, Key = Cluster_QualifiedName c, Event_Data = ClusterData r\<rparr> # events
                  else events))))"

definition poll_round :: "'w Env \<Rightarrow> (Event list, 'w) action" where
  "poll_round env =
     bind (gets clusters) (\<lambda>managed. bind (range_order env managed) (online_events managed))"

text \<open>The poll runs for ever; these are its first \<open>n\<close> rounds.\<close>

fun startMetricPolling :: "'w Env \<Rightarrow> Config \<Rightarrow> nat \<Rightarrow> (Event list, 'w) action" where
  "startMetricPolling env config 0 = pass []"
| "startMetricPolling env config (Suc n) =
     bind (poll_round env) (\<lambda>events.
     seq (Sleep env (MetricPollInterval config))
         (bind (startMetricPolling env config n) (\<lambda>later. pass (events @ later))))"

section \<open>The status server\<close>

datatype http_write = WriteHeader int | Write string

definition livenessAndReadinessCheck :: "http_write list" where
  "livenessAndReadinessCheck = [WriteHeader 204]"

definition handleServerErrorf :: "http_write list" where
  "handleServerErrorf =
     [WriteHeader 500, Write ''Error while executing check. Please consult logs for details.'']"

text \<open>The page is written whether or not its content could be marshalled.\<close>

definition statusPage :: "string + string \<Rightarrow> http_write list" where
  "statusPage marshalled =
     (case marshalled of Inl err \<Rightarrow> handleServerErrorf | Inr bytes \<Rightarrow> []) @
     [WriteHeader 200, Write (case marshalled of Inl err \<Rightarrow> [] | Inr bytes \<Rightarrow> bytes)]"

section \<open>Rules for the handlers\<close>

definition adjusted :: "Config \<Rightarrow> Cassandra \<Rightarrow> Cassandra" where
  "adjusted config d =
     d\<lparr>Spec := (Spec d)\<lparr>UseEmptyDir := UseEmptyDir (Spec d) \<and> AllowEmptyDir config\<rparr>\<rparr>"

lemma adjusted_simps [simp]:
  "Name (adjusted config d) = Name d" "Namespace (adjusted config d) = Namespace d"
  "QualifiedName (adjusted config d) = QualifiedName d"
  "Spec_Snapshot (Spec (adjusted config d)) = Spec_Snapshot (Spec d)"
  "adjusted config (adjusted config d) = adjusted config d"
  "UseEmptyDir (Spec (adjusted config d)) \<longleftrightarrow> UseEmptyDir (Spec d) \<and> AllowEmptyDir config"
  by (auto simp: adjusted_def QualifiedName_def)

lemma adjust_run [op_simps]:
  assumes "cassandra_heap s r = Some d"
  shows "goes (adjustUseEmptyDir config r s) Q \<longleftrightarrow>
    Q () (s\<lparr>cassandra_heap := (cassandra_heap s)(r \<mapsto> adjusted config d)\<rparr>)"
proof -
  have same: "s\<lparr>cassandra_heap := (cassandra_heap s)(r \<mapsto> d)\<rparr> = s"
  proof -
    have "(cassandra_heap s)(r \<mapsto> d) = cassandra_heap s" using assms by auto
    then show ?thesis by simp
  qed
  have id: "adjusted config d = d" if "UseEmptyDir (Spec d) \<longrightarrow> AllowEmptyDir config"
    using that by (cases d, cases "Spec d") (auto simp: adjusted_def)
  show ?thesis
  proof (cases "UseEmptyDir (Spec d) \<longrightarrow> AllowEmptyDir config")
    case True
    then show ?thesis
      unfolding id [OF True] same using assms by (auto simp: adjustUseEmptyDir_def op_simps)
  next
    case False
    with assms show ?thesis by (simp add: adjustUseEmptyDir_def op_simps adjusted_def)
  qed
qed

lemma goes_cluster_event [op_simps]:
  assumes "cassandra_heap s r = Some d"
  shows "goes (cluster_event kind r data s) Q \<longleftrightarrow>
    Q [\<lparr>Kind = kind, Key = QualifiedName d, Event_Data = data\<rparr>] s"
  using assms by (simp add: cluster_event_def op_simps QualifiedName_def)

lemma goes_assert [op_simps]:
  "goes (assert_Cassandra (CassandraObject r) s) Q \<longleftrightarrow> Q r s"
  "goes (assert_ConfigMap (ConfigMapObject m) s) Q' \<longleftrightarrow> Q' m s"
  by (simp_all add: assert_Cassandra_def assert_ConfigMap_def op_simps)

section \<open>Events of one cluster share a queue\<close>

text \<open>The cluster an event is about, by its qualified name.\<close>

fun event_subject :: "'w sys \<Rightarrow> event_data \<Rightarrow> string option" where
  "event_subject s (CassandraData r) = map_option QualifiedName (cassandra_heap s r)"
| "event_subject s (ClusterUpdateData u) = map_option QualifiedName (cassandra_heap s (NewCluster u))"
| "event_subject s (ClusterData c) = map_option Cluster_QualifiedName (cluster_heap s c)"
| "event_subject s (ConfigMapData m) = None"

definition keyed_by_subject :: "'w sys \<Rightarrow> Event \<Rightarrow> bool" where
  "keyed_by_subject s e \<longleftrightarrow> event_subject s (Event_Data e) = Some (Key e)"

text \<open>The handlers of the informer for clusters.\<close>

datatype notification =
    Added informer_object
  | Updated_from informer_object informer_object
  | Deleted informer_object

fun cluster_handler :: "Config \<Rightarrow> notification \<Rightarrow> (Event list, 'w) action" where
  "cluster_handler config (Added obj) = clusterAdded config obj"
| "cluster_handler config (Updated_from old new) = clusterUpdated config old new"
| "cluster_handler config (Deleted obj) = clusterDeleted config obj"

fun config_handler :: "notification \<Rightarrow> (Event list, 'w) action" where
  "config_handler (Added obj) = configMapAdded obj"
| "config_handler (Updated_from old new) = configMapUpdated old new"
| "config_handler (Deleted obj) = configMapDeleted obj"

text \<open>Notifications that carry definitions which are there.\<close>

fun known_clusters :: "'w sys \<Rightarrow> notification \<Rightarrow> bool" where
  "known_clusters s (Added obj) \<longleftrightarrow> (\<exists>r. obj = CassandraObject r \<and> cassandra_heap s r \<noteq> None)"
| "known_clusters s (Deleted obj) \<longleftrightarrow> (\<exists>r. obj = CassandraObject r \<and> cassandra_heap s r \<noteq> None)"
| "known_clusters s (Updated_from old new) \<longleftrightarrow>
     (\<exists>r q. old = CassandraObject r \<and> new = CassandraObject q \<and>
        cassandra_heap s r \<noteq> None \<and> cassandra_heap s q \<noteq> None)"

lemma goes_cluster_handler:
  assumes "known_clusters s n"
    and "\<And>kind r d t. kind = AddCluster \<or> kind = DeleteCluster \<Longrightarrow> cassandra_heap s r = Some d \<Longrightarrow>
      t = s\<lparr>cassandra_heap := (cassandra_heap s)(r \<mapsto> adjusted config d)\<rparr> \<Longrightarrow>
      Q [\<lparr>Kind = kind, Key = QualifiedName d, Event_Data = CassandraData r\<rparr>] t"
    and "\<And>r q o' d t es. cassandra_heap s r = Some o' \<Longrightarrow> cassandra_heap s q = Some d \<Longrightarrow>
      t = s\<lparr>cassandra_heap := (cassandra_heap s)(r \<mapsto> adjusted config o', q \<mapsto> adjusted config d)\<rparr> \<Longrightarrow>
      es = (if r = q \<or> Spec (adjusted config o') = Spec (adjusted config d) then []
            else [\<lparr>Kind = UpdateCluster, Key = QualifiedName d,
                   Event_Data = ClusterUpdateData \<lparr>OldCluster = r, NewCluster = q\<rparr>\<rparr>]) \<Longrightarrow> Q es t"
  shows "goes (cluster_handler config n s) Q"
proof (cases n)
  case (Added obj)
  with assms(1) obtain r d where "obj = CassandraObject r" "cassandra_heap s r = Some d" by auto
  with Added assms(2) [OF disjI1 [OF refl]] show ?thesis by (simp add: clusterAdded_def op_simps)
next
  case (Deleted obj)
  with assms(1) obtain r d where "obj = CassandraObject r" "cassandra_heap s r = Some d" by auto
  with Deleted assms(2) [OF disjI2 [OF refl]] show ?thesis by (simp add: clusterDeleted_def op_simps)
next
  case (Updated_from old new)
  with assms(1) obtain r q o' d where objs: "old = CassandraObject r" "new = CassandraObject q"
    "cassandra_heap s r = Some o'" "cassandra_heap s q = Some d" by auto
  show ?thesis
  proof (cases "r = q")
    case True
    with objs have "o' = d" by simp
    with True objs Updated_from assms(3) [OF objs(3,4) refl refl] show ?thesis
      by (simp add: clusterUpdated_def op_simps)
  next
    case False
    with objs Updated_from assms(3) [OF objs(3,4) refl refl] show ?thesis
      by (cases "Spec (adjusted config o') = Spec (adjusted config d)") (simp_all add: clusterUpdated_def op_simps)
  qed
qed

lemma goes_online_events:
  assumes "memory_ok env s"
  shows "goes (online_events (clusters s) names s) (\<lambda>es t. t = s \<and>
    (\<forall>e \<in> set es. Kind e = GatherMetrics \<and> kind_ok (Kind e) (Event_Data e) \<and> keyed_by_subject s e) \<and>
    map Key es = filter (\<lambda>n. \<exists>r c. fmlookup (clusters s) n = Some r \<and> cluster_heap s r = Some c \<and> Online c) names)"
proof (induction names)
  case (Cons n names)
  show ?case
  proof (cases "fmlookup (clusters s) n")
    case (Some r)
    with assms obtain c where c: "cluster_heap s r = Some c" "Cluster_QualifiedName c = n"
      unfolding memory_ok_def by blast
    show ?thesis
      unfolding online_events.simps Some option.case goes_bind goes_read_cluster [OF c(1)]
      by (rule goes_weaken [OF Cons.IH])
        (auto simp: op_simps Some c keyed_by_subject_def)
  qed (use Cons.IH in simp)
qed (simp add: op_simps)

text \<open>The clusters that are online.\<close>

definition online :: "'w sys \<Rightarrow> string set" where
  "online s = {n. \<exists>r c. fmlookup (clusters s) n = Some r \<and> cluster_heap s r = Some c \<and> Online c}"

text \<open>
  Every event that the informer for clusters or the metrics poll dispatches is keyed by the
  qualified name of the cluster it is about, so that the dispatcher serialises all events of a
  cluster; and a round of the poll asks once for the metrics of every cluster that is online,
  and for no other.
\<close>

theorem cluster_events_keyed:
  assumes "memory_ok env s" and "range_ok env" and "known_clusters s n"
  shows "goes (cluster_handler config n s) (\<lambda>es t. \<forall>e \<in> set es. keyed_by_subject t e) \<and>
    goes (poll_round env s) (\<lambda>es t. (\<forall>e \<in> set es. Kind e = GatherMetrics \<and> keyed_by_subject t e) \<and>
      set (map Key es) = online s \<and> distinct (map Key es))"
proof
  show "goes (cluster_handler config n s) (\<lambda>es t. \<forall>e \<in> set es. keyed_by_subject t e)"
    by (rule goes_cluster_handler [OF assms(3)]) (auto simp: keyed_by_subject_def)
  let ?keys = "fst (range_keys env (sorted_list_of_fset (fmdom (clusters s))) (world s))"
  let ?t = "s\<lparr>world := snd (range_keys env (sorted_list_of_fset (fmdom (clusters s))) (world s))\<rparr>"
  note keys = range_order_keys [OF assms(2), of "clusters s" "world s"]
  have t: "memory_ok env ?t" using assms(1) by (simp add: memory_ok_def)
  have sub: "keyed_by_subject ?t e = keyed_by_subject s e" for e
    by (cases "Event_Data e") (simp_all add: keyed_by_subject_def)
  have "goes (online_events (clusters s) ?keys ?t) (\<lambda>es t.
      (\<forall>e \<in> set es. Kind e = GatherMetrics \<and> keyed_by_subject t e) \<and>
      set (map Key es) = online s \<and> distinct (map Key es))"
  proof (rule goes_weaken [OF goes_online_events [OF t, of ?keys, simplified]], intro conjI)
    fix es u
    let ?P = "\<lambda>n. \<exists>r. fmlookup (clusters s) n = Some r \<and> (\<exists>c. cluster_heap s r = Some c \<and> Online c)"
    assume es: "u = ?t \<and> (\<forall>e \<in> set es. Kind e = GatherMetrics \<and> kind_ok (Kind e) (Event_Data e) \<and> keyed_by_subject ?t e) \<and>
      map Key es = filter ?P ?keys"
    then show "\<forall>e \<in> set es. Kind e = GatherMetrics \<and> keyed_by_subject u e" by simp
    have eq: "map Key es = filter ?P ?keys" using es by simp
    show "distinct (map Key es)" unfolding eq using keys(2) by simp
    show "set (map Key es) = online s" unfolding eq set_filter keys(1) online_def by (auto intro: fmdomI)
  qed
  then show "goes (poll_round env s) (\<lambda>es t. (\<forall>e \<in> set es. Kind e = GatherMetrics \<and> keyed_by_subject t e) \<and>
      set (map Key es) = online s \<and> distinct (map Key es))"
    by (simp add: poll_round_def op_simps range_order_eq goes_Done)
qed

lemma cluster_events_keyed_witness:
  "goes (cluster_handler (startOperator default_flags) (Added (CassandraObject 0)) sample_sys)
     (\<lambda>es t. \<forall>e \<in> set es. keyed_by_subject t e) \<and>
   goes (poll_round server_env sample_sys) (\<lambda>es t.
     (\<forall>e \<in> set es. Kind e = GatherMetrics \<and> keyed_by_subject t e) \<and>
     set (map Key es) = online sample_sys \<and> distinct (map Key es))"
  by (rule cluster_events_keyed [OF sample_sys_ok(1) env_okD(2) [OF server_env_ok]])
    (simp add: sample_sys_ok)

text \<open>
  The events of a config map are keyed by the name of the config map, which is never the
  qualified name of the cluster they concern: changes of a cluster's configuration are not
  serialised with the other changes of the cluster.
\<close>

theorem config_events_not_keyed_by_cluster:
  assumes "QualifiedClusterNameFor cm = Inr cluster"
    and "config_handler n s = Done es t" and "e \<in> set es"
    and "n = Added (ConfigMapObject cm) \<or> n = Deleted (ConfigMapObject cm) \<or>
      (\<exists>new. n = Updated_from (ConfigMapObject cm) (ConfigMapObject new))"
  shows "Key e = cm_Namespace cm @ ''.'' @ cm_Name cm \<and> Key e \<noteq> cluster"
proof -
  have key: "Key e = cm_Namespace cm @ ''.'' @ cm_Name cm"
    using assms(2-4)
    by (auto simp: configMapAdded_def configMapDeleted_def configMapUpdated_def assert_ConfigMap_def
        bind_def pass_def gets_def config_event_def split: if_splits)
  have suffix: "HasSuffix (cm_Name cm) ''-config''" and
    cluster: "cluster = cm_Namespace cm @ ''.'' @ ReplaceAll (cm_Name cm) ''-config'' []"
    using assms(1) by (auto simp: QualifiedClusterNameFor_def LooksLikeACassandraConfigMap_def split: if_splits)
  from suffix have "sublist ''-config'' (cm_Name cm)"
    by (auto simp: HasSuffix_def suffix_def)
  then have "length (ReplaceAll (cm_Name cm) ''-config'' []) < length (cm_Name cm)"
    using length_ReplaceAll_less [of "''-config''" "cm_Name cm"] by simp
  then have "ReplaceAll (cm_Name cm) ''-config'' [] \<noteq> cm_Name cm" by auto
  with key cluster show ?thesis by simp
qed

lemma config_events_not_keyed_by_cluster_witness:
  "QualifiedClusterNameFor sample_config = Inr ''mynamespace.mycluster'' \<and>
   Key (config_event AddCustomConfig sample_config sample_config) \<noteq> ''mynamespace.mycluster''"
proof -
  have n: "QualifiedClusterNameFor sample_config = Inr ''mynamespace.mycluster''" by code_simp
  have "LooksLikeACassandraConfigMap sample_config" by code_simp
  then have "config_handler (Added (ConfigMapObject sample_config)) sample_sys =
      Done [config_event AddCustomConfig sample_config sample_config] sample_sys"
    by (simp add: configMapAdded_def bind_def pass_def assert_ConfigMap_def)
  from config_events_not_keyed_by_cluster [OF n this] n show ?thesis by auto
qed

text \<open>
  No definition with storage in an empty directory leaves the informer's handlers unless the
  operator is configured to allow it, and an update is dispatched exactly when the two
  definitions still differ after that adjustment.
\<close>

theorem handlers_adjust_storage:
  assumes "cassandra_heap s r = Some old" and "cassandra_heap s q = Some new" and "r \<noteq> q"
  shows "goes (cluster_handler config (Updated_from (CassandraObject r) (CassandraObject q)) s) (\<lambda>es t.
    cassandra_heap t r = Some (adjusted config old) \<and> cassandra_heap t q = Some (adjusted config new) \<and>
    (UseEmptyDir (Spec (adjusted config new)) \<longrightarrow> AllowEmptyDir config) \<and>
    (es = [] \<longleftrightarrow> Spec (adjusted config old) = Spec (adjusted config new)) \<and> length es \<le> 1)"
  using assms by (simp add: clusterUpdated_def op_simps)

lemma handlers_adjust_storage_witness:
  "goes (cluster_handler (startOperator default_flags) (Updated_from (CassandraObject 0) (CassandraObject 5)) update_sys)
     (\<lambda>es t. length es \<le> 1)"
  by (rule goes_weaken [OF handlers_adjust_storage [OF update_sys_fields(2,3)]]) simp_all

text \<open>
  A deletion that the watch has missed reaches the handlers as a tombstone, and both of them
  panic on it.
\<close>

theorem tombstones_panic:
  "cluster_handler config (Deleted (DeletedFinalStateUnknown key)) s = Panicked TypeAssertion s \<and>
   config_handler (Deleted (DeletedFinalStateUnknown key)) s = Panicked TypeAssertion s"
  by (simp add: clusterDeleted_def configMapDeleted_def assert_Cassandra_def assert_ConfigMap_def
      bind_def panic_with_def)

text \<open>
  The operator starts exactly with a positive poll interval and a log level that parses; the
  time limit it sets for requests to Cassandra is then the poll interval, whatever the flag for
  the request timeout says.
\<close>

theorem startOperator_ignores_timeout:
  "(handleArgs parses_level flags = None \<longleftrightarrow>
      0 < sint (metricPollInterval flags) \<and> parses_level (logLevel flags)) \<and>
   MetricRequestDuration (startOperator flags) = metricPollInterval flags \<and>
   startOperator (flags\<lparr>metricRequestTimeout := t\<rparr>) = startOperator flags"
  by (simp add: handleArgs_def startOperator_def isPositive_def word_sless_alt)

section \<open>The running operator\<close>

text \<open>
  The operator as a transition system: the memory and the events that have been dispatched and not
  been handled. Informers deliver definitions and notifications, the poll adds its events, and any
  pending event may be the next to be handled. Workers handle one event at a time here; that they
  share the map of clusters without a lock is outside the model.
\<close>

definition started :: "'w \<Rightarrow> 'w sys" where
  "started w = \<lparr>clusters = fmempty, cluster_heap = Map.empty, next_cluster = 0,
     cassandra_heap = Map.empty, topology = fmempty, trace = [], world = w\<rparr>"

text \<open>A definition whose snapshot sets everything that an update compares.\<close>

definition explicit :: "Cassandra \<Rightarrow> bool" where
  "explicit d \<longleftrightarrow> (\<forall>q. Spec_Snapshot (Spec d) = Some q \<longrightarrow> Snapshot_TimeoutSeconds q \<noteq> None \<and>
     (\<forall>p. Snapshot_RetentionPolicy q = Some p \<longrightarrow>
        CleanupTimeoutSeconds p \<noteq> None \<and> RetentionPeriodDays p \<noteq> None))"

fun objects :: "notification \<Rightarrow> informer_object list" where
  "objects (Added obj) = [obj]"
| "objects (Updated_from old new) = [old, new]"
| "objects (Deleted obj) = [obj]"

definition explicit_objects :: "'w sys \<Rightarrow> notification \<Rightarrow> bool" where
  "explicit_objects s n \<longleftrightarrow>
     (\<forall>r d. CassandraObject r \<in> set (objects n) \<longrightarrow> cassandra_heap s r = Some d \<longrightarrow> explicit d)"

inductive operator_run :: "'w Env \<Rightarrow> Config \<Rightarrow> 'w sys \<Rightarrow> Event list \<Rightarrow> bool"
  for env :: "'w Env" and config :: Config where
  run_start: "operator_run env config (started w) []"
| run_deliver: "operator_run env config s q \<Longrightarrow> cassandra_heap s r = None \<Longrightarrow>
    operator_run env config (s\<lparr>cassandra_heap := (cassandra_heap s)(r \<mapsto> d)\<rparr>) q"
| run_notify: "operator_run env config s q \<Longrightarrow> known_clusters s n \<Longrightarrow> explicit_objects s n \<Longrightarrow>
    cluster_handler config n s = Done es t \<Longrightarrow> operator_run env config t (q @ es)"
| run_config: "operator_run env config s q \<Longrightarrow> config_handler n s = Done es t \<Longrightarrow>
    operator_run env config t (q @ es)"
| run_poll: "operator_run env config s q \<Longrightarrow> poll_round env s = Done es t \<Longrightarrow>
    operator_run env config t (q @ es)"
| run_handle: "operator_run env config s (p @ e # q) \<Longrightarrow> Receive env e s = Done () t \<Longrightarrow>
    operator_run env config t (p @ q)"
| run_elapse: "operator_run env config s q \<Longrightarrow> operator_run env config (s\<lparr>world := w\<rparr>) q"

text \<open>What a pending event needs, in a form that the handling of other events keeps.\<close>

fun data_explicit :: "'w sys \<Rightarrow> event_data \<Rightarrow> bool" where
  "data_explicit s (ClusterUpdateData u) \<longleftrightarrow>
     (\<forall>d. cassandra_heap s (OldCluster u) = Some d \<or> cassandra_heap s (NewCluster u) = Some d \<longrightarrow> explicit d)"
| "data_explicit s data \<longleftrightarrow> True"

definition pending_ok :: "'w sys \<Rightarrow> Event \<Rightarrow> bool" where
  "pending_ok s e \<longleftrightarrow> kind_ok (Kind e) (Event_Data e) \<and> data_ok s (Event_Data e) \<and> data_explicit s (Event_Data e)"

lemma explicit_comparable:
  assumes "explicit old" and "explicit new"
  shows "comparable (Spec_Snapshot (Spec old)) (Spec_Snapshot (Spec new))"
  unfolding comparable_def
proof (intro allI impI)
  fix o' n assume on: "Spec_Snapshot (Spec old) = Some o'" "Spec_Snapshot (Spec new) = Some n"
  have 1: "SnapshotPropertiesUpdated o' n \<noteq> Inl p" for p
    using assms on by (auto simp: SnapshotPropertiesUpdated_panic_iff explicit_def)
  have "\<not> unset_retention o' n"
    using assms on by (auto simp: unset_retention_def explicit_def)
  then have 2: "SnapshotCleanupPropertiesUpdated o' n \<noteq> Inl p" for p
    using CleanupProperties_panic_iff [of o' n] by blast
  from 1 2 show "\<exists>b b'. SnapshotPropertiesUpdated o' n = Inr b \<and> SnapshotCleanupPropertiesUpdated o' n = Inr b'"
    by (metis sum.exhaust)
qed

lemma pending_event_ok: "pending_ok s e \<Longrightarrow> event_ok s e"
  by (auto simp: pending_ok_def event_ok_def intro: explicit_comparable)

lemma explicit_identity:
  assumes "identity_of d' = identity_of d" and "explicit d"
  shows "explicit d'"
  unfolding explicit_def
proof (intro allI impI)
  fix q' assume q': "Spec_Snapshot (Spec d') = Some q'"
  from identity_ofD(2) [OF assms(1) [symmetric] q'] obtain q where "Spec_Snapshot (Spec d) = Some q"
    "Snapshot_RetentionPolicy q' = Snapshot_RetentionPolicy q"
    "Snapshot_TimeoutSeconds q' = Snapshot_TimeoutSeconds q" by auto
  with assms(2) show "Snapshot_TimeoutSeconds q' \<noteq> None \<and>
      (\<forall>p. Snapshot_RetentionPolicy q' = Some p \<longrightarrow> CleanupTimeoutSeconds p \<noteq> None \<and> RetentionPeriodDays p \<noteq> None)"
    by (simp add: explicit_def)
qed

lemma pending_ok_evolves:
  assumes "evolves s t" and "pending_ok s e"
  shows "pending_ok t e"
proof (cases "Event_Data e")
  case (ClusterUpdateData u)
  with assms(2) obtain old new where on: "cassandra_heap s (OldCluster u) = Some old"
    "cassandra_heap s (NewCluster u) = Some new" "explicit old" "explicit new"
    by (auto simp: pending_ok_def)
  from evolvesD(2) [OF assms(1) on(1)] evolvesD(2) [OF assms(1) on(2)] obtain old' new' where
    "cassandra_heap t (OldCluster u) = Some old'" "identity_of old' = identity_of old"
    "cassandra_heap t (NewCluster u) = Some new'" "identity_of new' = identity_of new" by auto
  with on(3,4) assms(2) ClusterUpdateData show ?thesis
    by (auto simp: pending_ok_def intro: explicit_identity)
next
  case (CassandraData r)
  with assms(2) evolvesD(2) [OF assms(1), of r] show ?thesis by (auto simp: pending_ok_def)
next
  case (ClusterData c)
  with assms(2) evolvesD(1) [OF assms(1), of c] show ?thesis by (auto simp: pending_ok_def)
next
  case (ConfigMapData m)
  with assms(2) show ?thesis by (auto simp: pending_ok_def)
qed

definition run_inv :: "'w Env \<Rightarrow> 'w sys \<Rightarrow> Event list \<Rightarrow> bool" where
  "run_inv env s q \<longleftrightarrow> memory_ok env s \<and> (\<forall>e \<in> set q. pending_ok s e)"

lemma run_inv_step:
  assumes "run_inv env s q" and "memory_ok env t" and "evolves s t" and "\<forall>e \<in> set es. pending_ok t e"
  shows "run_inv env t (q @ es)"
  using assms by (auto simp: run_inv_def intro: pending_ok_evolves)

lemma adjusted_identity: "identity_of (adjusted config d) = identity_of d"
  by (simp add: identity_of_def)

lemma adjusted_explicit: "explicit (adjusted config d) = explicit d"
  by (simp add: explicit_def)

lemma evolves_adjusted:
  assumes "cassandra_heap s r = Some d" and "cassandra_heap s q = Some d'"
  shows "evolves s (s\<lparr>cassandra_heap := (cassandra_heap s)(r \<mapsto> adjusted config d, q \<mapsto> adjusted config d')\<rparr>)"
  using assms by (auto simp: evolves_def adjusted_identity)

lemma run_inv_notify:
  assumes "run_inv env s q" and "known_clusters s n" and "explicit_objects s n"
  shows "goes (cluster_handler config n s) (\<lambda>es t. run_inv env t (q @ es))"
proof -
  have run: "run_inv env t (q @ es)"
    if "cassandra_heap s r = Some d" "cassandra_heap s r' = Some d'"
      "t = s\<lparr>cassandra_heap := (cassandra_heap s)(r \<mapsto> adjusted config d, r' \<mapsto> adjusted config d')\<rparr>"
      "\<forall>e \<in> set es. pending_ok t e" for r d r' d' t es
  proof (rule run_inv_step [OF assms(1) _ _ that(4)])
    show "memory_ok env t" using assms(1) by (simp add: that(3) run_inv_def memory_ok_def)
    show "evolves s t" unfolding that(3) by (rule evolves_adjusted [OF that(1,2)])
  qed
  have expl: "explicit d" if "CassandraObject r \<in> set (objects n)" "cassandra_heap s r = Some d" for r d
    using assms(3) that unfolding explicit_objects_def by blast
  show ?thesis
  proof (cases n)
    case (Updated_from old new)
    with assms(2) obtain r r' d d' where objs: "old = CassandraObject r" "new = CassandraObject r'"
      "cassandra_heap s r = Some d" "cassandra_heap s r' = Some d'" by auto
    have e: "explicit d" "explicit d'"
      using expl [of r d] expl [of r' d'] objs Updated_from by simp_all
    let ?t = "s\<lparr>cassandra_heap := (cassandra_heap s)(r \<mapsto> adjusted config d, r' \<mapsto> adjusted config d')\<rparr>"
    have p: "pending_ok ?t \<lparr>Kind = UpdateCluster, Key = k, Event_Data = ClusterUpdateData \<lparr>OldCluster = r, NewCluster = r'\<rparr>\<rparr>" for k
      using e by (auto simp: pending_ok_def adjusted_explicit)
    show ?thesis
    proof (cases "r = r'")
      case True
      with objs have "d' = d" by simp
      with objs Updated_from True run [OF objs(3,3), of _ "[]"] show ?thesis
        by (simp add: clusterUpdated_def op_simps)
    next
      case False
      with objs Updated_from run [OF objs(3,4) refl] run [OF objs(3,4) refl, of "[]"] p show ?thesis
        by (cases "Spec (adjusted config d) = Spec (adjusted config d')")
          (simp_all add: clusterUpdated_def op_simps)
    qed
  next
    case (Added obj)
    with assms(2) obtain r d where "obj = CassandraObject r" "cassandra_heap s r = Some d" by auto
    with Added run [OF this(2,2) refl] show ?thesis
      by (simp add: clusterAdded_def op_simps pending_ok_def)
  next
    case (Deleted obj)
    with assms(2) obtain r d where "obj = CassandraObject r" "cassandra_heap s r = Some d" by auto
    with Deleted run [OF this(2,2) refl] show ?thesis
      by (simp add: clusterDeleted_def op_simps pending_ok_def)
  qed
qed

lemma run_inv_config:
  assumes "run_inv env s q" and "config_handler n s = Done es t"
  shows "run_inv env t (q @ es)"
proof -
  have "t = s \<and> (\<forall>e \<in> set es. pending_ok s e)"
    using assms(2)
    by (cases n) (auto simp: configMapAdded_def configMapDeleted_def configMapUpdated_def assert_ConfigMap_def
        bind_def pass_def gets_def panic_with_def config_event_def pending_ok_def
        split: informer_object.splits if_splits)
  with assms(1) show ?thesis by (auto simp: run_inv_def)
qed

lemma online_events_Done:
  assumes "memory_ok env s" and "online_events (clusters s) names s = Done es t"
  shows "t = s \<and> (\<forall>e \<in> set es. Kind e = GatherMetrics \<and> kind_ok (Kind e) (Event_Data e) \<and> keyed_by_subject s e)"
  using goes_online_events [OF assms(1), of names] unfolding assms(2) goes_def outcome.case by blast

lemma run_inv_poll:
  assumes "run_inv env s q" and "poll_round env s = Done es t"
  shows "run_inv env t (q @ es)"
proof -
  let ?t = "s\<lparr>world := snd (range_keys env (sorted_list_of_fset (fmdom (clusters s))) (world s))\<rparr>"
  have ok: "memory_ok env ?t" using assms(1) by (simp add: run_inv_def memory_ok_def)
  let ?keys = "fst (range_keys env (sorted_list_of_fset (fmdom (clusters s))) (world s))"
  have "online_events (clusters s) ?keys ?t = Done es t"
    using assms(2) by (simp add: poll_round_def bind_def gets_def range_order_eq)
  then have "online_events (clusters ?t) ?keys ?t = Done es t" by simp
  from online_events_Done [OF ok this] have t: "t = ?t" and
    es: "\<forall>e \<in> set es. Kind e = GatherMetrics \<and> kind_ok (Kind e) (Event_Data e) \<and> keyed_by_subject ?t e"
    by blast+
  have "pending_ok ?t e" if "Kind e = GatherMetrics \<and> kind_ok (Kind e) (Event_Data e) \<and> keyed_by_subject ?t e" for e
    using that by (cases "Event_Data e") (auto simp: pending_ok_def keyed_by_subject_def kind_defs)
  with es ok assms(1) show ?thesis
    unfolding t by (intro run_inv_step) (auto simp: evolves_def)
qed

lemma operator_run_inv:
  assumes "env_ok env" and "operator_run env config s q"
  shows "run_inv env s q"
  using assms(2)
proof induction
  case (run_start w)
  then show ?case by (simp add: run_inv_def memory_ok_def started_def)
next
  case (run_deliver s q r d)
  have "evolves s (s\<lparr>cassandra_heap := (cassandra_heap s)(r \<mapsto> d)\<rparr>)"
    using run_deliver.hyps(2) by (auto simp: evolves_def)
  with run_deliver.IH run_inv_step [of env s q _ "[]"] show ?case
    by (simp add: run_inv_def memory_ok_def)
next
  case (run_notify s q n es t)
  with run_inv_notify [OF run_notify.IH run_notify.hyps(2,3), of config] show ?case by (simp add: goes_def)
next
  case (run_handle s p e q t)
  then have ok: "memory_ok env s" and e: "pending_ok s e" and rest: "\<forall>e \<in> set (p @ q). pending_ok s e"
    by (simp_all add: run_inv_def)
  have "handled env s t"
    using received.handler_Done [of env s e t] assms(1) ok pending_event_ok [OF e] run_handle.hyps(2) by blast
  with rest show ?case by (auto simp: run_inv_def handled_def intro: pending_ok_evolves)
next
  case (run_elapse s q w)
  then show ?case
    using run_inv_step [of env s q "s\<lparr>world := w\<rparr>" "[]"] by (simp add: run_inv_def memory_ok_def evolves_def)
qed (auto intro: run_inv_config run_inv_poll)

text \<open>
  The running operator never fails: in every state it can reach, whatever was delivered,
  dispatched and handled so far, each pending event is handled completely, without a panic,
  provided that the definitions it is notified of set the optional fields of their snapshots and
  that waits end. Its memory is sound throughout.
\<close>

theorem running_operator_never_fails:
  assumes "env_ok env" and "settles env" and "operator_run env config s q" and "e \<in> set q"
  shows "memory_ok env s \<and> (\<exists>t. Receive env e s = Done () t)"
proof -
  from operator_run_inv [OF assms(1,3)] assms(4) have ok: "memory_ok env s" and e: "event_ok s e"
    by (auto simp: run_inv_def pending_event_ok)
  with settled.handler_returns [of env s e] assms(1,2) show ?thesis by blast
qed

text \<open>The operator after it has been notified of its first cluster.\<close>

definition first_sys :: "nat sys" where
  "first_sys = (started 0)\<lparr>cassandra_heap := [0 \<mapsto> adjusted (startOperator default_flags) sample_definition]\<rparr>"

definition first_event :: Event where
  "first_event = \<lparr>Kind = AddCluster, Key = QualifiedName sample_definition, Event_Data = CassandraData 0\<rparr>"

definition delivered_sys :: "nat sys" where
  "delivered_sys = (started 0)\<lparr>cassandra_heap := [0 \<mapsto> sample_definition]\<rparr>"

lemma first_notification:
  "known_clusters delivered_sys (Added (CassandraObject 0))"
  "explicit_objects delivered_sys (Added (CassandraObject 0))"
  "cluster_handler (startOperator default_flags) (Added (CassandraObject 0)) delivered_sys =
     Done [first_event] first_sys"
  by (auto simp: explicit_objects_def explicit_def sample_definition_def delivered_sys_def
      clusterAdded_def bind_def seq_def assert_Cassandra_def pass_def adjustUseEmptyDir_def
      read_cassandra_def gets_def deref_def cluster_event_def first_event_def first_sys_def started_def
      adjusted_def QualifiedName_def)

lemma first_run: "operator_run server_env (startOperator default_flags) first_sys [first_event]"
proof -
  have "operator_run server_env (startOperator default_flags) delivered_sys []"
    using run_deliver [OF run_start [of server_env "startOperator default_flags" 0], of 0 sample_definition]
    by (simp add: started_def delivered_sys_def)
  from run_notify [OF this first_notification] show ?thesis by simp
qed

lemma running_operator_never_fails_witness:
  "\<exists>t. Receive server_env first_event first_sys = Done () t"
  using running_operator_never_fails [OF server_env_ok server_settles first_run, of first_event] by simp

end
