(* ===== verification/Dispatcher.thy ===== *)
theory Dispatcher
  imports Receiver
begin

text \<open>
  The dispatcher of events, after \<^verbatim>\<open>cassandra-operator/pkg/dispatcher/dispatcher.go\<close>: a buffered
  channel and a worker per key, a lock around \<open>Dispatch\<close>, and a stop channel. Goroutines
  interleave, so a run is a sequence of atomic actions: each is what one goroutine does between
  two points where it can be held up.
\<close>

section \<open>State\<close>

text \<open>
  A call of \<open>Dispatch\<close> has passed the check of \<open>stopped\<close>, holds the lock, is about to send, or
  has returned. A worker waits in its \<open>select\<close>, runs the handler, or has returned.
\<close>

datatype phase = Waiting_for_lock Event | Holding_lock Event | Sending Event | Returned

datatype activity = Waiting | Handling Event | Exited

datatype log_entry = Started Event | Finished Event

text \<open>
  The last two fields are history: the events sent into a channel, and the starts and ends of the
  handler.
\<close>

record dispatcher =
  eventProcessingChannels :: "(string, Event list) fmap"
  workers :: "(string \<times> activity) list"
  calls :: "phase list"
  dispatchLock :: "nat option"
  stopCh_closed :: bool
  stopped :: bool
  sent :: "Event list"
  handler_log :: "log_entry list"

definition clusterEventBufferSize :: nat where
  "clusterEventBufferSize = 100"

definition new_dispatcher :: dispatcher where
  "new_dispatcher = \<lparr>eventProcessingChannels = fmempty, workers = [], calls = [], dispatchLock = None,
     stopCh_closed = False, stopped = False, sent = [], handler_log = []\<rparr>"

section \<open>Actions\<close>

text \<open>
  The number names the call or the worker. \<open>Call\<close> to \<open>Send\<close> are the stages of \<open>Dispatch\<close>, \<open>Take\<close>
  to \<open>Exit\<close> those of \<open>start\<close>, and \<open>Watch\<close> is \<open>watchStopChannel\<close>.
\<close>

datatype action =
    Call Event
  | Lock nat
  | Find nat
  | Send nat
  | Take nat
  | Finish nat
  | Exit nat
  | Close
  | Watch

definition find_channel :: "string \<Rightarrow> dispatcher \<Rightarrow> dispatcher" where
  "find_channel key d =
     (case fmlookup (eventProcessingChannels d) key of
        Some _ \<Rightarrow> d
      | None \<Rightarrow> d\<lparr>eventProcessingChannels := fmupd key [] (eventProcessingChannels d),
                  workers := workers d @ [(key, Waiting)]\<rparr>)"

definition Dispatch_call :: "Event \<Rightarrow> dispatcher \<Rightarrow> dispatcher option" where
  "Dispatch_call e d =
     Some (if stopped d then d\<lparr>calls := calls d @ [Returned]\<rparr>
           else d\<lparr>calls := calls d @ [Waiting_for_lock e]\<rparr>)"

definition Dispatch_lock :: "nat \<Rightarrow> dispatcher \<Rightarrow> dispatcher option" where
  "Dispatch_lock i d =
     (case (nth_opt (calls d) i, dispatchLock d) of
        (Some (Waiting_for_lock e), None) \<Rightarrow>
          Some (d\<lparr>dispatchLock := Some i, calls := (calls d)[i := Holding_lock e]\<rparr>)
      | _ \<Rightarrow> None)"

definition Dispatch_find :: "nat \<Rightarrow> dispatcher \<Rightarrow> dispatcher option" where
  "Dispatch_find i d =
     (case nth_opt (calls d) i of
        Some (Holding_lock e) \<Rightarrow> Some ((find_channel (Key e) d)\<lparr>calls := (calls d)[i := Sending e]\<rparr>)
      | _ \<Rightarrow> None)"

text \<open>The send waits while the buffer is full; the deferred unlock follows it.\<close>

definition Dispatch_send :: "nat \<Rightarrow> dispatcher \<Rightarrow> dispatcher option" where
  "Dispatch_send i d =
     (case nth_opt (calls d) i of
        Some (Sending e) \<Rightarrow>
          (case fmlookup (eventProcessingChannels d) (Key e) of
             Some q \<Rightarrow>
               (if length q < clusterEventBufferSize
                then Some (d\<lparr>eventProcessingChannels := fmupd (Key e) (q @ [e]) (eventProcessingChannels d),
                            calls := (calls d)[i := Returned], dispatchLock := None, sent := sent d @ [e]\<rparr>)
                else None)
           | None \<Rightarrow> None)
      | _ \<Rightarrow> None)"

definition start_take :: "nat \<Rightarrow> dispatcher \<Rightarrow> dispatcher option" where
  "start_take j d =
     (case nth_opt (workers d) j of
        Some (key, Waiting) \<Rightarrow>
          (case fmlookup (eventProcessingChannels d) key of
             Some (e # q) \<Rightarrow>
               Some (d\<lparr>eventProcessingChannels := fmupd key q (eventProcessingChannels d),
                       workers := (workers d)[j := (key, Handling e)],
                       handler_log := handler_log d @ [Started e]\<rparr>)
           | _ \<Rightarrow> None)
      | _ \<Rightarrow> None)"

definition start_finish :: "nat \<Rightarrow> dispatcher \<Rightarrow> dispatcher option" where
  "start_finish j d =
     (case nth_opt (workers d) j of
        Some (key, Handling e) \<Rightarrow>
          Some (d\<lparr>workers := (workers d)[j := (key, Waiting)], handler_log := handler_log d @ [Finished e]\<rparr>)
      | _ \<Rightarrow> None)"

definition start_exit :: "nat \<Rightarrow> dispatcher \<Rightarrow> dispatcher option" where
  "start_exit j d =
     (case nth_opt (workers d) j of
        Some (key, Waiting) \<Rightarrow>
          (if stopCh_closed d then Some (d\<lparr>workers := (workers d)[j := (key, Exited)]\<rparr>) else None)
      | _ \<Rightarrow> None)"

definition watchStopChannel :: "dispatcher \<Rightarrow> dispatcher option" where
  "watchStopChannel d = (if stopCh_closed d then Some (d\<lparr>stopped := True\<rparr>) else None)"

fun act :: "action \<Rightarrow> dispatcher \<Rightarrow> dispatcher option" where
  "act (Call e) = Dispatch_call e"
| "act (Lock i) = Dispatch_lock i"
| "act (Find i) = Dispatch_find i"
| "act (Send i) = Dispatch_send i"
| "act (Take j) = start_take j"
| "act (Finish j) = start_finish j"
| "act (Exit j) = start_exit j"
| "act Close = (\<lambda>d. Some (d\<lparr>stopCh_closed := True\<rparr>))"
| "act Watch = watchStopChannel"

fun acts :: "action list \<Rightarrow> dispatcher \<Rightarrow> dispatcher option" where
  "acts [] d = Some d"
| "acts (a # as) d = (case act a d of None \<Rightarrow> None | Some d' \<Rightarrow> acts as d')"

text \<open>The transitions, one rule for each action that can happen.\<close>

inductive step :: "dispatcher \<Rightarrow> action \<Rightarrow> dispatcher \<Rightarrow> bool" where
  step_call: "\<not> stopped d \<Longrightarrow> step d (Call e) (d\<lparr>calls := calls d @ [Waiting_for_lock e]\<rparr>)"
| step_ignore: "stopped d \<Longrightarrow> step d (Call e) (d\<lparr>calls := calls d @ [Returned]\<rparr>)"
| step_lock: "i < length (calls d) \<Longrightarrow> calls d ! i = Waiting_for_lock e \<Longrightarrow> dispatchLock d = None \<Longrightarrow>
    step d (Lock i) (d\<lparr>dispatchLock := Some i, calls := (calls d)[i := Holding_lock e]\<rparr>)"
| step_find: "i < length (calls d) \<Longrightarrow> calls d ! i = Holding_lock e \<Longrightarrow>
    step d (Find i) ((find_channel (Key e) d)\<lparr>calls := (calls d)[i := Sending e]\<rparr>)"
| step_send: "i < length (calls d) \<Longrightarrow> calls d ! i = Sending e \<Longrightarrow>
    fmlookup (eventProcessingChannels d) (Key e) = Some q \<Longrightarrow> length q < clusterEventBufferSize \<Longrightarrow>
    step d (Send i) (d\<lparr>eventProcessingChannels := fmupd (Key e) (q @ [e]) (eventProcessingChannels d),
      calls := (calls d)[i := Returned], dispatchLock := None, sent := sent d @ [e]\<rparr>)"
| step_take: "j < length (workers d) \<Longrightarrow> workers d ! j = (key, Waiting) \<Longrightarrow>
    fmlookup (eventProcessingChannels d) key = Some (e # q) \<Longrightarrow>
    step d (Take j) (d\<lparr>eventProcessingChannels := fmupd key q (eventProcessingChannels d),
      workers := (workers d)[j := (key, Handling e)], handler_log := handler_log d @ [Started e]\<rparr>)"
| step_finish: "j < length (workers d) \<Longrightarrow> workers d ! j = (key, Handling e) \<Longrightarrow>
    step d (Finish j) (d\<lparr>workers := (workers d)[j := (key, Waiting)], handler_log := handler_log d @ [Finished e]\<rparr>)"
| step_exit: "j < length (workers d) \<Longrightarrow> workers d ! j = (key, Waiting) \<Longrightarrow> stopCh_closed d \<Longrightarrow>
    step d (Exit j) (d\<lparr>workers := (workers d)[j := (key, Exited)]\<rparr>)"
| step_close: "step d Close (d\<lparr>stopCh_closed := True\<rparr>)"
| step_watch: "stopCh_closed d \<Longrightarrow> step d Watch (d\<lparr>stopped := True\<rparr>)"

lemma step_iff_act: "step d a d' \<longleftrightarrow> act a d = Some d'"
proof
  show "step d a d' \<Longrightarrow> act a d = Some d'"
    by (cases rule: step.cases, assumption)
      (simp_all add: Dispatch_call_def Dispatch_lock_def Dispatch_find_def Dispatch_send_def start_take_def
        start_finish_def start_exit_def watchStopChannel_def nth_opt_def)
next
  assume "act a d = Some d'"
  then show "step d a d'"
    by (cases a)
      (auto simp: Dispatch_call_def Dispatch_lock_def Dispatch_find_def Dispatch_send_def start_take_def
        start_finish_def start_exit_def watchStopChannel_def nth_opt_def
        split: option.splits phase.splits if_splits list.splits prod.splits activity.splits
        intro: step.intros)
qed

inductive reachable :: "dispatcher \<Rightarrow> bool" where
  reachable_new: "reachable new_dispatcher"
| reachable_step: "reachable d \<Longrightarrow> step d a d' \<Longrightarrow> reachable d'"

section \<open>Invariants\<close>

definition queue :: "dispatcher \<Rightarrow> string \<Rightarrow> Event list" where
  "queue d k = (case fmlookup (eventProcessingChannels d) k of None \<Rightarrow> [] | Some q \<Rightarrow> q)"

text \<open>The lock is held by the one call that is between taking it and sending.\<close>

definition holds :: "phase \<Rightarrow> bool" where
  "holds p \<longleftrightarrow> (case p of Holding_lock e \<Rightarrow> True | Sending e \<Rightarrow> True | _ \<Rightarrow> False)"

lemma holds_simps [simp]:
  "holds (Holding_lock e)" "holds (Sending e)" "\<not> holds (Waiting_for_lock e)" "\<not> holds Returned"
  by (simp_all add: holds_def)

definition lock_inv :: "dispatcher \<Rightarrow> bool" where
  "lock_inv d \<longleftrightarrow> (\<forall>i < length (calls d). holds (calls d ! i) \<longleftrightarrow> dispatchLock d = Some i) \<and>
     (\<forall>i. dispatchLock d = Some i \<longrightarrow> i < length (calls d)) \<and>
     (\<forall>i e. i < length (calls d) \<longrightarrow> calls d ! i = Sending e \<longrightarrow>
        fmlookup (eventProcessingChannels d) (Key e) \<noteq> None)"

text \<open>A channel has one worker, holds events of its key, and no more of them than it has room for.\<close>

definition worker_inv :: "dispatcher \<Rightarrow> bool" where
  "worker_inv d \<longleftrightarrow> distinct (map fst (workers d)) \<and>
     set (map fst (workers d)) = fset (fmdom (eventProcessingChannels d)) \<and>
     (\<forall>k e. map_of (workers d) k = Some (Handling e) \<longrightarrow> Key e = k) \<and>
     (\<forall>k. length (queue d k) \<le> clusterEventBufferSize \<and> (\<forall>e \<in> set (queue d k). Key e = k))"

lemma find_channel_fields [simp]:
  "calls (find_channel k d) = calls d" "dispatchLock (find_channel k d) = dispatchLock d"
  "sent (find_channel k d) = sent d" "handler_log (find_channel k d) = handler_log d"
  "stopCh_closed (find_channel k d) = stopCh_closed d" "stopped (find_channel k d) = stopped d"
  "queue (find_channel k d) = queue d"
  by (auto simp: find_channel_def queue_def fun_eq_iff split: option.split)

lemma find_channel_there: "fmlookup (eventProcessingChannels (find_channel k d)) k \<noteq> None"
  by (auto simp: find_channel_def split: option.split)

lemma find_channel_keeps:
  "fmlookup (eventProcessingChannels d) k' \<noteq> None \<Longrightarrow>
   fmlookup (eventProcessingChannels (find_channel k d)) k' \<noteq> None"
  by (auto simp: find_channel_def split: option.split)

lemma queue_upd [simp]:
  "queue (d\<lparr>eventProcessingChannels := fmupd k q (eventProcessingChannels d)\<rparr>) k' =
     (if k' = k then q else queue d k')"
  by (simp add: queue_def)

lemma lock_inv_step: "step d a d' \<Longrightarrow> lock_inv d \<Longrightarrow> lock_inv d'"
proof (induction rule: step.induct)
  case (step_find i d e)
  then show ?case
    using find_channel_there [of "Key e" d] find_channel_keeps [of d _ "Key e"]
    by (fastforce simp: lock_inv_def nth_list_update)
qed (auto simp: lock_inv_def nth_list_update nth_append less_Suc_eq split: if_splits)

text \<open>Fields that an invariant does not look at.\<close>

lemma queue_eq: "eventProcessingChannels d' = eventProcessingChannels d \<Longrightarrow> queue d' = queue d"
  by (simp add: queue_def fun_eq_iff)

lemma worker_inv_same:
  assumes "worker_inv d" and "workers d' = workers d" and "eventProcessingChannels d' = eventProcessingChannels d"
  shows "worker_inv d'"
  using assms queue_eq [OF assms(3)] by (simp add: worker_inv_def)

lemma worker_inv_find:
  assumes "worker_inv d"
  shows "worker_inv (find_channel k d)"
proof (cases "fmlookup (eventProcessingChannels d) k")
  case None
  let ?d = "find_channel k d"
  have d: "workers ?d = workers d @ [(k, Waiting)]"
    "eventProcessingChannels ?d = fmupd k [] (eventProcessingChannels d)"
    by (simp_all add: find_channel_def None)
  have k: "k \<notin> set (map fst (workers d))"
    using assms None by (auto simp: worker_inv_def fmdom_notI fmlookup_dom_iff)
  have "map_of (ws @ [(k, b)]) = (map_of ws)(k \<mapsto> b)" if "k \<notin> set (map fst ws)" for ws :: "(string \<times> activity) list" and b
    using that by (induction ws) (auto simp: fun_eq_iff)
  then have "map_of (workers ?d) = (map_of (workers d))(k \<mapsto> Waiting)" using k by (simp only: d)
  moreover have "queue ?d = queue d" by simp
  ultimately show ?thesis
    using assms k unfolding worker_inv_def by (simp add: d)
qed (use assms in \<open>simp add: find_channel_def\<close>)

lemma worker_inv_update:
  assumes "worker_inv d" and "j < length (workers d)" and "workers d ! j = (k, a)"
    and "workers d' = (workers d)[j := (k, b)]" and "fmdom (eventProcessingChannels d') = fmdom (eventProcessingChannels d)"
    and "\<And>e. b = Handling e \<Longrightarrow> Key e = k"
    and "\<And>k. length (queue d' k) \<le> clusterEventBufferSize \<and> (\<forall>e \<in> set (queue d' k). Key e = k)"
  shows "worker_inv d'"
  using assms(1,6,7) map_of_list_update [OF _ assms(2,3), of b] map_fst_list_update [OF assms(2,3), of b]
  unfolding worker_inv_def assms(4,5) by auto

lemma worker_inv_channels:
  assumes "worker_inv d" and "workers d' = workers d"
    and "fmdom (eventProcessingChannels d') = fmdom (eventProcessingChannels d)"
    and "\<And>k. length (queue d' k) \<le> clusterEventBufferSize \<and> (\<forall>e \<in> set (queue d' k). Key e = k)"
  shows "worker_inv d'"
  using assms(1,4) unfolding worker_inv_def assms(2,3) by blast

lemma queue_Some: "fmlookup (eventProcessingChannels d) k = Some q \<Longrightarrow> queue d k = q"
  by (simp add: queue_def)

lemma worker_inv_step: "step d a d' \<Longrightarrow> worker_inv d \<Longrightarrow> worker_inv d'"
proof (induction rule: step.induct)
  case (step_find i d e)
  show ?case
    by (rule worker_inv_same [OF worker_inv_find [OF step_find.prems, of "Key e"]]) simp_all
next
  case (step_send i d e q)
  let ?d = "d\<lparr>eventProcessingChannels := fmupd (Key e) (q @ [e]) (eventProcessingChannels d)\<rparr>"
  have q: "queue d (Key e) = q" by (rule queue_Some [OF step_send.hyps(3)])
  have dom: "fmdom (eventProcessingChannels ?d) = fmdom (eventProcessingChannels d)"
    using step_send.hyps(3) by (simp add: fmdomI finsert_absorb)
  have bound: "length (queue ?d k) \<le> clusterEventBufferSize \<and> (\<forall>x \<in> set (queue ?d k). Key x = k)" for k
  proof -
    have "length (queue d k) \<le> clusterEventBufferSize \<and> (\<forall>x \<in> set (queue d k). Key x = k)"
      using step_send.prems unfolding worker_inv_def by blast
    with step_send.hyps(4) q show ?thesis by auto
  qed
  have "worker_inv ?d" by (rule worker_inv_channels [OF step_send.prems _ dom bound]) simp
  then show ?case by (rule worker_inv_same) simp_all
next
  case (step_take j d key e q)
  have q: "queue d key = e # q" by (rule queue_Some [OF step_take.hyps(3)])
  let ?d = "d\<lparr>eventProcessingChannels := fmupd key q (eventProcessingChannels d)\<rparr>"
  let ?d' = "d\<lparr>eventProcessingChannels := fmupd key q (eventProcessingChannels d),
      workers := (workers d)[j := (key, Handling e)], handler_log := handler_log d @ [Started e]\<rparr>"
  have bound: "length (queue d k) \<le> clusterEventBufferSize" "\<forall>x \<in> set (queue d k). Key x = k" for k
    using step_take.prems by (simp_all add: worker_inv_def)
  have eq: "queue ?d' = queue ?d" by (rule queue_eq) simp
  show ?case
  proof (rule worker_inv_update [OF step_take.prems step_take.hyps(1,2)])
    show "Handling e = Handling x \<Longrightarrow> Key x = key" for x using bound(2) [of key] q by simp
    show "length (queue ?d' k) \<le> clusterEventBufferSize \<and> (\<forall>x \<in> set (queue ?d' k). Key x = k)" for k
      using bound [of k] bound [of key] q unfolding eq by auto
    show "fmdom (eventProcessingChannels ?d') = fmdom (eventProcessingChannels d)"
      using step_take.hyps(3) by (simp add: fmdomI finsert_absorb)
  qed simp
next
  case (step_finish j d key e)
  let ?d' = "d\<lparr>workers := (workers d)[j := (key, Waiting)], handler_log := handler_log d @ [Finished e]\<rparr>"
  have "queue ?d' = queue d" by (rule queue_eq) simp
  then have "length (queue ?d' k) \<le> clusterEventBufferSize \<and> (\<forall>x \<in> set (queue ?d' k). Key x = k)" for k
    using step_finish.prems unfolding worker_inv_def by metis
  then show ?case by (rule worker_inv_update [OF step_finish.prems step_finish.hyps, where b = Waiting, rotated 3]) simp_all
next
  case (step_exit j d key)
  let ?d' = "d\<lparr>workers := (workers d)[j := (key, Exited)]\<rparr>"
  have "queue ?d' = queue d" by (rule queue_eq) simp
  then have "length (queue ?d' k) \<le> clusterEventBufferSize \<and> (\<forall>x \<in> set (queue ?d' k). Key x = k)" for k
    using step_exit.prems unfolding worker_inv_def by metis
  then show ?case by (rule worker_inv_update [OF step_exit.prems step_exit.hyps(1,2), where b = Exited, rotated 3]) simp_all
qed (auto elim: worker_inv_same)

section \<open>History\<close>

text \<open>
  The events of a key whose handling has started, and a watch over the log that knows which event
  of the key is being handled and fails (with \<open>None\<close>) when a second one starts meanwhile.
\<close>

fun started_events :: "string \<Rightarrow> log_entry list \<Rightarrow> Event list" where
  "started_events k [] = []"
| "started_events k (Started e # entries) = (if Key e = k then [e] else []) @ started_events k entries"
| "started_events k (Finished e # entries) = started_events k entries"

fun watch :: "string \<Rightarrow> log_entry \<Rightarrow> Event option option \<Rightarrow> Event option option" where
  "watch k (Started e) x = (if Key e \<noteq> k then x else if x = Some None then Some (Some e) else None)"
| "watch k (Finished e) x = (if Key e \<noteq> k then x else if x = Some (Some e) then Some None else None)"

definition handling :: "string \<Rightarrow> log_entry list \<Rightarrow> Event option option" where
  "handling k entries = fold (watch k) entries (Some None)"

lemma history_append [simp]:
  "started_events k (entries @ entries') = started_events k entries @ started_events k entries'"
  "handling k (entries @ [x]) = watch k x (handling k entries)"
  by (induction entries rule: started_events.induct) (simp_all add: handling_def)

definition current :: "activity option \<Rightarrow> Event option" where
  "current a = (case a of Some (Handling e) \<Rightarrow> Some e | _ \<Rightarrow> None)"

lemma current_simps [simp]:
  "current None = None" "current (Some Waiting) = None" "current (Some Exited) = None"
  "current (Some (Handling e)) = Some e"
  by (simp_all add: current_def)

definition history_inv :: "dispatcher \<Rightarrow> bool" where
  "history_inv d \<longleftrightarrow> (\<forall>k. started_events k (handler_log d) @ queue d k = filter (\<lambda>e. Key e = k) (sent d) \<and>
     handling k (handler_log d) = Some (current (map_of (workers d) k)))"

lemma history_inv_same:
  assumes "history_inv d" and "handler_log d' = handler_log d" and "queue d' = queue d" and "sent d' = sent d"
    and "\<And>k. current (map_of (workers d') k) = current (map_of (workers d) k)"
  shows "history_inv d'"
  using assms(1) unfolding history_inv_def assms(2-5) .

lemma current_find: "current (map_of (workers (find_channel k d)) k') = current (map_of (workers d) k')"
proof -
  have "current (map_of (ws @ [(k, Waiting)]) k') = current (map_of ws k')" for ws
    by (induction ws) auto
  then show ?thesis by (auto simp: find_channel_def split: option.split)
qed

lemma history_inv_step:
  assumes "step d a d'" and "worker_inv d" and "history_inv d"
  shows "history_inv d'"
  using assms
proof (induction rule: step.induct)
  case (step_find i d e)
  show ?case by (rule history_inv_same [OF step_find.prems(2)])
      (simp_all add: current_find queue_eq [of "(find_channel (Key e) d)\<lparr>calls := cs\<rparr>" for cs])
next
  case (step_send i d e q)
  let ?d' = "d\<lparr>eventProcessingChannels := fmupd (Key e) (q @ [e]) (eventProcessingChannels d),
      calls := (calls d)[i := Returned], dispatchLock := None, sent := sent d @ [e]\<rparr>"
  have q: "queue d (Key e) = q" by (rule queue_Some [OF step_send.hyps(3)])
  have "queue ?d' k = (if k = Key e then q @ [e] else queue d k)" for k by (simp add: queue_def)
  with step_send.prems(2) q show ?case by (auto simp: history_inv_def)
next
  case (step_take j d key e q)
  let ?d' = "d\<lparr>eventProcessingChannels := fmupd key q (eventProcessingChannels d),
      workers := (workers d)[j := (key, Handling e)], handler_log := handler_log d @ [Started e]\<rparr>"
  have q: "queue d key = e # q" by (rule queue_Some [OF step_take.hyps(3)])
  have "\<forall>x \<in> set (queue d key). Key x = key" using step_take.prems(1) unfolding worker_inv_def by blast
  then have key: "Key e = key" using q by simp
  have queue: "queue ?d' k = (if k = key then q else queue d k)" for k by (simp add: queue_def)
  have distinct: "distinct (map fst (workers d))" using step_take.prems(1) by (simp add: worker_inv_def)
  have workers: "map_of (workers ?d') = (map_of (workers d))(key \<mapsto> Handling e)"
    using map_of_list_update [OF distinct step_take.hyps(1,2)] by simp
  have idle: "map_of (workers d) key = Some Waiting"
    using distinct step_take.hyps(1,2) by (metis map_of_is_SomeI nth_mem)
  have old: "started_events k (handler_log d) @ queue d k = filter (\<lambda>e. Key e = k) (sent d)"
    "handling k (handler_log d) = Some (current (map_of (workers d) k))" for k
    using step_take.prems(2) by (simp_all add: history_inv_def)
  show ?case
    unfolding history_inv_def
  proof (intro allI conjI)
    fix k
    show "started_events k (handler_log ?d') @ queue ?d' k = filter (\<lambda>e. Key e = k) (sent ?d')"
      using old(1) [of k] old(1) [of key] q key by (cases "k = key") (simp_all add: queue)
    show "handling k (handler_log ?d') = Some (current (map_of (workers ?d') k))"
      unfolding workers using old(2) [of k] idle key by (cases "k = key") simp_all
  qed
next
  case (step_finish j d key e)
  let ?d' = "d\<lparr>workers := (workers d)[j := (key, Waiting)], handler_log := handler_log d @ [Finished e]\<rparr>"
  have queue: "queue ?d' = queue d" by (rule queue_eq) simp
  have distinct: "distinct (map fst (workers d))" using step_finish.prems(1) by (simp add: worker_inv_def)
  have workers: "map_of (workers ?d') = (map_of (workers d))(key \<mapsto> Waiting)"
    using map_of_list_update [OF distinct step_finish.hyps] by simp
  have busy: "map_of (workers d) key = Some (Handling e)"
    using distinct step_finish.hyps by (metis map_of_is_SomeI nth_mem)
  then have key: "Key e = key" using step_finish.prems(1) unfolding worker_inv_def by blast
  have old: "started_events k (handler_log d) @ queue d k = filter (\<lambda>e. Key e = k) (sent d)"
    "handling k (handler_log d) = Some (current (map_of (workers d) k))" for k
    using step_finish.prems(2) by (simp_all add: history_inv_def)
  show ?case
    unfolding history_inv_def
  proof (intro allI conjI)
    fix k
    show "started_events k (handler_log ?d') @ queue ?d' k = filter (\<lambda>e. Key e = k) (sent ?d')"
      using old(1) [of k] by (simp add: queue)
    show "handling k (handler_log ?d') = Some (current (map_of (workers ?d') k))"
      unfolding workers using old(2) [of k] busy key by (cases "k = key") simp_all
  qed
next
  case (step_exit j d key)
  have distinct: "distinct (map fst (workers d))" using step_exit.prems(1) by (simp add: worker_inv_def)
  have idle: "map_of (workers d) key = Some Waiting"
    using distinct step_exit.hyps(1,2) by (metis map_of_is_SomeI nth_mem)
  show ?case
    by (rule history_inv_same [OF step_exit.prems(2)])
      (simp_all add: map_of_list_update [OF distinct step_exit.hyps(1,2)] idle
        queue_eq [of "d\<lparr>workers := ws\<rparr>" for ws])
qed (auto elim!: history_inv_same intro: queue_eq)

lemma reachable_inv: "reachable d \<Longrightarrow> lock_inv d \<and> worker_inv d \<and> history_inv d"
proof (induction rule: reachable.induct)
  case reachable_new
  then show ?case
    by (simp add: lock_inv_def worker_inv_def history_inv_def new_dispatcher_def queue_def handling_def)
qed (blast intro: lock_inv_step worker_inv_step history_inv_step)

text \<open>
  (C6) What the dispatcher promises, in every state it can reach: a channel never holds more than
  a hundred events; the events of a key are handled in the order in which they were sent, none lost
  and none twice; and they are handled one at a time: the handler never starts on a second event of
  the key before it has finished the first.
\<close>

theorem dispatcher_serialises:
  assumes "reachable d"
  shows "length (queue d k) \<le> 100 \<and>
    started_events k (handler_log d) @ queue d k = filter (\<lambda>e. Key e = k) (sent d) \<and>
    handling k (handler_log d) \<noteq> None"
  using reachable_inv [OF assms]
  by (auto simp: worker_inv_def history_inv_def clusterEventBufferSize_def)

section \<open>Draining\<close>

text \<open>
  The actions that serve what has been called already, and what is left to serve: three actions
  for a call, and two for each event in a channel and one for an event in a handler.
\<close>

fun serving :: "action \<Rightarrow> bool" where
  "serving (Lock i) \<longleftrightarrow> True"
| "serving (Find i) \<longleftrightarrow> True"
| "serving (Send i) \<longleftrightarrow> True"
| "serving (Take j) \<longleftrightarrow> True"
| "serving (Finish j) \<longleftrightarrow> True"
| "serving a \<longleftrightarrow> False"

definition phase_work :: "phase \<Rightarrow> nat" where
  "phase_work p = (case p of Waiting_for_lock e \<Rightarrow> 5 | Holding_lock e \<Rightarrow> 4 | Sending e \<Rightarrow> 3 | Returned \<Rightarrow> 0)"

definition activity_work :: "activity \<Rightarrow> nat" where
  "activity_work a = (case a of Handling e \<Rightarrow> 1 | _ \<Rightarrow> 0)"

lemma work_simps [simp]:
  "phase_work (Waiting_for_lock e) = 5" "phase_work (Holding_lock e) = 4" "phase_work (Sending e) = 3"
  "phase_work Returned = 0" "activity_work Waiting = 0" "activity_work Exited = 0"
  "activity_work (Handling e) = 1"
  by (simp_all add: phase_work_def activity_work_def)

definition work :: "dispatcher \<Rightarrow> nat" where
  "work d = sum_list (map phase_work (calls d)) + sum_list (map (activity_work \<circ> snd) (workers d)) +
     2 * sum_list (map (length \<circ> queue d \<circ> fst) (workers d))"

definition drained :: "dispatcher \<Rightarrow> bool" where
  "drained d \<longleftrightarrow> (\<forall>p \<in> set (calls d). p = Returned) \<and> (\<forall>k. queue d k = []) \<and>
     (\<forall>w \<in> set (workers d). snd w = Waiting)"

lemma sum_list_update_less:
  "i < length xs \<Longrightarrow> sum_list (map f (xs[i := y])) + f (xs ! i) = sum_list (map f xs) + (f y :: nat)"
  by (induction xs arbitrary: i) (auto split: nat.split)

text \<open>A change of the queue of one key is seen once, because the keys are distinct.\<close>

lemma sum_list_queue_upd:
  assumes "distinct (map fst ws)" and "k \<in> set (map fst ws)" and "\<And>k'. k' \<noteq> k \<Longrightarrow> g k' = f k'"
  shows "sum_list (map (g \<circ> fst) ws) + f k = sum_list (map (f \<circ> fst) ws) + (g k :: nat)"
  using assms(1,2)
proof (induction ws)
  case (Cons w ws)
  show ?case
  proof (cases "fst w = k")
    case True
    with Cons.prems have "k \<notin> set (map fst ws)" by auto
    then have "map (g \<circ> fst) ws = map (f \<circ> fst) ws"
      by (intro map_cong refl) (metis assms(3) comp_apply image_eqI list.set_map)
    then have "sum_list (map (g \<circ> fst) ws) = sum_list (map (f \<circ> fst) ws)" by (simp only:)
    with True show ?thesis by (simp add: comp_def)
  next
    case False
    with Cons assms(3) show ?thesis by auto
  qed
qed simp

lemma sum_list_same_keys: "map fst ws' = map fst ws \<Longrightarrow> sum_list (map (g \<circ> fst) ws') = sum_list (map (g \<circ> fst) ws)"
  by (metis map_map)

lemma serving_works:
  assumes "step d a d'" and "serving a" and "worker_inv d"
  shows "work d' < work d"
  using assms
proof (induction rule: step.induct)
  case (step_lock i d e)
  let ?d' = "d\<lparr>dispatchLock := Some i, calls := (calls d)[i := Holding_lock e]\<rparr>"
  have "queue ?d' = queue d" by (rule queue_eq) simp
  with sum_list_update_less [OF step_lock.hyps(1), of phase_work "Holding_lock e"] step_lock.hyps(2)
  show ?case by (simp add: work_def)
next
  case (step_find i d e)
  have "sum_list (map (activity_work \<circ> snd) (workers (find_channel k d))) = sum_list (map (activity_work \<circ> snd) (workers d))"
    and "sum_list (map (length \<circ> queue d \<circ> fst) (workers (find_channel k d))) =
      sum_list (map (length \<circ> queue d \<circ> fst) (workers d))" for k
    by (auto simp: find_channel_def queue_def split: option.split)
  with sum_list_update_less [OF step_find.hyps(1), of phase_work "Sending e"] step_find.hyps(2)
  show ?case by (simp add: work_def queue_eq [of "(find_channel (Key e) d)\<lparr>calls := cs\<rparr>" for cs])
next
  case (step_send i d e q)
  let ?d' = "d\<lparr>eventProcessingChannels := fmupd (Key e) (q @ [e]) (eventProcessingChannels d),
      calls := (calls d)[i := Returned], dispatchLock := None, sent := sent d @ [e]\<rparr>"
  have q: "queue ?d' k = (if k = Key e then q @ [e] else queue d k)" for k by (simp add: queue_def)
  have "Key e \<in> set (map fst (workers d))"
    using step_send.prems(2) step_send.hyps(3) by (simp add: worker_inv_def fmdomI)
  then have "sum_list (map (length \<circ> queue ?d' \<circ> fst) (workers d)) + length (queue d (Key e)) =
      sum_list (map (length \<circ> queue d \<circ> fst) (workers d)) + length (queue ?d' (Key e))"
    using step_send.prems(2) q
      sum_list_queue_upd [of "workers d" "Key e" "length \<circ> queue ?d'" "length \<circ> queue d"]
    by (simp add: worker_inv_def)
  with sum_list_update_less [OF step_send.hyps(1), of phase_work Returned] step_send.hyps(2)
    queue_Some [OF step_send.hyps(3)]
  show ?case by (simp add: work_def q)
next
  case (step_take j d key e q)
  let ?d' = "d\<lparr>eventProcessingChannels := fmupd key q (eventProcessingChannels d),
      workers := (workers d)[j := (key, Handling e)], handler_log := handler_log d @ [Started e]\<rparr>"
  have q: "queue ?d' k = (if k = key then q else queue d k)" for k by (simp add: queue_def)
  have "key \<in> set (map fst (workers d))"
    using step_take.prems(2) step_take.hyps(3) by (simp add: worker_inv_def fmdomI)
  then have "sum_list (map (length \<circ> queue ?d' \<circ> fst) (workers d)) + length (queue d key) =
      sum_list (map (length \<circ> queue d \<circ> fst) (workers d)) + length (queue ?d' key)"
    using step_take.prems(2) q
      sum_list_queue_upd [of "workers d" key "length \<circ> queue ?d'" "length \<circ> queue d"]
    by (simp add: worker_inv_def)
  moreover have "sum_list (map (length \<circ> queue ?d' \<circ> fst) (workers ?d')) =
      sum_list (map (length \<circ> queue ?d' \<circ> fst) (workers d))"
    using map_fst_list_update [OF step_take.hyps(1,2)] by (intro sum_list_same_keys) simp
  ultimately show ?case
    using sum_list_update_less [OF step_take.hyps(1), of "activity_work \<circ> snd" "(key, Handling e)"] step_take.hyps(2)
      queue_Some [OF step_take.hyps(3)]
    by (simp add: work_def q)
next
  case (step_finish j d key e)
  let ?d' = "d\<lparr>workers := (workers d)[j := (key, Waiting)], handler_log := handler_log d @ [Finished e]\<rparr>"
  have queue: "queue ?d' = queue d" by (rule queue_eq) simp
  have "sum_list (map (length \<circ> queue d \<circ> fst) (workers ?d')) = sum_list (map (length \<circ> queue d \<circ> fst) (workers d))"
    using map_fst_list_update [OF step_finish.hyps] by (intro sum_list_same_keys) simp
  with sum_list_update_less [OF step_finish.hyps(1), of "activity_work \<circ> snd" "(key, Waiting)"] step_finish.hyps(2)
  show ?case by (simp add: work_def queue)
qed simp_all

text \<open>While something is left to serve and the dispatcher has not been stopped, it can be served.\<close>

lemma serving_enabled:
  assumes "lock_inv d" and "worker_inv d" and "\<forall>w \<in> set (workers d). snd w \<noteq> Exited" and "\<not> drained d"
  shows "\<exists>a d'. serving a \<and> step d a d'"
proof -
  have worker: "\<exists>a d'. serving a \<and> step d a d'" if "j < length (workers d)"
    "workers d ! j = (k, b)" "b = Waiting \<longrightarrow> queue d k \<noteq> []" "b \<noteq> Exited" for j k b
  proof (cases b)
    case Waiting
    with that obtain e q where "fmlookup (eventProcessingChannels d) k = Some (e # q)"
      by (auto simp: queue_def neq_Nil_conv split: option.splits)
    with that Waiting show ?thesis by (intro exI conjI) (rule serving.simps(4) [THEN iffD2], simp, rule step_take, simp_all)
  next
    case (Handling e)
    with that show ?thesis by (intro exI conjI) (rule serving.simps(5) [THEN iffD2], simp, rule step_finish, simp_all)
  qed (use that in simp)
  show ?thesis
  proof (cases "\<exists>w \<in> set (workers d). snd w = Waiting \<longrightarrow> queue d (fst w) \<noteq> []")
    case True
    then obtain j where "j < length (workers d)"
      "snd (workers d ! j) = Waiting \<longrightarrow> queue d (fst (workers d ! j)) \<noteq> []" by (metis in_set_conv_nth)
    moreover from this(1) have "snd (workers d ! j) \<noteq> Exited" using assms(3) by simp
    ultimately show ?thesis by (intro worker [of j "fst (workers d ! j)" "snd (workers d ! j)"]) simp_all
  next
    case False
    have keys: "queue d k = []" for k
    proof (cases "k \<in> set (map fst (workers d))")
      case True
      with False show ?thesis by auto
    next
      case False
      then have "fmlookup (eventProcessingChannels d) k = None"
        using assms(2) by (simp add: worker_inv_def fmdom_notD)
      then show ?thesis by (simp add: queue_def)
    qed
    with False assms(4) obtain p where "p \<in> set (calls d)" "p \<noteq> Returned" by (auto simp: drained_def)
    then obtain i where i: "i < length (calls d)" "calls d ! i \<noteq> Returned" by (metis in_set_conv_nth)
    show ?thesis
    proof (cases "dispatchLock d")
      case None
      with i assms(1) obtain e where "calls d ! i = Waiting_for_lock e"
        unfolding lock_inv_def by (cases "calls d ! i") auto
      with i None show ?thesis by (intro exI conjI) (rule serving.simps(1) [THEN iffD2], simp, rule step_lock, simp_all)
    next
      case (Some l)
      with assms(1) have l: "l < length (calls d)" "holds (calls d ! l)" unfolding lock_inv_def by blast+
      show ?thesis
      proof (cases "calls d ! l")
        case (Holding_lock e)
        with l show ?thesis by (intro exI conjI) (rule serving.simps(2) [THEN iffD2], simp, rule step_find, simp_all)
      next
        case (Sending e)
        with l assms(1) obtain q where q: "fmlookup (eventProcessingChannels d) (Key e) = Some q"
          unfolding lock_inv_def by blast
        with keys [of "Key e"] have "q = []" by (simp add: queue_def)
        then have "length q < clusterEventBufferSize" by (simp add: clusterEventBufferSize_def)
        from step_send [OF l(1) Sending q this] show ?thesis using serving.simps(3) by blast
      qed (use l in simp_all)
    qed
  qed
qed

lemma serving_keeps_workers:
  "step d a d' \<Longrightarrow> serving a \<Longrightarrow> \<forall>w \<in> set (workers d). snd w \<noteq> Exited \<Longrightarrow> \<forall>w \<in> set (workers d'). snd w \<noteq> Exited"
  by (induction rule: step.induct) (auto simp: find_channel_def split: option.split dest: set_update_subset_insert [THEN subsetD])

lemma drains:
  "reachable d \<Longrightarrow> \<forall>w \<in> set (workers d). snd w \<noteq> Exited \<Longrightarrow>
     \<exists>as d'. list_all serving as \<and> length as \<le> work d \<and> acts as d = Some d' \<and> reachable d' \<and> drained d'"
proof (induction "work d" arbitrary: d rule: less_induct)
  case less
  show ?case
  proof (cases "drained d")
    case True
    with less.prems show ?thesis by (intro exI [of _ "[]"]) auto
  next
    case False
    from serving_enabled [OF _ _ less.prems(2) False] reachable_inv [OF less.prems(1)]
    obtain a d' where a: "serving a" "step d a d'" by blast
    have "work d' < work d" using serving_works [OF a(2,1)] reachable_inv [OF less.prems(1)] by blast
    moreover have "reachable d'" using less.prems(1) a(2) by (rule reachable_step)
    moreover have "\<forall>w \<in> set (workers d'). snd w \<noteq> Exited" by (rule serving_keeps_workers [OF a(2,1) less.prems(2)])
    ultimately obtain as e where "list_all serving as" "length as \<le> work d'" "acts as d' = Some e" "reachable e" "drained e"
      using less.hyps by blast
    with a \<open>work d' < work d\<close> show ?thesis
      by (intro exI [of _ "a # as"] exI [of _ e]) (simp add: step_iff_act)
  qed
qed

text \<open>
  (C25) While the dispatcher has not been stopped it makes progress: whatever state it has reached,
  a bounded number of further actions of its own, without new calls, takes it to a state where every
  call has returned, every channel is empty and every event that was sent has been handled; and no
  sequence of such actions is longer than that bound.
\<close>

theorem dispatcher_drains:
  assumes "reachable d" and "\<forall>w \<in> set (workers d). snd w \<noteq> Exited"
  shows "(\<exists>as d'. list_all serving as \<and> acts as d = Some d' \<and> drained d' \<and>
      (\<forall>k. started_events k (handler_log d') = filter (\<lambda>e. Key e = k) (sent d') \<and>
         handling k (handler_log d') = Some None)) \<and>
    (\<forall>as d'. list_all serving as \<and> acts as d = Some d' \<longrightarrow> length as \<le> work d)"
proof
  from drains [OF assms] obtain as d' where d': "list_all serving as" "acts as d = Some d'" "reachable d'" "drained d'"
    by blast
  have "started_events k (handler_log d') = filter (\<lambda>e. Key e = k) (sent d') \<and>
      handling k (handler_log d') = Some None" for k
  proof -
    have "started_events k (handler_log d') @ queue d' k = filter (\<lambda>e. Key e = k) (sent d')"
      "handling k (handler_log d') = Some (current (map_of (workers d') k))"
      using reachable_inv [OF d'(3)] by (simp_all add: history_inv_def)
    moreover have "current (map_of (workers d') k) = None"
    proof (cases "map_of (workers d') k")
      case (Some b)
      then have "b = Waiting" using d'(4) by (force simp: drained_def dest: map_of_SomeD)
      with Some show ?thesis by simp
    qed simp
    ultimately show ?thesis using d'(4) by (simp add: drained_def)
  qed
  with d' show "\<exists>as d'. list_all serving as \<and> acts as d = Some d' \<and> drained d' \<and>
      (\<forall>k. started_events k (handler_log d') = filter (\<lambda>e. Key e = k) (sent d') \<and>
         handling k (handler_log d') = Some None)" by blast
  have "length as \<le> work d" if "reachable d" "list_all serving as" "acts as d = Some d'" for as d d'
    using that
  proof (induction as arbitrary: d)
    case (Cons a as)
    then obtain d1 where d1: "step d a d1" "acts as d1 = Some d'" by (auto simp: step_iff_act split: option.splits)
    have "work d1 < work d" using serving_works [OF d1(1)] Cons.prems reachable_inv [OF Cons.prems(1)] by simp
    with Cons.IH [OF reachable_step [OF Cons.prems(1) d1(1)] _ d1(2)] Cons.prems(2) show ?case by simp
  qed simp
  with assms(1) show "\<forall>as d'. list_all serving as \<and> acts as d = Some d' \<longrightarrow> length as \<le> work d" by blast
qed

section \<open>A full channel\<close>

text \<open>
  (C35) A call that finds the channel of its key full keeps the lock while it waits. Until the
  worker of that very key takes an event, nothing is sent for any other key either, whatever the
  other calls and workers do: one slow cluster holds up the events of all.
\<close>

theorem full_channel_blocks_all:
  assumes "reachable d" and "i < length (calls d)" and "calls d ! i = Sending e"
    and "length (queue d (Key e)) = clusterEventBufferSize"
    and "acts as d = Some d'" and "\<forall>j. Take j \<in> set as \<longrightarrow> j < length (workers d) \<and> fst (workers d ! j) \<noteq> Key e"
  shows "sent d' = sent d \<and> calls d' ! i = Sending e \<and> dispatchLock d' = Some i"
proof -
  let ?B = "\<lambda>d'. reachable d' \<and> i < length (calls d') \<and> calls d' ! i = Sending e \<and>
    length (queue d' (Key e)) = clusterEventBufferSize \<and> sent d' = sent d \<and> map fst (workers d') = map fst (workers d)"
  have lock: "dispatchLock x = Some i" if "?B x" for x
    using that reachable_inv [of x] unfolding lock_inv_def by (metis holds_simps(2))
  have stays: "?B y" if B: "?B x" and step: "step x a y"
    and take: "\<forall>j. a = Take j \<longrightarrow> j < length (workers d) \<and> fst (workers d ! j) \<noteq> Key e" for x a y
  proof -
    note l = lock [OF B]
    have inv: "lock_inv x" "worker_inv x" using reachable_inv B by blast+
    have only: "j = i" if "j < length (calls x)" "holds (calls x ! j)" for j
      using inv(1) that l unfolding lock_inv_def by auto
    have "i < length (calls y) \<and> calls y ! i = Sending e \<and>
        length (queue y (Key e)) = clusterEventBufferSize \<and> sent y = sent x \<and> map fst (workers y) = map fst (workers x)"
      using step B l
    proof (induction rule: step.cases)
      case (step_find j d e')
      then have "j = i" using only by simp
      with step_find show ?case by simp
    next
      case (step_send j d e' q)
      then have "j = i" using only by simp
      with step_send have "e' = e" by simp
      with step_send queue_Some [of x "Key e" q] show ?case by simp
    next
      case (step_take j d key e' q)
      then have "fst (workers x ! j) = fst (workers d ! j)" by simp
      moreover have "fst (workers x ! j) = key" using step_take by simp
      moreover have "key \<noteq> Key e"
        using take step_take B by (metis (no_types, lifting) fst_conv length_map nth_map)
      ultimately show ?case using step_take by (auto simp: queue_def map_fst_list_update)
    qed (auto simp: nth_append nth_list_update queue_def map_fst_list_update)
    with B step show ?thesis by (auto intro: reachable_step)
  qed
  have "?B d'" if "?B x" "acts as x = Some d'"
    "\<forall>j. Take j \<in> set as \<longrightarrow> j < length (workers d) \<and> fst (workers d ! j) \<noteq> Key e" for x as
    using that
  proof (induction as arbitrary: x)
    case (Cons a as)
    then obtain y where y: "step x a y" "acts as y = Some d'" by (auto simp: step_iff_act split: option.splits)
    have "?B y" by (rule stays [OF Cons.prems(1) y(1)]) (use Cons.prems(3) in auto)
    with y(2) Cons.prems(3) Cons.IH show ?case by simp
  qed simp
  from this [OF _ assms(5,6)] lock [of d'] assms(1-4) show ?thesis by blast
qed

section \<open>Witnesses\<close>

lemma acts_reachable: "reachable d \<Longrightarrow> acts as d = Some d' \<Longrightarrow> reachable d'"
  by (induction as arbitrary: d) (auto simp: step_iff_act [symmetric] split: option.splits intro: reachable_step)

lemma acts_append: "acts (as @ bs) d = (case acts as d of None \<Rightarrow> None | Some d' \<Rightarrow> acts bs d')"
  by (induction as arbitrary: d) (auto split: option.split)

definition sample_event :: "string \<Rightarrow> Event" where
  "sample_event k = \<lparr>Kind = AddCluster, Key = k, Event_Data = CassandraData 0\<rparr>"

definition busy_dispatcher :: dispatcher where
  "busy_dispatcher = (case acts [Call (sample_event ''a''), Lock 0, Find 0, Send 0, Take 0,
     Call (sample_event ''a''), Lock 1, Find 1, Send 1] new_dispatcher of Some d \<Rightarrow> d)"

lemma busy_run: "acts [Call (sample_event ''a''), Lock 0, Find 0, Send 0, Take 0,
     Call (sample_event ''a''), Lock 1, Find 1, Send 1] new_dispatcher = Some busy_dispatcher"
proof -
  have "acts [Call (sample_event ''a''), Lock 0, Find 0, Send 0, Take 0,
     Call (sample_event ''a''), Lock 1, Find 1, Send 1] new_dispatcher \<noteq> None" by code_simp
  then show ?thesis by (auto simp: busy_dispatcher_def)
qed

lemma busy_reachable: "reachable busy_dispatcher"
  by (rule acts_reachable [OF reachable_new busy_run])

lemma dispatcher_serialises_witness:
  "started_events ''a'' (handler_log busy_dispatcher) @ queue busy_dispatcher ''a'' =
     filter (\<lambda>e. Key e = ''a'') (sent busy_dispatcher) \<and> queue busy_dispatcher ''a'' = [sample_event ''a'']"
proof -
  have "queue busy_dispatcher ''a'' = [sample_event ''a'']" by code_simp
  with dispatcher_serialises [OF busy_reachable] show ?thesis by blast
qed

lemma dispatcher_drains_witness:
  "\<exists>as d'. list_all serving as \<and> acts as busy_dispatcher = Some d' \<and> drained d' \<and> length as \<le> 3"
proof -
  have "\<forall>w \<in> set (workers busy_dispatcher). snd w \<noteq> Exited" and w: "work busy_dispatcher = 3" by code_simp+
  from dispatcher_drains [OF busy_reachable this(1)] show ?thesis unfolding w by blast
qed

text \<open>A dispatcher with a full channel.\<close>

lemma call_blocks:
  assumes "reachable d" and "dispatchLock d = None" and "\<not> stopped d"
  shows "\<exists>d'. reachable d' \<and> length (calls d') = Suc (length (calls d)) \<and> calls d' ! length (calls d) = Sending e \<and>
    queue d' = queue d \<and> \<not> stopped d' \<and> fmlookup (eventProcessingChannels d') (Key e) \<noteq> None"
proof -
  let ?i = "length (calls d)"
  let ?d1 = "d\<lparr>calls := calls d @ [Waiting_for_lock e]\<rparr>"
  let ?d2 = "?d1\<lparr>dispatchLock := Some ?i, calls := (calls ?d1)[?i := Holding_lock e]\<rparr>"
  let ?d3 = "(find_channel (Key e) ?d2)\<lparr>calls := (calls ?d2)[?i := Sending e]\<rparr>"
  have "step d (Call e) ?d1" using assms(3) by (rule step_call)
  moreover have "step ?d1 (Lock ?i) ?d2" using assms(2) by (intro step_lock) simp_all
  moreover have "step ?d2 (Find ?i) ?d3" by (intro step_find) simp_all
  ultimately have "reachable ?d3" using assms(1) by (blast intro: reachable_step)
  moreover have "queue ?d3 = queue d"
    using queue_eq [of ?d3 "find_channel (Key e) ?d2"] queue_eq [of ?d2 d] by simp
  moreover have "fmlookup (eventProcessingChannels ?d3) (Key e) \<noteq> None"
    using find_channel_there [of "Key e" ?d2] by simp
  ultimately show ?thesis using assms(3) by (intro exI [of _ ?d3]) simp
qed

lemma fill:
  "n \<le> clusterEventBufferSize \<Longrightarrow>
   \<exists>d. reachable d \<and> dispatchLock d = None \<and> \<not> stopped d \<and> length (queue d k) = n"
proof (induction n)
  case 0
  show ?case using reachable_new by (intro exI [of _ new_dispatcher]) (simp add: new_dispatcher_def queue_def)
next
  case (Suc n)
  then obtain d where d: "reachable d" "dispatchLock d = None" "\<not> stopped d" "length (queue d k) = n" by auto
  let ?e = "sample_event k"
  have key: "Key ?e = k" by (simp add: sample_event_def)
  from call_blocks [OF d(1-3), of ?e] obtain d' where d': "reachable d'" "length (calls d') = Suc (length (calls d))"
    "calls d' ! length (calls d) = Sending ?e" "queue d' = queue d" "\<not> stopped d'"
    "fmlookup (eventProcessingChannels d') (Key ?e) \<noteq> None" by blast
  then obtain q where q: "fmlookup (eventProcessingChannels d') (Key ?e) = Some q" by auto
  then have "length q = n" using d(4) d'(4) key queue_Some [OF q] by simp
  with Suc.prems have "length q < clusterEventBufferSize" by simp
  from step_send [OF _ d'(3) q this] d'(2) have "step d' (Send (length (calls d)))
      (d'\<lparr>eventProcessingChannels := fmupd (Key ?e) (q @ [?e]) (eventProcessingChannels d'),
          calls := (calls d')[length (calls d) := Returned], dispatchLock := None, sent := sent d' @ [?e]\<rparr>)"
    (is "step _ _ ?d") by simp
  with d'(1) have "reachable ?d" by (rule reachable_step)
  moreover have "length (queue ?d k) = Suc n" using \<open>length q = n\<close> key by (simp add: queue_def)
  ultimately show ?case using d'(5) by (intro exI [of _ ?d]) simp
qed

lemma full_channel_blocks_all_witness:
  "\<exists>d i d'. reachable d \<and> length (queue d ''a'') = 100 \<and> acts [Call (sample_event ''b'')] d = Some d' \<and>
     calls d' ! i = Sending (sample_event ''a'') \<and> dispatchLock d' = Some i \<and> sent d' = sent d"
proof -
  from fill [of clusterEventBufferSize "''a''"] obtain d0 where
    "reachable d0" "dispatchLock d0 = None" "\<not> stopped d0" "length (queue d0 ''a'') = clusterEventBufferSize" by auto
  from call_blocks [OF this(1-3), of "sample_event ''a''"] this(4) obtain d where
    d: "reachable d" "length (calls d) = Suc (length (calls d0))"
    "calls d ! length (calls d0) = Sending (sample_event ''a'')"
    "length (queue d ''a'') = clusterEventBufferSize" by auto
  obtain d' where d': "acts [Call (sample_event ''b'')] d = Some d'" by (simp add: Dispatch_call_def)
  have "Key (sample_event ''a'') = ''a''" by (simp add: sample_event_def)
  with full_channel_blocks_all [OF d(1) _ d(3) _ d'] d show ?thesis
    by (intro exI [of _ d] exI [of _ "length (calls d0)"] exI [of _ d'])
      (simp add: clusterEventBufferSize_def del: acts.simps add: d')
qed

end
