(* ===== verification/OperatorSystem.thy ===== *)
theory OperatorSystem
  imports OperatorEvents Dispatcher "HOL-Library.Multiset"
begin

text \<open>
  The operator as \<open>New\<close> and \<open>Run\<close> of \<^verbatim>\<open>cassandra-operator/pkg/operator/operator.go\<close> put it
  together: the handlers of the informers and the metrics poll call the dispatcher, and the
  workers of the dispatcher call the receiver, which works on the memory the handlers read.
\<close>

section \<open>The composition\<close>

text \<open>
  Actions of the dispatcher that touch nothing else; the others call it or run its handler.
\<close>

fun dispatcher_only :: "action \<Rightarrow> bool" where
  "dispatcher_only (Call e) \<longleftrightarrow> False"
| "dispatcher_only (Finish j) \<longleftrightarrow> False"
| "dispatcher_only a \<longleftrightarrow> True"

text \<open>
  The calls that a handler makes join whatever other calls wait for the lock. What a worker does to
  the memory happens in one step, when its handler returns.
\<close>

inductive system_run :: "'w Env \<Rightarrow> Config \<Rightarrow> 'w sys \<Rightarrow> dispatcher \<Rightarrow> bool"
  for env :: "'w Env" and config :: Config where
  system_start: "system_run env config (started w) new_dispatcher"
| system_deliver: "system_run env config s d \<Longrightarrow> cassandra_heap s r = None \<Longrightarrow>
    system_run env config (s\<lparr>cassandra_heap := (cassandra_heap s)(r \<mapsto> x)\<rparr>) d"
| system_notify: "system_run env config s d \<Longrightarrow> known_clusters s n \<Longrightarrow> explicit_objects s n \<Longrightarrow>
    cluster_handler config n s = Done es t \<Longrightarrow> acts (map Call es) d = Some d' \<Longrightarrow> system_run env config t d'"
| system_config: "system_run env config s d \<Longrightarrow> config_handler n s = Done es t \<Longrightarrow>
    acts (map Call es) d = Some d' \<Longrightarrow> system_run env config t d'"
| system_poll: "system_run env config s d \<Longrightarrow> poll_round env s = Done es t \<Longrightarrow>
    acts (map Call es) d = Some d' \<Longrightarrow> system_run env config t d'"
| system_dispatch: "system_run env config s d \<Longrightarrow> dispatcher_only a \<Longrightarrow> step d a d' \<Longrightarrow>
    system_run env config s d'"
| system_handle: "system_run env config s d \<Longrightarrow> nth_opt (workers d) j = Some (k, Handling e) \<Longrightarrow>
    Receive env e s = Done () t \<Longrightarrow> step d (Finish j) d' \<Longrightarrow> system_run env config t d'"
| system_elapse: "system_run env config s d \<Longrightarrow> system_run env config (s\<lparr>world := w\<rparr>) d"

section \<open>What the dispatcher owes\<close>

text \<open>The events that have been called or sent, and of those the ones that have been handled.\<close>

definition call_events :: "phase \<Rightarrow> Event list" where
  "call_events p = (case p of Waiting_for_lock e \<Rightarrow> [e] | Holding_lock e \<Rightarrow> [e] | Sending e \<Rightarrow> [e] | Returned \<Rightarrow> [])"

lemma call_events_simps [simp]:
  "call_events (Waiting_for_lock e) = [e]" "call_events (Holding_lock e) = [e]"
  "call_events (Sending e) = [e]" "call_events Returned = []"
  by (simp_all add: call_events_def)

fun finished_events :: "log_entry list \<Rightarrow> Event list" where
  "finished_events [] = []"
| "finished_events (Finished e # entries) = e # finished_events entries"
| "finished_events (Started e # entries) = finished_events entries"

lemma finished_events_append [simp]: "finished_events (entries @ entries') = finished_events entries @ finished_events entries'"
  by (induction entries rule: finished_events.induct) simp_all

definition taken :: "dispatcher \<Rightarrow> Event multiset" where
  "taken d = (\<Sum>p\<leftarrow>calls d. mset (call_events p)) + mset (sent d)"

text \<open>The pending events \<open>q\<close> hold all that the dispatcher has been given and has not handled.\<close>

definition owed :: "dispatcher \<Rightarrow> Event list \<Rightarrow> bool" where
  "owed d q \<longleftrightarrow> taken d \<subseteq># mset q + mset (finished_events (handler_log d))"

lemma sum_list_update_mset:
  "i < length xs \<Longrightarrow> (\<Sum>p\<leftarrow>xs[i := y]. f p) + f (xs ! i) = (\<Sum>p\<leftarrow>xs. f p) + (f y :: 'b multiset)"
  by (induction xs arbitrary: i) (auto split: nat.split simp: ac_simps)

lemma taken_update:
  assumes "i < length (calls d)" and "calls d' = (calls d)[i := y]"
    and "mset (call_events (calls d ! i)) + mset (sent d) = mset (call_events y) + mset (sent d')"
  shows "taken d' = taken d"
proof -
  have "taken d' + (mset (call_events (calls d ! i)) + mset (sent d)) =
      taken d + (mset (call_events y) + mset (sent d'))"
    using sum_list_update_mset [OF assms(1), of "\<lambda>p. mset (call_events p)" y]
    by (simp add: taken_def assms(2) ac_simps)
  with assms(3) show ?thesis by simp
qed

text \<open>Only calls add to what is owed, and only the end of a handler takes away from it.\<close>

lemma owed_dispatch:
  assumes "step d a d'" and "dispatcher_only a" and "owed d q"
  shows "owed d' q"
  using assms
proof (induction rule: step.induct)
  case (step_lock i d e)
  then show ?case
    using taken_update [of i d "d\<lparr>dispatchLock := Some i, calls := (calls d)[i := Holding_lock e]\<rparr>" "Holding_lock e"]
    by (simp add: owed_def)
next
  case (step_find i d e)
  then show ?case
    using taken_update [of i d "(find_channel (Key e) d)\<lparr>calls := (calls d)[i := Sending e]\<rparr>" "Sending e"]
    by (simp add: owed_def)
next
  case (step_send i d e q')
  then show ?case
    using taken_update [of i d "d\<lparr>eventProcessingChannels := fmupd (Key e) (q' @ [e]) (eventProcessingChannels d),
      calls := (calls d)[i := Returned], dispatchLock := None, sent := sent d @ [e]\<rparr>" Returned]
    by (simp add: owed_def)
qed (simp_all add: owed_def taken_def)

lemma mset_subset_eq_add_mset_right: "A \<subseteq># add_mset x A"
  by (metis add_mset_add_single mset_subset_eq_add_left)

lemma owed_calls:
  assumes "owed d q" and "acts (map Call es) d = Some d'"
  shows "owed d' (q @ es)"
  using assms
proof (induction es arbitrary: d q)
  case (Cons e es)
  then obtain d1 where d1: "Dispatch_call e d = Some d1" "acts (map Call es) d1 = Some d'"
    by (auto split: option.splits)
  have "owed d1 (q @ [e])"
  proof (cases "stopped d")
    case True
    then have "taken d1 = taken d" "handler_log d1 = handler_log d"
      using d1(1) by (auto simp: Dispatch_call_def taken_def)
    with Cons.prems(1) show ?thesis
      unfolding owed_def by (simp add: subset_mset.order_trans [OF _ mset_subset_eq_add_mset_right])
  next
    case False
    then have "taken d1 = add_mset e (taken d)" "handler_log d1 = handler_log d"
      using d1(1) by (auto simp: Dispatch_call_def taken_def)
    with Cons.prems(1) show ?thesis by (simp add: owed_def)
  qed
  from Cons.IH [OF this d1(2)] show ?case by simp
qed simp

text \<open>An event in a handler has been sent and not finished, so it is owed.\<close>

lemma handling_balance:
  "handling k entries = Some x \<Longrightarrow>
   mset (started_events k entries) = mset (filter (\<lambda>e. Key e = k) (finished_events entries)) +
     (case x of None \<Rightarrow> {#} | Some e \<Rightarrow> {#e#})"
proof (induction entries arbitrary: x rule: rev_induct)
  case (snoc l entries)
  then show ?case
    by (cases l) (auto split: if_splits option.splits)
qed (simp add: handling_def)

lemma handling_owed:
  assumes "reachable d" and "map_of (workers d) k = Some (Handling e)" and "owed d q"
  shows "e \<in> set q"
proof -
  have inv: "worker_inv d" "history_inv d" using reachable_inv [OF assms(1)] by simp_all
  have key: "Key e = k" using inv(1) assms(2) unfolding worker_inv_def by blast
  let ?key = "\<lambda>e. Key e = k"
  have "handling k (handler_log d) = Some (Some e)" using inv(2) assms(2) by (simp add: history_inv_def)
  from handling_balance [OF this]
  have "filter_mset ?key (mset (finished_events (handler_log d))) + {#e#} = mset (started_events k (handler_log d))"
    by simp
  also have "\<dots> \<subseteq># mset (filter ?key (sent d))"
    using inv(2) unfolding history_inv_def by (metis mset_append mset_subset_eq_add_left)
  also have "\<dots> \<subseteq># filter_mset ?key (taken d)" by (simp add: taken_def)
  also have "\<dots> \<subseteq># filter_mset ?key (mset q + mset (finished_events (handler_log d)))"
    using assms(3) unfolding owed_def by (rule multiset_filter_mono)
  finally have "{#e#} \<subseteq># filter_mset ?key (mset q)" by simp
  then show ?thesis using key by simp
qed

section \<open>Pending events are keyed by their cluster\<close>

text \<open>Every event but those of config maps.\<close>

definition cluster_keyed :: "'w sys \<Rightarrow> Event \<Rightarrow> bool" where
  "cluster_keyed s e \<longleftrightarrow> (\<exists>m. Event_Data e = ConfigMapData m) \<or> keyed_by_subject s e"

lemma identity_QualifiedName: "identity_of d' = identity_of d \<Longrightarrow> QualifiedName d' = QualifiedName d"
  by (simp add: identity_of_def QualifiedName_def)

lemma cluster_keyed_evolves:
  assumes "evolves s t" and "cluster_keyed s e"
  shows "cluster_keyed t e"
proof (cases "Event_Data e")
  case (CassandraData r)
  with assms(2) obtain d where "cassandra_heap s r = Some d" "QualifiedName d = Key e"
    by (auto simp: cluster_keyed_def keyed_by_subject_def)
  with evolvesD(2) [OF assms(1)] CassandraData show ?thesis
    by (fastforce simp: cluster_keyed_def keyed_by_subject_def dest: identity_QualifiedName)
next
  case (ClusterUpdateData u)
  with assms(2) obtain d where "cassandra_heap s (NewCluster u) = Some d" "QualifiedName d = Key e"
    by (auto simp: cluster_keyed_def keyed_by_subject_def)
  with evolvesD(2) [OF assms(1)] ClusterUpdateData show ?thesis
    by (fastforce simp: cluster_keyed_def keyed_by_subject_def dest: identity_QualifiedName)
next
  case (ClusterData c)
  with assms(2) obtain x where "cluster_heap s c = Some x" "Cluster_QualifiedName x = Key e"
    by (auto simp: cluster_keyed_def keyed_by_subject_def)
  with evolvesD(1) [OF assms(1)] ClusterData show ?thesis
    by (fastforce simp: cluster_keyed_def keyed_by_subject_def)
qed (simp add: cluster_keyed_def)

lemma all_keyed_append:
  assumes "\<forall>e \<in> set q. cluster_keyed s e" and "evolves s t" and "\<forall>e \<in> set es. cluster_keyed t e"
  shows "\<forall>e \<in> set (q @ es). cluster_keyed t e"
  using assms cluster_keyed_evolves [OF assms(2)] by auto

lemma keyed_notify:
  assumes "known_clusters s n" and "cluster_handler config n s = Done es t"
  shows "evolves s t \<and> (\<forall>e \<in> set es. cluster_keyed t e)"
proof -
  have "goes (cluster_handler config n s) (\<lambda>es t. evolves s t \<and> (\<forall>e \<in> set es. cluster_keyed t e))"
  proof (rule goes_cluster_handler [OF assms(1)])
    fix kind r d t
    assume d: "cassandra_heap s r = Some d" and t: "t = s\<lparr>cassandra_heap := (cassandra_heap s)(r \<mapsto> adjusted config d)\<rparr>"
    then show "evolves s t \<and> (\<forall>e \<in> set [\<lparr>Kind = kind, Key = QualifiedName d, Event_Data = CassandraData r\<rparr>]. cluster_keyed t e)"
      using evolves_adjusted [OF d d, of config] by (simp add: cluster_keyed_def keyed_by_subject_def)
  next
    fix r q' o' d t es
    assume d: "cassandra_heap s r = Some o'" "cassandra_heap s q' = Some d"
      "t = s\<lparr>cassandra_heap := (cassandra_heap s)(r \<mapsto> adjusted config o', q' \<mapsto> adjusted config d)\<rparr>"
      "es = (if r = q' \<or> Spec (adjusted config o') = Spec (adjusted config d) then []
            else [\<lparr>Kind = UpdateCluster, Key = QualifiedName d,
                   Event_Data = ClusterUpdateData \<lparr>OldCluster = r, NewCluster = q'\<rparr>\<rparr>])"
    then show "evolves s t \<and> (\<forall>e \<in> set es. cluster_keyed t e)"
      using evolves_adjusted [OF d(1,2), of config] by (simp add: cluster_keyed_def keyed_by_subject_def)
  qed
  with assms(2) show ?thesis by (simp add: goes_def)
qed

lemma keyed_config:
  assumes "config_handler n s = Done es t"
  shows "t = s \<and> (\<forall>e \<in> set es. cluster_keyed t e)"
  using assms
  by (cases n) (auto simp: configMapAdded_def configMapDeleted_def configMapUpdated_def assert_ConfigMap_def
      bind_def pass_def gets_def panic_with_def config_event_def cluster_keyed_def
      split: informer_object.splits if_splits)

lemma keyed_poll:
  assumes "memory_ok env s" and "poll_round env s = Done es t"
  shows "evolves s t \<and> (\<forall>e \<in> set es. cluster_keyed t e)"
proof -
  let ?t = "s\<lparr>world := snd (range_keys env (sorted_list_of_fset (fmdom (clusters s))) (world s))\<rparr>"
  let ?keys = "fst (range_keys env (sorted_list_of_fset (fmdom (clusters s))) (world s))"
  have ok: "memory_ok env ?t" using assms(1) by (simp add: memory_ok_def)
  have "online_events (clusters s) ?keys ?t = Done es t"
    using assms(2) by (simp add: poll_round_def bind_def gets_def range_order_eq)
  then have "online_events (clusters ?t) ?keys ?t = Done es t" by simp
  from online_events_Done [OF ok this] show ?thesis by (auto simp: evolves_def cluster_keyed_def)
qed

lemma run_handled:
  assumes "env_ok env" and "operator_run env config s q" and "e \<in> set q" and "Receive env e s = Done () t"
  shows "handled env s t"
proof -
  from operator_run_inv [OF assms(1,2)] assms(3) have ok: "memory_ok env s" and e: "event_ok s e"
    by (auto simp: run_inv_def pending_event_ok)
  with received.handler_Done [of env s e t] assms(1,4) show ?thesis by blast
qed

lemma operator_run_keyed:
  assumes "env_ok env" and "operator_run env config s q"
  shows "\<forall>e \<in> set q. cluster_keyed s e"
  using assms(2)
proof induction
  case (run_deliver s q r d)
  have "evolves s (s\<lparr>cassandra_heap := (cassandra_heap s)(r \<mapsto> d)\<rparr>)"
    using run_deliver.hyps(2) by (auto simp: evolves_def)
  with run_deliver.IH show ?case by (auto intro: cluster_keyed_evolves)
next
  case (run_notify s q n es t)
  then show ?case using keyed_notify [OF run_notify.hyps(2,4)] by (intro all_keyed_append) auto
next
  case (run_config s q n es t)
  then show ?case using keyed_config [OF run_config.hyps(2)] by auto
next
  case (run_poll s q es t)
  have "memory_ok env s" using operator_run_inv [OF assms(1) run_poll.hyps(1)] by (simp add: run_inv_def)
  from keyed_poll [OF this run_poll.hyps(2)] run_poll.IH show ?case by (intro all_keyed_append) auto
next
  case (run_handle s p e q t)
  have "evolves s t" using run_handled [OF assms(1) run_handle.hyps(1) _ run_handle.hyps(2)] by (simp add: handled_def)
  with run_handle.IH show ?case by (auto intro: cluster_keyed_evolves)
next
  case (run_elapse s q w)
  have "evolves s (s\<lparr>world := w\<rparr>)" by (simp add: evolves_def)
  with run_elapse.IH show ?case by (auto intro: cluster_keyed_evolves)
qed simp

section \<open>The composition is a run of the operator\<close>

lemma owed_finish:
  assumes "owed d (p @ e # q)" and "step d (Finish j) d'" and "nth_opt (workers d) j = Some (k, Handling e)"
  shows "owed d' (p @ q)"
  using assms(2,1,3)
  by (cases rule: step.cases) (auto simp: owed_def taken_def nth_opt_def split: if_splits)

lemma workers_map:
  assumes "reachable d" and "nth_opt (workers d) j = Some (k, a)"
  shows "map_of (workers d) k = Some a"
  using assms reachable_inv [OF assms(1)]
  by (auto simp: worker_inv_def nth_opt_def in_set_conv_nth intro!: map_of_is_SomeI split: if_splits)

lemma system_refines:
  assumes "system_run env config s d"
  shows "reachable d \<and> (\<exists>q. operator_run env config s q \<and> owed d q)"
  using assms
proof induction
  case (system_start w)
  have "owed new_dispatcher []" by (simp add: owed_def taken_def new_dispatcher_def)
  then show ?case using run_start [of env config w] reachable_new by blast
next
  case (system_notify s d n es t d')
  then show ?case by (metis acts_reachable owed_calls run_notify)
next
  case (system_config s d n es t d')
  then show ?case by (metis acts_reachable owed_calls run_config)
next
  case (system_poll s d es t d')
  then show ?case by (metis acts_reachable owed_calls run_poll)
next
  case (system_dispatch s d a d')
  then show ?case by (metis reachable_step owed_dispatch)
next
  case (system_handle s d j k e t d')
  then obtain q where q: "operator_run env config s q" "owed d q" and d: "reachable d" by blast
  have "e \<in> set q" by (rule handling_owed [OF d workers_map [OF d system_handle.hyps(2)] q(2)])
  then obtain q1 q2 where split: "q = q1 @ e # q2" by (meson split_list)
  have "operator_run env config t (q1 @ q2)"
    using run_handle [OF q(1) [unfolded split] system_handle.hyps(3)] .
  moreover have "owed d' (q1 @ q2)"
    by (rule owed_finish [OF q(2) [unfolded split] system_handle.hyps(4,2)])
  ultimately show ?case using reachable_step [OF d system_handle.hyps(4)] by blast
qed (blast intro: run_deliver run_elapse)+

lemma system_memory:
  assumes "env_ok env" and "settles env" and "system_run env config s d"
    and "nth_opt (workers d) j = Some (k, Handling e)"
  shows "memory_ok env s \<and> cluster_keyed s e \<and> (\<exists>t. Receive env e s = Done () t)"
proof -
  from system_refines [OF assms(3)] obtain q where d: "reachable d" and q: "operator_run env config s q" "owed d q"
    by blast
  have e: "e \<in> set q" by (rule handling_owed [OF d workers_map [OF d assms(4)] q(2)])
  from operator_run_inv [OF assms(1) q(1)] e have ok: "memory_ok env s" "event_ok s e"
    by (auto simp: run_inv_def pending_event_ok)
  have "\<exists>t. Receive env e s = Done () t"
    using settled.handler_returns [of env s e] assms(1,2) ok by blast
  with ok(1) operator_run_keyed [OF assms(1) q(1)] e show ?thesis by blast
qed

lemma finish_step:
  "nth_opt (workers d) j = Some (k, Handling e) \<Longrightarrow> \<exists>d'. step d (Finish j) d'"
  by (auto simp: nth_opt_def split: if_splits intro: step_finish)

lemma handling_key:
  assumes "reachable d" and "nth_opt (workers d) j = Some (k, Handling e)"
  shows "Key e = k"
  using reachable_inv [OF assms(1)] workers_map [OF assms] unfolding worker_inv_def by blast


text \<open>The first event in the hands of its worker.\<close>

lemma system_acts:
  "system_run env config s d \<Longrightarrow> list_all dispatcher_only as \<Longrightarrow> acts as d = Some d' \<Longrightarrow> system_run env config s d'"
  by (induction as arbitrary: d) (auto split: option.splits simp: step_iff_act [symmetric] intro: system_dispatch)

definition first_dispatcher :: dispatcher where
  "first_dispatcher = \<lparr>eventProcessingChannels = fmupd (Key first_event) [] (fmupd (Key first_event) [first_event]
       (fmupd (Key first_event) [] fmempty)),
     workers = [(Key first_event, Handling first_event)], calls = [Returned], dispatchLock = None,
     stopCh_closed = False, stopped = False, sent = [first_event], handler_log = [Started first_event]\<rparr>"

lemma first_system_run: "system_run server_env (startOperator default_flags) first_sys first_dispatcher"
proof -
  have "system_run server_env (startOperator default_flags) delivered_sys new_dispatcher"
    using system_deliver [OF system_start [of server_env "startOperator default_flags" 0], of 0 sample_definition]
    by (simp add: started_def delivered_sys_def)
  moreover have "acts (map Call [first_event]) new_dispatcher =
      Some (new_dispatcher\<lparr>calls := [Waiting_for_lock first_event]\<rparr>)"
    by (simp add: Dispatch_call_def new_dispatcher_def)
  ultimately have "system_run server_env (startOperator default_flags) first_sys
      (new_dispatcher\<lparr>calls := [Waiting_for_lock first_event]\<rparr>)"
    by (rule system_notify [OF _ first_notification])
  then show ?thesis
    by (rule system_acts [of _ _ _ _ "[Lock 0, Find 0, Send 0, Take 0]"])
      (simp_all add: Dispatch_lock_def Dispatch_find_def Dispatch_send_def start_take_def find_channel_def
        new_dispatcher_def first_dispatcher_def nth_opt_def clusterEventBufferSize_def)
qed


section \<open>The system drains\<close>

lemma system_serves:
  assumes "env_ok env" and "settles env"
  shows "system_run env config s d \<Longrightarrow> list_all serving as \<Longrightarrow> acts as d = Some d' \<Longrightarrow> \<exists>t. system_run env config t d'"
proof (induction as arbitrary: s d)
  case (Cons a as)
  then obtain d1 where d1: "step d a d1" "acts as d1 = Some d'" by (auto simp: step_iff_act split: option.splits)
  have "\<exists>t. system_run env config t d1"
  proof (cases "dispatcher_only a")
    case True
    from system_dispatch [OF Cons.prems(1) this d1(1)] show ?thesis by blast
  next
    case False
    with Cons.prems(2) obtain j where a: "a = Finish j" by (cases a) auto
    then obtain k e where "nth_opt (workers d) j = Some (k, Handling e)"
      using d1(1) by (auto elim: step.cases simp: nth_opt_def)
    with system_memory [OF assms Cons.prems(1)] show ?thesis
      using system_handle [OF Cons.prems(1)] d1(1) a by metis
  qed
  with Cons.IH d1(2) Cons.prems(2) show ?case by auto
qed auto



end
