(* ===== verification/StoragePolicy.thy ===== *)
theory StoragePolicy
  imports OperationFrame OperatorSystem
begin

text \<open>
  What the flag \<^verbatim>\<open>allow-empty-dir\<close> of \<^verbatim>\<open>cassandra-operator/cmd/operator/main.go\<close> is for, followed through the
  whole operator: unless it is set, no stateful set is created without a persistent volume for the
  data of Cassandra, whatever the definitions ask for. The handlers of \<^verbatim>\<open>operator.go\<close> see to it, and
  nothing behind them undoes it.
\<close>

section \<open>Persistent storage\<close>

definition persistent :: "Cassandra \<Rightarrow> bool" where
  "persistent d \<longleftrightarrow> \<not> UseEmptyDir (Spec d)"

text \<open>A set with one claim, whose volume holds the data of its Cassandra container, and no volume of its name besides.\<close>

definition durable :: "StatefulSet \<Rightarrow> bool" where
  "durable sts \<longleftrightarrow> (\<exists>claim. sts_VolumeClaimTemplates sts = [claim] \<and>
     (\<forall>ct \<in> set (ps_Containers (pt_Spec (sts_Template sts))).
        \<lparr>vm_Name = om_Name (pvc_Meta claim), vm_MountPath = ''/var/lib/cassandra''\<rparr> \<in> set (ct_VolumeMounts ct)))"

lemma createStatefulSetForRack_durable:
  assumes "createStatefulSetForRack c rack m = Inr sts" and "persistent (cdef c)"
  shows "durable sts"
  using assms
  by (auto simp: createStatefulSetForRack_def persistent_def durable_def createCassandraContainer_def Let_def
      createCassandraDataPersistentVolumeClaimForRack_def createVolumeMounts_def objectMetadata_def
      split: sum.splits)

fun storage_ok :: "effect \<Rightarrow> bool" where
  "storage_ok (Request (CreateStatefulSet n sts)) \<longleftrightarrow> durable sts"
| "storage_ok _ \<longleftrightarrow> True"

text \<open>
  The definitions at \<open>R\<close>, which events carry, and all clusters ask for persistent storage, and no set
  has been created without.
\<close>

definition storage_inv :: "ref set \<Rightarrow> 'w sys \<Rightarrow> bool" where
  "storage_inv R s \<longleftrightarrow>
     (\<forall>r \<in> R. \<exists>d. cassandra_heap s r = Some d \<and> persistent d) \<and>
     (\<forall>r c. cluster_heap s r = Some c \<longrightarrow> persistent (cdef c)) \<and>
     (\<forall>e \<in> set (trace s). storage_ok e)"

interpretation storage: operation_memory poll_ok persistent storage_ok "storage_inv R" R UNIV UNIV for R
proof unfold_locales
  fix c rack m sts
  assume "persistent (cdef c)" "createStatefulSetForRack c rack m = Inr sts"
  then show "storage_ok (Request (CreateStatefulSet (Cluster_Namespace c) sts))"
    by (simp add: createStatefulSetForRack_durable)
next
  fix e assume "reading e"
  then show "storage_ok e" by (cases e rule: reading.cases) simp_all
qed (auto simp: storage_inv_def persistent_def same_kind_def list_all_iff)

lemma storage_Receive:
  assumes "poll_ok env" and "event_refs (Event_Data e) \<subseteq> R" and "storage_inv R s" and "Receive env e s = Done () t"
  shows "storage_inv R t"
  by (rule storage.kept_Receive [OF assms(1) _ assms(3,4)]) (use assms(2) in auto)

section \<open>The running operator\<close>

text \<open>What the events that wait carry is persistent, too: the handlers have adjusted it.\<close>

definition policy_inv :: "'w sys \<Rightarrow> Event list \<Rightarrow> bool" where
  "policy_inv s q \<longleftrightarrow> storage_inv (\<Union>e \<in> set q. event_refs (Event_Data e)) s"

lemma storage_inv_subset: "storage_inv R s \<Longrightarrow> R' \<subseteq> R \<Longrightarrow> storage_inv R' s"
  by (auto simp: storage_inv_def)

lemma adjusted_persistent: "\<not> AllowEmptyDir config \<Longrightarrow> persistent (adjusted config d)"
  by (simp add: persistent_def)

lemma policy_notify:
  assumes "\<not> AllowEmptyDir config" and "policy_inv s q" and "known_clusters s n"
  shows "goes (cluster_handler config n s) (\<lambda>es t. policy_inv t (q @ es))"
  using assms
  by (intro goes_cluster_handler [OF assms(3)])
    (auto simp: policy_inv_def storage_inv_def adjusted_persistent)

lemma config_handler_refs:
  assumes "config_handler n s = Done es t"
  shows "t = s \<and> (\<forall>e \<in> set es. event_refs (Event_Data e) = {})"
  using assms
  by (cases n) (auto simp: configMapAdded_def configMapDeleted_def configMapUpdated_def assert_ConfigMap_def
      bind_def pass_def gets_def panic_with_def config_event_def
      split: informer_object.splits if_splits)

lemma online_events_refs:
  "online_events managed names s = Done es t \<Longrightarrow> t = s \<and> (\<forall>e \<in> set es. event_refs (Event_Data e) = {})"
proof (induction names arbitrary: es)
  case (Cons name names)
  show ?case
  proof (cases "fmlookup managed name")
    case (Some r)
    with Cons.prems obtain c events where later: "online_events managed names s = Done events t"
      and es: "es = (if Online c then \<lparr>Kind = GatherMetrics, Key = Cluster_QualifiedName c, Event_Data = ClusterData r\<rparr> # events
        else events)"
      by (auto simp: read_cluster_def bind_def gets_def deref_def pass_def panic_with_def split: option.splits outcome.splits)
    from Cons.IH [OF later] es show ?thesis by auto
  qed (use Cons in simp)
qed (simp add: pass_def)

lemma policy_poll:
  assumes "poll_round env s = Done es t" and "policy_inv s q"
  shows "policy_inv t (q @ es)"
proof -
  obtain names u where u: "range_order env (clusters s) s = Done names u" and run: "online_events (clusters s) names u = Done es t"
    using assms(1) by (auto simp: poll_round_def bind_def gets_def split: outcome.splits)
  have "keeps (storage_inv R) (range_order env (clusters s))" for R
    unfolding range_order_def by (rule storage.kept_ask)
  with u assms(2) online_events_refs [OF run] show ?thesis by (auto simp: policy_inv_def dest: keepsD)
qed

lemma operator_run_policy:
  assumes "env_ok env" and "\<not> AllowEmptyDir config" and "operator_run env config s q"
  shows "policy_inv s q"
  using assms(3)
proof induction
  case (run_start w)
  then show ?case by (simp add: policy_inv_def storage_inv_def started_def)
next
  case (run_deliver s q r d)
  then show ?case by (fastforce simp: policy_inv_def storage_inv_def)
next
  case (run_notify s q n es t)
  with policy_notify [OF assms(2) run_notify.IH run_notify.hyps(2)] show ?case by (simp add: goes_def)
next
  case (run_config s q n es t)
  with config_handler_refs [OF run_config.hyps(2)] show ?case by (simp add: policy_inv_def)
next
  case (run_poll s q es t)
  then show ?case by (blast intro: policy_poll)
next
  case (run_handle s p e q t)
  let ?R = "\<Union>e \<in> set (p @ e # q). event_refs (Event_Data e)"
  have "storage_inv ?R t"
    by (rule storage_Receive [OF env_okD(1) [OF assms(1)] _ _ run_handle.hyps(2)])
      (use run_handle.IH in \<open>auto simp: policy_inv_def\<close>)
  then show ?case unfolding policy_inv_def by (rule storage_inv_subset) auto
next
  case (run_elapse s q w)
  then show ?case by (simp add: policy_inv_def storage_inv_def)
qed



end
