(* ===== verification/Isolation.thy ===== *)
theory Isolation
  imports OperationFrame OperatorSystem
begin

text \<open>
  What keeps the clusters of one operator apart. All workers share the maps of
  \<^verbatim>\<open>cassandra-operator/pkg/operator/operator.go\<close> and of \<^verbatim>\<open>pkg/metrics/prometheus.go\<close> and talk to one API
  server, so that nothing but the code of the operations keeps an event about one cluster from
  the others: here is the part that belongs to a cluster, and the proof that every handler stays in it.
  The maps themselves are not protected, which the last section shows.
\<close>

section \<open>The part of a cluster\<close>

text \<open>A namespace that can be the first half of the qualified name, and the second half then.\<close>

definition inside :: "string \<Rightarrow> string \<Rightarrow> bool" where
  "inside k n \<longleftrightarrow> prefix (n @ ''.'') k"

definition own_name :: "string \<Rightarrow> string \<Rightarrow> string" where
  "own_name k n = drop (Suc (length n)) k"

lemma inside_own [simp]: "inside (n @ CHR ''.'' # m) n" "own_name (n @ CHR ''.'' # m) n = m"
  by (simp_all add: inside_def own_name_def)

text \<open>
  Writes to objects of the cluster with the qualified name \<open>k\<close>: its service and stateful sets by
  name, cron jobs and edited sets by namespace; events and gauges that bear its name.
\<close>

fun about :: "string \<Rightarrow> effect \<Rightarrow> bool" where
  "about k (Request (CreateServiceReq n svc)) \<longleftrightarrow> inside k n \<and> om_Name (svc_Meta svc) = own_name k n"
| "about k (Request (DeleteServiceReq n m)) \<longleftrightarrow> inside k n \<and> m = own_name k n"
| "about k (Request (DeleteStatefulSets n sel)) \<longleftrightarrow> inside k n \<and> sel = OperatorLabel @ ''='' @ own_name k n"
| "about k (Request (CreateStatefulSet n sts)) \<longleftrightarrow>
     inside k n \<and> om_Namespace (sts_Meta sts) = n \<and> prefix (own_name k n @ ''-'') (om_Name (sts_Meta sts))"
| "about k (Request (PatchStatefulSetReq n m patch)) \<longleftrightarrow> inside k n \<and> prefix (own_name k n @ ''-'') m"
| "about k (Request (UpdateStatefulSetReq n sts)) \<longleftrightarrow> inside k n"
| "about k (Request (CreateCronJob n job)) \<longleftrightarrow> inside k n"
| "about k (Request (DeleteCronJobReq n m)) \<longleftrightarrow> inside k n"
| "about k (Request (UpdateCronJobReq n job)) \<longleftrightarrow> inside k n"
| "about k (Event subject ty reason msg) \<longleftrightarrow> subject = k"
| "about k (SetNodeGauge ls x) \<longleftrightarrow> inside k (ls ! 1) \<and> ls ! 0 = own_name k (ls ! 1)"
| "about k (DeleteNodeGauge ls) \<longleftrightarrow> inside k (ls ! 1) \<and> ls ! 0 = own_name k (ls ! 1)"
| "about k (SetSizeGauge ls x) \<longleftrightarrow> inside k (ls ! 1) \<and> ls ! 0 = own_name k (ls ! 1)"
| "about k (DeleteSizeGauge ls) \<longleftrightarrow> inside k (ls ! 1) \<and> ls ! 0 = own_name k (ls ! 1)"
| "about k e \<longleftrightarrow> True"

text \<open>The cluster an event is about.\<close>

fun event_about :: "'w sys \<Rightarrow> string \<Rightarrow> event_data \<Rightarrow> bool" where
  "event_about s k (CassandraData r) \<longleftrightarrow> map_option QualifiedName (cassandra_heap s r) = Some k"
| "event_about s k (ClusterUpdateData u) \<longleftrightarrow>
     map_option QualifiedName (cassandra_heap s (OldCluster u)) = Some k \<and>
     map_option QualifiedName (cassandra_heap s (NewCluster u)) = Some k"
| "event_about s k (ClusterData c) \<longleftrightarrow> map_option Cluster_QualifiedName (cluster_heap s c) = Some k"
| "event_about s k (ConfigMapData m) \<longleftrightarrow> QualifiedClusterNameFor m = Inr k"

text \<open>
  From \<open>s\<close> to \<open>t\<close>, nothing but the part of \<open>k\<close> has changed: every other cluster is registered as
  before, as the same object with the same content, its nodes are the known ones, no definition but
  those at \<open>R\<close> was written, and all that was done to the outside is about \<open>k\<close>.
\<close>

definition isolated :: "string \<Rightarrow> ref set \<Rightarrow> 'w sys \<Rightarrow> 'w sys \<Rightarrow> bool" where
  "isolated k R s t \<longleftrightarrow>
     (\<forall>n. n \<noteq> k \<longrightarrow> fmlookup (clusters t) n = fmlookup (clusters s) n \<and>
        (\<forall>r. fmlookup (clusters s) n = Some r \<longrightarrow> cluster_heap t r = cluster_heap s r) \<and>
        fmlookup (topology t) n = fmlookup (topology s) n) \<and>
     (\<forall>r. r \<notin> R \<longrightarrow> cassandra_heap t r = cassandra_heap s r) \<and>
     (\<exists>es. trace t = trace s @ es \<and> list_all (about k) es)"

section \<open>The invariant of a handler\<close>

definition foreign :: "string \<Rightarrow> 'w sys \<Rightarrow> ref set" where
  "foreign k s = {r. \<exists>n. n \<noteq> k \<and> fmlookup (clusters s) n = Some r}"

definition own_inv :: "string \<Rightarrow> ref set \<Rightarrow> ref set \<Rightarrow> 'w sys \<Rightarrow> 'w sys \<Rightarrow> bool" where
  "own_inv k R K s0 s \<longleftrightarrow> isolated k R s0 s \<and>
     (\<forall>r \<in> R. \<forall>d. cassandra_heap s r = Some d \<longrightarrow> QualifiedName d = k) \<and>
     (\<forall>r \<in> K. r \<notin> foreign k s0 \<and> (\<forall>c. cluster_heap s r = Some c \<longrightarrow> Cluster_QualifiedName c = k)) \<and>
     (\<forall>r \<in> foreign k s0. r < next_cluster s) \<and>
     (\<forall>r. fmlookup (clusters s) k = Some r \<longrightarrow>
        r \<notin> foreign k s0 \<and> (\<forall>c. cluster_heap s r = Some c \<longrightarrow> Cluster_QualifiedName c = k))"

text \<open>What is asked of the API server: a listing of a namespace has the jobs of that namespace only.\<close>

definition lists_within :: "'w Env \<Rightarrow> bool" where
  "lists_within env \<longleftrightarrow> (\<forall>n label w jobs w'. api_cron_jobs env (ListCronJobs n label) w = (Inr jobs, w') \<longrightarrow>
     (\<forall>j \<in> set jobs. om_Namespace (cj_Meta j) = n))"

lemma lists_withinD:
  "lists_within env \<Longrightarrow> api_cron_jobs env (ListCronJobs n label) w = (Inr jobs, w') \<Longrightarrow> j \<in> set jobs \<Longrightarrow>
    om_Namespace (cj_Meta j) = n"
  by (fastforce simp: lists_within_def)

interpretation own: operation_effects "\<lambda>env. poll_ok env \<and> lists_within env" "\<lambda>d. QualifiedName d = k" "about k" for k
proof unfold_locales
  fix e assume "reading e"
  then show "about k e" by (cases e rule: reading.cases) simp_all
next
  fix env :: "'w Env" and d label w jobs w' j and j' :: CronJob
  assume "poll_ok env \<and> lists_within env" "QualifiedName d = k"
    "api_cron_jobs env (ListCronJobs (Namespace d) label) w = (Inr jobs, w')" "j \<in> set jobs" "cj_Meta j' = cj_Meta j"
  then show "about k (Request (DeleteCronJobReq (om_Namespace (cj_Meta j)) (om_Name (cj_Meta j)))) \<and>
      about k (Request (UpdateCronJobReq (om_Namespace (cj_Meta j')) j'))"
    using lists_withinD [of env "Namespace d" label w jobs w' j] by (auto simp: QualifiedName_def)
qed (auto simp: same_kind_def QualifiedName_def Cluster_Namespace_def Cluster_Name_def CreateService_def objectMetadata_def
    operator_selector_def node_labels_def size_labels_def createStatefulSetForRack_def RackName_def Let_def split: sum.splits)

lemma own_inv_emit:
  assumes "own_inv k R K s0 s" and "list_all (about k) es"
  shows "own_inv k R K s0 (s\<lparr>world := w, trace := trace s @ es\<rparr>)"
  using assms by (auto simp: own_inv_def isolated_def)

lemma foreign_iff: "n \<noteq> k \<Longrightarrow> fmlookup (clusters s) n = Some r \<Longrightarrow> r \<in> foreign k s"
  by (auto simp: foreign_def)

lemma own_inv_cluster:
  assumes "own_inv k R K s0 s" and "r \<notin> foreign k s0"
    and "\<And>c'. c = Some c' \<Longrightarrow> Cluster_QualifiedName c' = k \<or> \<not> (r \<in> K \<or> fmlookup (clusters s) k = Some r)"
  shows "own_inv k R K s0 (s\<lparr>cluster_heap := (cluster_heap s)(r := c)\<rparr>)"
  using assms by (auto simp: own_inv_def isolated_def dest: foreign_iff)

lemma own_inv_next: "own_inv k R K s0 s \<Longrightarrow> own_inv k R K s0 (s\<lparr>next_cluster := Suc (next_cluster s)\<rparr>)"
  by (auto simp: own_inv_def isolated_def)

lemma own_inv_register:
  assumes "own_inv k R K s0 s" and "r \<notin> foreign k s0" and "\<And>c. cluster_heap s r = Some c \<Longrightarrow> Cluster_QualifiedName c = k"
  shows "own_inv k R K s0 (s\<lparr>clusters := fmupd k r (clusters s)\<rparr>)"
  using assms by (auto simp: own_inv_def isolated_def)

interpretation own_memory: operation_memory "\<lambda>env. poll_ok env \<and> lists_within env" "\<lambda>d. QualifiedName d = k" "about k"
  "own_inv k R K s0" R "- foreign k s0" K for k R K s0
proof unfold_locales
  fix s r b assume "own_inv k R K s0 s" "r \<in> - foreign k s0"
  then show "own_inv k R K s0 (s\<lparr>cluster_heap :=
      (cluster_heap s)(r := map_option (\<lambda>c. c\<lparr>Online := b\<rparr>) (cluster_heap s r))\<rparr>)"
    by (intro own_inv_cluster) (auto simp: own_inv_def Cluster_QualifiedName_def)
next
  fix s and r and c :: Cluster assume "own_inv k R K s0 s" "r \<in> K" "QualifiedName (cdef c) = k"
  then show "own_inv k R K s0 (s\<lparr>cluster_heap := (cluster_heap s)(r \<mapsto> c)\<rparr>)"
    by (intro own_inv_cluster) (auto simp: own_inv_def Cluster_QualifiedName_def)
next
  fix s and c :: Cluster assume s: "own_inv k R K s0 s" and c: "QualifiedName (cdef c) = k"
  then have new: "next_cluster s \<notin> foreign k s0" by (auto simp: own_inv_def)
  have heap: "own_inv k R K s0 (s\<lparr>cluster_heap := (cluster_heap s)(next_cluster s \<mapsto> c)\<rparr>)"
    using c by (intro own_inv_cluster [OF s new]) (simp add: Cluster_QualifiedName_def)
  have "own_inv k R K s0 (s\<lparr>cluster_heap := (cluster_heap s)(next_cluster s \<mapsto> c), next_cluster := Suc (next_cluster s),
      clusters := fmupd (Cluster_QualifiedName c) (next_cluster s) (clusters s)\<rparr>)"
    using own_inv_register [OF own_inv_next [OF heap] new] c by (simp add: Cluster_QualifiedName_def)
  with new show "next_cluster s \<in> - foreign k s0 \<and> own_inv k R K s0 (s\<lparr>cluster_heap := (cluster_heap s)(next_cluster s \<mapsto> c),
      next_cluster := Suc (next_cluster s), clusters := fmupd (Cluster_QualifiedName c) (next_cluster s) (clusters s)\<rparr>)"
    by simp
qed (auto simp: own_inv_def isolated_def Cluster_QualifiedName_def intro: own_inv_emit [unfolded own_inv_def isolated_def])

section \<open>Handlers stay in their cluster\<close>

lemma event_about_clusters:
  assumes "memory_ok env s" and "event_about s k data" and "r \<in> event_clusters s data"
  shows "r \<notin> foreign k s \<and> (\<forall>c. cluster_heap s r = Some c \<longrightarrow> Cluster_QualifiedName c = k)"
proof -
  have registered: "\<exists>c. cluster_heap s r = Some c \<and> Cluster_QualifiedName c = n" if "fmlookup (clusters s) n = Some r" for n r
    using assms(1) that unfolding memory_ok_def by blast
  have "\<forall>c. cluster_heap s r = Some c \<longrightarrow> Cluster_QualifiedName c = k" and "cluster_heap s r \<noteq> None"
    using assms(2,3) by (cases data; auto dest!: registered)+
  with registered show ?thesis by (fastforce simp: foreign_def)
qed

lemma own_inv_start:
  assumes "memory_ok env s" and "event_about s k data"
  shows "own_inv k (event_refs data) (event_clusters s data) s s"
proof -
  have refs: "QualifiedName d = k" if "r \<in> event_refs data" "cassandra_heap s r = Some d" for r d
    using assms(2) that by (cases data) auto
  have registered: "\<exists>c. cluster_heap s r = Some c \<and> Cluster_QualifiedName c = n" if "fmlookup (clusters s) n = Some r" for n r
    using assms(1) that unfolding memory_ok_def by blast
  have "r < next_cluster s" if "fmlookup (clusters s) n = Some r" for n r
    using registered [OF that] assms(1) unfolding memory_ok_def by blast
  moreover have "r \<notin> foreign k s \<and> (\<forall>c. cluster_heap s r = Some c \<longrightarrow> Cluster_QualifiedName c = k)"
    if "fmlookup (clusters s) k = Some r" for r
    using registered [OF that] registered by (fastforce simp: foreign_def)
  ultimately show ?thesis
    unfolding own_inv_def using refs event_about_clusters [OF assms] by (auto simp: isolated_def foreign_def)
qed


lemma server_lists_within: "lists_within server_env"
  by (auto simp: lists_within_def server_env_def sample_env_def)

lemma first_worker: "nth_opt (workers first_dispatcher) 0 = Some (Key first_event, Handling first_event)"
  by (simp add: first_dispatcher_def nth_opt_def)


section \<open>The map is not guarded\<close>

text \<open>
  A handler that writes the map of clusters. Go's maps are not safe for this: two goroutines
  that write one at the same time end the process with \<^verbatim>\<open>fatal error: concurrent map writes\<close>.
\<close>

definition writes_map :: "'w Env \<Rightarrow> Event \<Rightarrow> 'w sys \<Rightarrow> bool" where
  "writes_map env e s \<longleftrightarrow> (\<exists>t. Receive env e s = Done () t \<and> clusters t \<noteq> clusters s)"

definition add_event :: "ref \<Rightarrow> Cassandra \<Rightarrow> Event" where
  "add_event r d = \<lparr>Kind = AddCluster, Key = QualifiedName d, Event_Data = CassandraData r\<rparr>"

lemma added_handler:
  assumes "cassandra_heap s r = Some d"
  shows "cluster_handler config (Added (CassandraObject r)) s =
    Done [add_event r d] (s\<lparr>cassandra_heap := (cassandra_heap s)(r \<mapsto> adjusted config d)\<rparr>)"
proof (cases "UseEmptyDir (Spec d) \<and> \<not> AllowEmptyDir config")
  case True
  then show ?thesis
    using assms by (simp add: clusterAdded_def bind_def seq_def assert_Cassandra_def pass_def adjustUseEmptyDir_def
        read_cassandra_def write_cassandra_def modify_def gets_def deref_def cluster_event_def add_event_def adjusted_def
        QualifiedName_def)
next
  case False
  then have "adjusted config d = d" by (cases d, cases "Spec d") (auto simp: adjusted_def)
  moreover have "(cassandra_heap s)(r \<mapsto> d) = cassandra_heap s" using assms by auto
  ultimately show ?thesis
    using False assms by (auto simp: clusterAdded_def bind_def seq_def assert_Cassandra_def pass_def adjustUseEmptyDir_def
        read_cassandra_def gets_def deref_def cluster_event_def add_event_def QualifiedName_def)
qed

lemma add_event_writes:
  assumes "env_ok env" and "settles env" and "memory_ok env s" and "cassandra_heap s r = Some d"
    and "valid_definition (cron_ok env) d" and "Spec_Snapshot (Spec d) = None" and "fmlookup (clusters s) (QualifiedName d) = None"
  shows "writes_map env (add_event r d) s"
proof -
  have receive: "Receive env (add_event r d) s = AddCluster_Execute env r s"
    using assms(4,6)
    by (auto simp: Receive_def add_event_def operationsToExecute_def as_Cassandra_def operationsForAddCluster_def
        read_cassandra_def bind_def gets_def deref_def pass_def String_defs cassandra_text_def seq_def split: outcome.split)
  have "goes (AddCluster_Execute env r s) (\<lambda>_ t. cluster_added d s t)"
    using goes_AddCluster_effects [OF assms(1,3,4)] assms(5) by simp
  then obtain t where t: "AddCluster_Execute env r s = Done () t" "cluster_added d s t"
    using ends_AddCluster [OF assms(2), of r] by (auto simp: ends_def goes_def split: outcome.splits)
  from t(2) have "fmlookup (clusters t) (QualifiedName d) \<noteq> None" by (auto simp: cluster_added_def)
  with assms(7) have "clusters t \<noteq> clusters s" by auto
  with t(1) receive show ?thesis by (auto simp: writes_map_def)
qed

text \<open>Two definitions have been delivered, and the handlers of both events are running.\<close>

definition two_heap :: "Cassandra \<Rightarrow> Cassandra \<Rightarrow> ref \<Rightarrow> Cassandra option" where
  "two_heap d1 d2 = [0 \<mapsto> d1, 1 \<mapsto> d2]"

lemma two_heap_simps [simp]:
  "two_heap x y 0 = Some x" "two_heap x y (Suc 0) = Some y"
  "(two_heap x y)(0 \<mapsto> z) = two_heap z y" "(two_heap x y)(Suc 0 \<mapsto> z) = two_heap x z"
  by (auto simp: two_heap_def)

definition two_workers :: "Event \<Rightarrow> Event \<Rightarrow> dispatcher" where
  "two_workers e1 e2 = \<lparr>eventProcessingChannels = fmupd (Key e2) [] (fmupd (Key e1) [] fmempty),
     workers = [(Key e1, Handling e1), (Key e2, Handling e2)], calls = [Returned, Returned], dispatchLock = None,
     stopCh_closed = False, stopped = False, sent = [e1, e2], handler_log = [Started e1, Started e2]\<rparr>"

lemma two_workers_run:
  assumes "Key e1 \<noteq> Key e2"
  shows "acts [Lock 0, Find 0, Send 0, Take 0, Lock 1, Find 1, Send 1, Take 1]
    (new_dispatcher\<lparr>calls := [Waiting_for_lock e1, Waiting_for_lock e2]\<rparr>) = Some (two_workers e1 e2)"
  using assms
  by (simp add: Dispatch_lock_def Dispatch_find_def Dispatch_send_def start_take_def find_channel_def
      new_dispatcher_def two_workers_def nth_opt_def clusterEventBufferSize_def)

lemma system_added:
  assumes "system_run env config s d" and "cassandra_heap s r = Some x" and "explicit x" and "\<not> stopped d"
  shows "system_run env config (s\<lparr>cassandra_heap := (cassandra_heap s)(r \<mapsto> adjusted config x)\<rparr>)
    (d\<lparr>calls := calls d @ [Waiting_for_lock (add_event r x)]\<rparr>)"
  by (rule system_notify [OF assms(1) _ _ added_handler [OF assms(2)]])
    (use assms(2-4) in \<open>simp_all add: explicit_objects_def Dispatch_call_def\<close>)

lemma two_run:
  assumes "QualifiedName d1 \<noteq> QualifiedName d2" and "explicit d1" and "explicit d2"
  shows "system_run env config ((started w)\<lparr>cassandra_heap := two_heap (adjusted config d1) (adjusted config d2)\<rparr>)
    (two_workers (add_event 0 d1) (add_event 1 d2))"
proof -
  have "system_run env config ((started w)\<lparr>cassandra_heap := two_heap d1 d2\<rparr>) new_dispatcher"
    using system_deliver [OF system_deliver [OF system_start [of env config w], of 0 d1], of 1 d2]
    by (simp add: started_def two_heap_def)
  from system_added [OF this, of 0 d1] assms(2)
  have "system_run env config ((started w)\<lparr>cassandra_heap := two_heap (adjusted config d1) d2\<rparr>)
      (new_dispatcher\<lparr>calls := [Waiting_for_lock (add_event 0 d1)]\<rparr>)"
    by (simp add: new_dispatcher_def)
  from system_added [OF this, of 1 d2] assms(3)
  have "system_run env config ((started w)\<lparr>cassandra_heap := two_heap (adjusted config d1) (adjusted config d2)\<rparr>)
      (new_dispatcher\<lparr>calls := [Waiting_for_lock (add_event 0 d1), Waiting_for_lock (add_event 1 d2)]\<rparr>)"
    by (simp add: new_dispatcher_def)
  then show ?thesis
    by (rule system_acts [OF _ _ two_workers_run]) (simp_all add: add_event_def assms(1))
qed


definition plain_definition :: "string \<Rightarrow> Cassandra" where
  "plain_definition n = sample_definition\<lparr>Name := n, Spec := (Spec sample_definition)\<lparr>Spec_Snapshot := None\<rparr>\<rparr>"

lemma plain_definition_valid: "valid_definition (\<lambda>_. True) (adjusted config (plain_definition n))"
  using sample_definition_valid
  by (simp add: valid_definition_def adjusted_def plain_definition_def sample_definition_def rack_ok_def)


end
