(* ===== verification/ApiClient.thy ===== *)
theory ApiClient
  imports Cluster
begin

text \<open>
  The client for the custom resource: the names under which it is registered
  (\<^verbatim>\<open>cassandra-operator/pkg/apis/cassandra/register.go\<close> and \<^verbatim>\<open>v1alpha1/register.go\<close>), the requests of the
  typed client and of its fake (\<^verbatim>\<open>pkg/client/clientset/versioned/\<close>), and the construction of the
  clients. Requests are sent by the REST client of the Kubernetes library, which is a parameter.
\<close>

section \<open>Registration\<close>

definition GroupName :: string where "GroupName = ''core.sky.uk''"
definition Version :: string where "Version = ''v1alpha1''"
definition Plural :: string where "Plural = ''cassandras''"
definition Singular :: string where "Singular = ''cassandra''"
definition Resource_Name :: string where "Resource_Name = Plural @ ''.core.sky.uk''"
definition Resource_Kind :: string where "Resource_Kind = ''Cassandra''"

record GroupVersion =
  gv_Group :: string
  gv_Version :: string

record GroupVersionResource =
  gvr_Group :: string
  gvr_Version :: string
  gvr_Resource :: string

record GroupResource =
  gr_Group :: string
  gr_Resource :: string

record GroupKind =
  gk_Group :: string
  gk_Kind :: string

definition SchemeGroupVersion :: GroupVersion where
  "SchemeGroupVersion = \<lparr>gv_Group = GroupName, gv_Version = ''v1alpha1''\<rparr>"

definition WithResource :: "GroupVersion \<Rightarrow> string \<Rightarrow> GroupVersionResource" where
  "WithResource gv r = \<lparr>gvr_Group = gv_Group gv, gvr_Version = gv_Version gv, gvr_Resource = r\<rparr>"

definition Group_Resource :: "GroupVersionResource \<Rightarrow> GroupResource" where
  "Group_Resource r = \<lparr>gr_Group = gvr_Group r, gr_Resource = gvr_Resource r\<rparr>"

definition Kind_of :: "string \<Rightarrow> GroupKind" where
  "Kind_of kind = \<lparr>gk_Group = gv_Group SchemeGroupVersion, gk_Kind = kind\<rparr>"

definition Resource_of :: "string \<Rightarrow> GroupResource" where
  "Resource_of resource = Group_Resource (WithResource SchemeGroupVersion resource)"

text \<open>A scheme is what has been registered with it.\<close>

datatype registration = KnownType GroupVersion string | MetaTypes GroupVersion

definition addKnownTypes :: "registration list \<Rightarrow> registration list" where
  "addKnownTypes scheme = scheme @
     [KnownType SchemeGroupVersion ''Cassandra'', KnownType SchemeGroupVersion ''CassandraList'',
      MetaTypes SchemeGroupVersion]"

text \<open>The scheme of the clients also knows the options of version \<open>v1\<close>.\<close>

definition client_scheme :: "registration list" where
  "client_scheme = addKnownTypes [MetaTypes \<lparr>gv_Group = [], gv_Version = ''v1''\<rparr>]"

section \<open>Requests\<close>

record GetOptions =
  go_ResourceVersion :: string

record ListOptions =
  LabelSelector :: string
  FieldSelector :: string
  lo_Watch :: bool
  lo_ResourceVersion :: string

record DeleteOptions =
  GracePeriodSeconds :: "int64 option"
  PropagationPolicy :: "string option"

datatype verb = VerbGet | VerbPost | VerbPut | VerbDelete | VerbPatch string

datatype request_params = NoParams | GetParams GetOptions | ListParams ListOptions

datatype request_body = NoBody | CassandraBody Cassandra | OptionsBody DeleteOptions | PatchBody string

record rest_request =
  rq_Verb :: verb
  rq_Namespace :: string
  rq_Resource :: string
  rq_Name :: "string option"
  rq_SubResource :: "string list"
  rq_Params :: request_params
  rq_Body :: request_body

text \<open>
  What the REST client does with a request: \<open>Do().Into\<close> an object or a list, which leaves something
  in the result even when it fails, \<open>Do().Error()\<close>, and \<open>Watch()\<close>.
\<close>

record ('w, 'watch) rest_client =
  do_object :: "rest_request \<Rightarrow> 'w \<Rightarrow> (Cassandra \<times> string option) \<times> 'w"
  do_list :: "rest_request \<Rightarrow> 'w \<Rightarrow> (Cassandra list \<times> string option) \<times> 'w"
  do_error :: "rest_request \<Rightarrow> 'w \<Rightarrow> string option \<times> 'w"
  do_watch :: "rest_request \<Rightarrow> 'w \<Rightarrow> (string + 'watch) \<times> 'w"

section \<open>The typed client\<close>

text \<open>\<open>newCassandras\<close>: the client of a namespace.\<close>

record ('w, 'watch) cassandras =
  cs_client :: "('w, 'watch) rest_client"
  cs_ns :: string

definition newCassandras :: "('w, 'watch) rest_client \<Rightarrow> string \<Rightarrow> ('w, 'watch) cassandras" where
  "newCassandras c namespace = \<lparr>cs_client = c, cs_ns = namespace\<rparr>"

definition request_of :: "('w, 'watch) cassandras \<Rightarrow> verb \<Rightarrow> rest_request" where
  "request_of c v = \<lparr>rq_Verb = v, rq_Namespace = cs_ns c, rq_Resource = ''cassandras'', rq_Name = None,
     rq_SubResource = [], rq_Params = NoParams, rq_Body = NoBody\<rparr>"

definition cassandras_Get ::
    "('w, 'watch) cassandras \<Rightarrow> string \<Rightarrow> GetOptions \<Rightarrow> 'w \<Rightarrow> (Cassandra \<times> string option) \<times> 'w" where
  "cassandras_Get c name options =
     do_object (cs_client c) ((request_of c VerbGet)\<lparr>rq_Name := Some name, rq_Params := GetParams options\<rparr>)"

definition cassandras_List ::
    "('w, 'watch) cassandras \<Rightarrow> ListOptions \<Rightarrow> 'w \<Rightarrow> (Cassandra list \<times> string option) \<times> 'w" where
  "cassandras_List c opts = do_list (cs_client c) ((request_of c VerbGet)\<lparr>rq_Params := ListParams opts\<rparr>)"

definition cassandras_Watch ::
    "('w, 'watch) cassandras \<Rightarrow> ListOptions \<Rightarrow> 'w \<Rightarrow> (string + 'watch) \<times> 'w" where
  "cassandras_Watch c opts =
     do_watch (cs_client c) ((request_of c VerbGet)\<lparr>rq_Params := ListParams (opts\<lparr>lo_Watch := True\<rparr>)\<rparr>)"

definition cassandras_Create ::
    "('w, 'watch) cassandras \<Rightarrow> Cassandra \<Rightarrow> 'w \<Rightarrow> (Cassandra \<times> string option) \<times> 'w" where
  "cassandras_Create c cassandra = do_object (cs_client c) ((request_of c VerbPost)\<lparr>rq_Body := CassandraBody cassandra\<rparr>)"

definition cassandras_Update ::
    "('w, 'watch) cassandras \<Rightarrow> Cassandra \<Rightarrow> 'w \<Rightarrow> (Cassandra \<times> string option) \<times> 'w" where
  "cassandras_Update c cassandra =
     do_object (cs_client c) ((request_of c VerbPut)\<lparr>rq_Name := Some (Name cassandra), rq_Body := CassandraBody cassandra\<rparr>)"

definition cassandras_UpdateStatus ::
    "('w, 'watch) cassandras \<Rightarrow> Cassandra \<Rightarrow> 'w \<Rightarrow> (Cassandra \<times> string option) \<times> 'w" where
  "cassandras_UpdateStatus c cassandra =
     do_object (cs_client c) ((request_of c VerbPut)\<lparr>rq_Name := Some (Name cassandra), rq_SubResource := [''status''],
       rq_Body := CassandraBody cassandra\<rparr>)"

definition cassandras_Delete ::
    "('w, 'watch) cassandras \<Rightarrow> string \<Rightarrow> DeleteOptions \<Rightarrow> 'w \<Rightarrow> string option \<times> 'w" where
  "cassandras_Delete c name options =
     do_error (cs_client c) ((request_of c VerbDelete)\<lparr>rq_Name := Some name, rq_Body := OptionsBody options\<rparr>)"

definition cassandras_DeleteCollection ::
    "('w, 'watch) cassandras \<Rightarrow> DeleteOptions \<Rightarrow> ListOptions \<Rightarrow> 'w \<Rightarrow> string option \<times> 'w" where
  "cassandras_DeleteCollection c options listOptions =
     do_error (cs_client c) ((request_of c VerbDelete)\<lparr>rq_Params := ListParams listOptions, rq_Body := OptionsBody options\<rparr>)"

definition cassandras_Patch ::
    "('w, 'watch) cassandras \<Rightarrow> string \<Rightarrow> string \<Rightarrow> string \<Rightarrow> string list \<Rightarrow> 'w \<Rightarrow>
     (Cassandra \<times> string option) \<times> 'w" where
  "cassandras_Patch c name pt data subresources =
     do_object (cs_client c) ((request_of c (VerbPatch pt))\<lparr>rq_SubResource := subresources, rq_Name := Some name,
       rq_Body := PatchBody data\<rparr>)"

text \<open>The one use the operator's accessor has for it.\<close>

definition GetCassandraForCluster ::
    "('w, 'watch) rest_client \<Rightarrow> Cluster \<Rightarrow> 'w \<Rightarrow> (Cassandra \<times> string option) \<times> 'w" where
  "GetCassandraForCluster rest c =
     cassandras_Get (newCassandras rest (Cluster_Namespace c)) (Cluster_Name c) \<lparr>go_ResourceVersion = []\<rparr>"

section \<open>The fake client\<close>

text \<open>An action goes through the reactors of the testing library, which give an object, or nil, and an error.\<close>

datatype fake_action =
    GetAction GroupVersionResource string string
  | ListAction GroupVersionResource string string ListOptions
  | WatchAction GroupVersionResource string ListOptions
  | CreateAction GroupVersionResource string Cassandra
  | UpdateAction GroupVersionResource string Cassandra
  | UpdateSubresourceAction GroupVersionResource string string Cassandra
  | DeleteAction GroupVersionResource string string
  | DeleteCollectionAction GroupVersionResource string ListOptions
  | PatchSubresourceAction GroupVersionResource string string string "string list"

record ('w, 'watch) Fake =
  Invokes :: "fake_action \<Rightarrow> 'w \<Rightarrow> (Cassandra option \<times> string option) \<times> 'w"
  Invokes_list :: "fake_action \<Rightarrow> 'w \<Rightarrow> (Cassandra list option \<times> string option) \<times> 'w"
  InvokesWatch :: "fake_action \<Rightarrow> 'w \<Rightarrow> (string + 'watch) \<times> 'w"
  label_matches :: "string \<Rightarrow> Cassandra \<Rightarrow> bool"

record ('w, 'watch) FakeCassandras =
  fc_fake :: "('w, 'watch) Fake"
  fc_ns :: string

definition FakeCoreV1alpha1_Cassandras :: "('w, 'watch) Fake \<Rightarrow> string \<Rightarrow> ('w, 'watch) FakeCassandras" where
  "FakeCoreV1alpha1_Cassandras f namespace = \<lparr>fc_fake = f, fc_ns = namespace\<rparr>"

definition cassandrasResource :: GroupVersionResource where
  "cassandrasResource = \<lparr>gvr_Group = ''core.sky.uk'', gvr_Version = ''v1alpha1'', gvr_Resource = ''cassandras''\<rparr>"

definition cassandrasKind :: string where
  "cassandrasKind = ''Cassandra''"

definition FakeCassandras_Get ::
    "('w, 'watch) FakeCassandras \<Rightarrow> string \<Rightarrow> GetOptions \<Rightarrow> 'w \<Rightarrow> (Cassandra option \<times> string option) \<times> 'w" where
  "FakeCassandras_Get c name options = Invokes (fc_fake c) (GetAction cassandrasResource (fc_ns c) name)"

text \<open>Without a selector everything matches.\<close>

definition FakeCassandras_List ::
    "('w, 'watch) FakeCassandras \<Rightarrow> (ListOptions \<Rightarrow> string option) \<Rightarrow> ListOptions \<Rightarrow> 'w \<Rightarrow>
     (Cassandra list option \<times> string option) \<times> 'w" where
  "FakeCassandras_List c ExtractFromListOptions opts w =
     (let ((obj, err), w') = Invokes_list (fc_fake c) (ListAction cassandrasResource cassandrasKind (fc_ns c) opts) w
      in case obj of
           None \<Rightarrow> ((None, err), w')
         | Some items \<Rightarrow>
             ((Some (filter (\<lambda>item. case ExtractFromListOptions opts of
                  None \<Rightarrow> True | Some label \<Rightarrow> label_matches (fc_fake c) label item) items), err), w'))"

definition FakeCassandras_Watch ::
    "('w, 'watch) FakeCassandras \<Rightarrow> ListOptions \<Rightarrow> 'w \<Rightarrow> (string + 'watch) \<times> 'w" where
  "FakeCassandras_Watch c opts = InvokesWatch (fc_fake c) (WatchAction cassandrasResource (fc_ns c) opts)"

definition FakeCassandras_Create ::
    "('w, 'watch) FakeCassandras \<Rightarrow> Cassandra \<Rightarrow> 'w \<Rightarrow> (Cassandra option \<times> string option) \<times> 'w" where
  "FakeCassandras_Create c cassandra = Invokes (fc_fake c) (CreateAction cassandrasResource (fc_ns c) cassandra)"

definition FakeCassandras_Update ::
    "('w, 'watch) FakeCassandras \<Rightarrow> Cassandra \<Rightarrow> 'w \<Rightarrow> (Cassandra option \<times> string option) \<times> 'w" where
  "FakeCassandras_Update c cassandra = Invokes (fc_fake c) (UpdateAction cassandrasResource (fc_ns c) cassandra)"

definition FakeCassandras_UpdateStatus ::
    "('w, 'watch) FakeCassandras \<Rightarrow> Cassandra \<Rightarrow> 'w \<Rightarrow> (Cassandra option \<times> string option) \<times> 'w" where
  "FakeCassandras_UpdateStatus c cassandra =
     Invokes (fc_fake c) (UpdateSubresourceAction cassandrasResource ''status'' (fc_ns c) cassandra)"

definition FakeCassandras_Delete ::
    "('w, 'watch) FakeCassandras \<Rightarrow> string \<Rightarrow> DeleteOptions \<Rightarrow> 'w \<Rightarrow> string option \<times> 'w" where
  "FakeCassandras_Delete c name options w =
     (let ((obj, err), w') = Invokes (fc_fake c) (DeleteAction cassandrasResource (fc_ns c) name) w in (err, w'))"

definition FakeCassandras_DeleteCollection ::
    "('w, 'watch) FakeCassandras \<Rightarrow> DeleteOptions \<Rightarrow> ListOptions \<Rightarrow> 'w \<Rightarrow> string option \<times> 'w" where
  "FakeCassandras_DeleteCollection c options listOptions w =
     (let ((obj, err), w') = Invokes_list (fc_fake c) (DeleteCollectionAction cassandrasResource (fc_ns c) listOptions) w
      in (err, w'))"

definition FakeCassandras_Patch ::
    "('w, 'watch) FakeCassandras \<Rightarrow> string \<Rightarrow> string \<Rightarrow> string \<Rightarrow> string list \<Rightarrow> 'w \<Rightarrow>
     (Cassandra option \<times> string option) \<times> 'w" where
  "FakeCassandras_Patch c name pt data subresources =
     Invokes (fc_fake c) (PatchSubresourceAction cassandrasResource (fc_ns c) name data subresources)"

section \<open>Building the clients\<close>

text \<open>
  The configuration of a client. A rate limiter is an object: it is known by its identity.
\<close>

record rest_config =
  rc_GroupVersion :: "GroupVersion option"
  rc_APIPath :: string
  rc_UserAgent :: string
  rc_QPS :: rat
  rc_Burst :: int
  rc_RateLimiter :: "nat option"

text \<open>What the Kubernetes library makes of a configuration, and its default name for a client.\<close>

record ('c, 'd) client_library =
  RESTClientFor :: "rest_config \<Rightarrow> string + 'c"
  NewDiscoveryClientForConfig :: "rest_config \<Rightarrow> string + 'd"
  DefaultKubernetesUserAgent :: string

definition setConfigDefaults :: "('c, 'd) client_library \<Rightarrow> rest_config \<Rightarrow> rest_config" where
  "setConfigDefaults lib config =
     config\<lparr>rc_GroupVersion := Some SchemeGroupVersion, rc_APIPath := ''/apis'',
       rc_UserAgent := (if rc_UserAgent config = [] then DefaultKubernetesUserAgent lib else rc_UserAgent config)\<rparr>"

definition CoreV1alpha1_NewForConfig :: "('c, 'd) client_library \<Rightarrow> rest_config \<Rightarrow> string + 'c" where
  "CoreV1alpha1_NewForConfig lib c = RESTClientFor lib (setConfigDefaults lib c)"

text \<open>The functions ending in \<open>OrDie\<close> panic with the error.\<close>

datatype 'a died_or = Died string | Alive 'a

fun or_die :: "string + 'a \<Rightarrow> 'a died_or" where
  "or_die (Inl err) = Died err"
| "or_die (Inr a) = Alive a"

definition CoreV1alpha1_NewForConfigOrDie :: "('c, 'd) client_library \<Rightarrow> rest_config \<Rightarrow> 'c died_or" where
  "CoreV1alpha1_NewForConfigOrDie lib c = or_die (CoreV1alpha1_NewForConfig lib c)"

text \<open>The clientset: the client for the resource and the one for discovery.\<close>

record ('c, 'd) Clientset =
  coreV1alpha1 :: 'c
  DiscoveryClient :: 'd

definition shallow_copy :: "nat \<Rightarrow> rest_config \<Rightarrow> rest_config" where
  "shallow_copy fresh c =
     (if rc_RateLimiter c = None \<and> 0 < rc_QPS c then c\<lparr>rc_RateLimiter := Some fresh\<rparr> else c)"

definition Clientset_NewForConfig ::
    "('c, 'd) client_library \<Rightarrow> nat \<Rightarrow> rest_config \<Rightarrow> string + ('c, 'd) Clientset" where
  "Clientset_NewForConfig lib fresh c =
     (case CoreV1alpha1_NewForConfig lib (shallow_copy fresh c) of
        Inl err \<Rightarrow> Inl err
      | Inr core \<Rightarrow>
          (case NewDiscoveryClientForConfig lib (shallow_copy fresh c) of
             Inl err \<Rightarrow> Inl err
           | Inr discovery \<Rightarrow> Inr \<lparr>coreV1alpha1 = core, DiscoveryClient = discovery\<rparr>))"

definition Clientset_NewForConfigOrDie ::
    "('c, 'd) client_library \<Rightarrow> rest_config \<Rightarrow> ('c, 'd) Clientset died_or" where
  "Clientset_NewForConfigOrDie lib c =
     (case CoreV1alpha1_NewForConfigOrDie lib c of
        Died err \<Rightarrow> Died err
      | Alive core \<Rightarrow>
          (case or_die (NewDiscoveryClientForConfig lib c) of
             Died err \<Rightarrow> Died err
           | Alive discovery \<Rightarrow> Alive \<lparr>coreV1alpha1 = core, DiscoveryClient = discovery\<rparr>))"

text \<open>
  With a rate set, \<open>NewForConfig\<close> has both clients share one limiter, while the variant that the
  operator calls leaves each to make its own.
\<close>

lemma NewForConfig_shares_limiter:
  assumes "0 < rc_QPS c"
  shows "\<exists>l. rc_RateLimiter (setConfigDefaults lib (shallow_copy fresh c)) = Some l \<and>
    rc_RateLimiter (shallow_copy fresh c) = Some l"
  using assms by (cases "rc_RateLimiter c") (auto simp: shallow_copy_def setConfigDefaults_def)

lemma OrDie_dies_iff:
  "(\<exists>err. Clientset_NewForConfigOrDie lib c = Died err) \<longleftrightarrow>
   (\<exists>err. CoreV1alpha1_NewForConfig lib c = Inl err) \<or> (\<exists>err. NewDiscoveryClientForConfig lib c = Inl err)"
  by (auto simp: Clientset_NewForConfigOrDie_def CoreV1alpha1_NewForConfigOrDie_def split: died_or.splits)
    (metis died_or.distinct(1) or_die.elims or_die.simps)+

section \<open>The interface of both clients\<close>

text \<open>
  What \<open>CassandraInterface\<close> promises for one namespace: a map from names to definitions. The laws
  hold of operations that report no error, and hold when \<open>ok\<close>, which says that what the
  client sends its requests to does what is documented.
\<close>

locale cassandra_interface =
  fixes ok :: bool
    and defs :: "'w \<Rightarrow> string \<Rightarrow> Cassandra option"
    and get :: "string \<Rightarrow> 'w \<Rightarrow> (Cassandra option \<times> string option) \<times> 'w"
    and create :: "Cassandra \<Rightarrow> 'w \<Rightarrow> (Cassandra option \<times> string option) \<times> 'w"
    and update :: "Cassandra \<Rightarrow> 'w \<Rightarrow> (Cassandra option \<times> string option) \<times> 'w"
    and delete :: "string \<Rightarrow> 'w \<Rightarrow> string option \<times> 'w"
  assumes get_law: "ok \<Longrightarrow> name \<noteq> [] \<Longrightarrow> get name w = ((r, None), w') \<Longrightarrow> r = defs w name \<and> r \<noteq> None \<and> defs w' = defs w"
    and create_law: "ok \<Longrightarrow> Name x \<noteq> [] \<Longrightarrow> create x w = ((r, None), w') \<Longrightarrow>
      defs w (Name x) = None \<and> defs w' = (defs w)(Name x \<mapsto> x)"
    and update_law: "ok \<Longrightarrow> Name x \<noteq> [] \<Longrightarrow> update x w = ((r, None), w') \<Longrightarrow>
      defs w (Name x) \<noteq> None \<and> defs w' = (defs w)(Name x \<mapsto> x)"
    and delete_law: "ok \<Longrightarrow> name \<noteq> [] \<Longrightarrow> delete name w = (None, w') \<Longrightarrow>
      defs w name \<noteq> None \<and> defs w' = (defs w)(name := None)"
begin

lemma created_is_found:
  "ok \<Longrightarrow> Name x \<noteq> [] \<Longrightarrow> create x w = ((r, None), w') \<Longrightarrow> get (Name x) w' = ((q, None), w'') \<Longrightarrow> q = Some x"
  using create_law get_law by fastforce

lemma updated_is_found:
  "ok \<Longrightarrow> Name x \<noteq> [] \<Longrightarrow> update x w = ((r, None), w') \<Longrightarrow> get (Name x) w' = ((q, None), w'') \<Longrightarrow> q = Some x"
  using update_law get_law by fastforce

lemma deleted_is_gone:
  "ok \<Longrightarrow> name \<noteq> [] \<Longrightarrow> delete name w = (None, w') \<Longrightarrow> get name w' = ((q, err), w'') \<Longrightarrow> err \<noteq> None"
  using delete_law [of name w w'] get_law [of name w' q w''] by auto

lemma created_once:
  "ok \<Longrightarrow> Name x \<noteq> [] \<Longrightarrow> create x w = ((r, None), w') \<Longrightarrow> create x w' = ((q, err), w'') \<Longrightarrow> err \<noteq> None"
  using create_law [of x w r w'] create_law [of x w' q w''] by auto

end

text \<open>
  An API server that stores what it is sent, by namespace and name: what Kubernetes documents of a
  request for a custom resource that reports no error.
\<close>

definition serves ::
    "('w, 'watch) rest_client \<Rightarrow> ('w \<Rightarrow> string \<times> string \<Rightarrow> Cassandra option) \<Rightarrow> bool" where
  "serves rest defs \<longleftrightarrow> (\<forall>r w. rq_Resource r = ''cassandras'' \<longrightarrow> rq_SubResource r = [] \<longrightarrow>
     (\<forall>n x w'. rq_Verb r = VerbGet \<longrightarrow> rq_Name r = Some n \<longrightarrow> n \<noteq> [] \<longrightarrow> do_object rest r w = ((x, None), w') \<longrightarrow>
        defs w (rq_Namespace r, n) = Some x \<and> defs w' = defs w) \<and>
     (\<forall>c x w'. rq_Verb r = VerbPost \<longrightarrow> rq_Name r = None \<longrightarrow> rq_Body r = CassandraBody c \<longrightarrow> Name c \<noteq> [] \<longrightarrow>
        do_object rest r w = ((x, None), w') \<longrightarrow>
        defs w (rq_Namespace r, Name c) = None \<and> defs w' = (defs w)((rq_Namespace r, Name c) \<mapsto> c)) \<and>
     (\<forall>c x w'. rq_Verb r = VerbPut \<longrightarrow> rq_Name r = Some (Name c) \<longrightarrow> rq_Body r = CassandraBody c \<longrightarrow> Name c \<noteq> [] \<longrightarrow>
        do_object rest r w = ((x, None), w') \<longrightarrow>
        defs w (rq_Namespace r, Name c) \<noteq> None \<and> defs w' = (defs w)((rq_Namespace r, Name c) \<mapsto> c)) \<and>
     (\<forall>n w'. rq_Verb r = VerbDelete \<longrightarrow> rq_Name r = Some n \<longrightarrow> n \<noteq> [] \<longrightarrow> do_error rest r w = (None, w') \<longrightarrow>
        defs w (rq_Namespace r, n) \<noteq> None \<and> defs w' = (defs w)((rq_Namespace r, n) := None)))"

lemma servesD:
  assumes "serves rest defs" and "rq_Resource r = ''cassandras''" and "rq_SubResource r = []"
  shows "rq_Verb r = VerbGet \<Longrightarrow> rq_Name r = Some n \<Longrightarrow> n \<noteq> [] \<Longrightarrow> do_object rest r w = ((x, None), w') \<Longrightarrow>
      defs w (rq_Namespace r, n) = Some x \<and> defs w' = defs w"
    and "rq_Verb r = VerbPost \<Longrightarrow> rq_Name r = None \<Longrightarrow> rq_Body r = CassandraBody c \<Longrightarrow> Name c \<noteq> [] \<Longrightarrow>
      do_object rest r w = ((x, None), w') \<Longrightarrow>
      defs w (rq_Namespace r, Name c) = None \<and> defs w' = (defs w)((rq_Namespace r, Name c) \<mapsto> c)"
    and "rq_Verb r = VerbPut \<Longrightarrow> rq_Name r = Some (Name c) \<Longrightarrow> rq_Body r = CassandraBody c \<Longrightarrow> Name c \<noteq> [] \<Longrightarrow>
      do_object rest r w = ((x, None), w') \<Longrightarrow>
      defs w (rq_Namespace r, Name c) \<noteq> None \<and> defs w' = (defs w)((rq_Namespace r, Name c) \<mapsto> c)"
    and "rq_Verb r = VerbDelete \<Longrightarrow> rq_Name r = Some n \<Longrightarrow> n \<noteq> [] \<Longrightarrow> do_error rest r w = (None, w') \<Longrightarrow>
      defs w (rq_Namespace r, n) \<noteq> None \<and> defs w' = (defs w)((rq_Namespace r, n) := None)"
  using assms unfolding serves_def by blast+

text \<open>The result of the typed client is never nil.\<close>

definition never_nil :: "(Cassandra \<times> string option) \<times> 'w \<Rightarrow> (Cassandra option \<times> string option) \<times> 'w" where
  "never_nil r = (case r of ((x, err), w) \<Rightarrow> ((Some x, err), w))"

lemma never_nil_eq [simp]: "never_nil r = ((q, err), w) \<longleftrightarrow> (\<exists>x. q = Some x \<and> r = ((x, err), w))"
  by (auto simp: never_nil_def split: prod.splits)

interpretation typed: cassandra_interface "serves rest defs" "\<lambda>w n. defs w (namespace, n)"
  "\<lambda>n w. never_nil (cassandras_Get (newCassandras rest namespace) n opts w)"
  "\<lambda>x w. never_nil (cassandras_Create (newCassandras rest namespace) x w)"
  "\<lambda>x w. never_nil (cassandras_Update (newCassandras rest namespace) x w)"
  "\<lambda>n. cassandras_Delete (newCassandras rest namespace) n dopts"
  for rest :: "('w, 'watch) rest_client" and defs namespace opts dopts
proof
  fix name :: string and w w' :: 'w and r
  assume "serves rest defs" "name \<noteq> []" "never_nil (cassandras_Get (newCassandras rest namespace) name opts w) = ((r, None), w')"
  then show "r = defs w (namespace, name) \<and> r \<noteq> None \<and> (\<lambda>n. defs w' (namespace, n)) = (\<lambda>n. defs w (namespace, n))"
    using servesD(1) [of rest defs "(request_of (newCassandras rest namespace) VerbGet)\<lparr>rq_Name := Some name, rq_Params := GetParams opts\<rparr>"]
    by (auto simp: cassandras_Get_def newCassandras_def request_of_def)
next
  fix x and w w' :: 'w and r
  assume "serves rest defs" "Name x \<noteq> []" "never_nil (cassandras_Create (newCassandras rest namespace) x w) = ((r, None), w')"
  then show "defs w (namespace, Name x) = None \<and> (\<lambda>n. defs w' (namespace, n)) = (\<lambda>n. defs w (namespace, n))(Name x \<mapsto> x)"
    using servesD(2) [of rest defs "(request_of (newCassandras rest namespace) VerbPost)\<lparr>rq_Body := CassandraBody x\<rparr>"]
    by (auto simp: cassandras_Create_def newCassandras_def request_of_def fun_eq_iff)
next
  fix x and w w' :: 'w and r
  assume "serves rest defs" "Name x \<noteq> []" "never_nil (cassandras_Update (newCassandras rest namespace) x w) = ((r, None), w')"
  then show "defs w (namespace, Name x) \<noteq> None \<and> (\<lambda>n. defs w' (namespace, n)) = (\<lambda>n. defs w (namespace, n))(Name x \<mapsto> x)"
    using servesD(3) [of rest defs "(request_of (newCassandras rest namespace) VerbPut)\<lparr>rq_Name := Some (Name x), rq_Body := CassandraBody x\<rparr>"]
    by (auto simp: cassandras_Update_def newCassandras_def request_of_def fun_eq_iff)
next
  fix name :: string and w w' :: 'w
  assume "serves rest defs" "name \<noteq> []" "cassandras_Delete (newCassandras rest namespace) name dopts w = (None, w')"
  then show "defs w (namespace, name) \<noteq> None \<and> (\<lambda>n. defs w' (namespace, n)) = (\<lambda>n. defs w (namespace, n))(name := None)"
    using servesD(4) [of rest defs "(request_of (newCassandras rest namespace) VerbDelete)\<lparr>rq_Name := Some name, rq_Body := OptionsBody dopts\<rparr>"]
    by (auto simp: cassandras_Delete_def newCassandras_def request_of_def fun_eq_iff)
qed

text \<open>An object tracker of the testing library does the same for actions.\<close>

definition tracks ::
    "('w, 'watch) Fake \<Rightarrow> ('w \<Rightarrow> string \<times> string \<Rightarrow> Cassandra option) \<Rightarrow> bool" where
  "tracks f defs \<longleftrightarrow> (\<forall>m w r w'.
     (\<forall>n. Invokes f (GetAction cassandrasResource m n) w = ((r, None), w') \<longrightarrow>
        r = defs w (m, n) \<and> r \<noteq> None \<and> defs w' = defs w) \<and>
     (\<forall>c. Invokes f (CreateAction cassandrasResource m c) w = ((r, None), w') \<longrightarrow>
        defs w (m, Name c) = None \<and> defs w' = (defs w)((m, Name c) \<mapsto> c)) \<and>
     (\<forall>c. Invokes f (UpdateAction cassandrasResource m c) w = ((r, None), w') \<longrightarrow>
        defs w (m, Name c) \<noteq> None \<and> defs w' = (defs w)((m, Name c) \<mapsto> c)) \<and>
     (\<forall>n. Invokes f (DeleteAction cassandrasResource m n) w = ((r, None), w') \<longrightarrow>
        defs w (m, n) \<noteq> None \<and> defs w' = (defs w)((m, n) := None)))"

interpretation faked: cassandra_interface "tracks f defs" "\<lambda>w n. defs w (namespace, n)"
  "\<lambda>n. FakeCassandras_Get (FakeCoreV1alpha1_Cassandras f namespace) n opts"
  "FakeCassandras_Create (FakeCoreV1alpha1_Cassandras f namespace)"
  "FakeCassandras_Update (FakeCoreV1alpha1_Cassandras f namespace)"
  "\<lambda>n. FakeCassandras_Delete (FakeCoreV1alpha1_Cassandras f namespace) n dopts"
  for f :: "('w, 'watch) Fake" and defs namespace opts dopts
  by standard (fastforce simp: tracks_def FakeCoreV1alpha1_Cassandras_def FakeCassandras_Get_def FakeCassandras_Create_def
      FakeCassandras_Update_def FakeCassandras_Delete_def fun_eq_iff split: prod.splits)+

lemma stored:
  assumes "serves rest defs" and "Name x \<noteq> []"
  shows "cassandras_Create (newCassandras rest m) x w = ((r, None), w') \<Longrightarrow> defs w' = (defs w)((m, Name x) \<mapsto> x)"
    and "cassandras_Update (newCassandras rest m) x w = ((r, None), w') \<Longrightarrow> defs w' = (defs w)((m, Name x) \<mapsto> x)"
proof -
  let ?c = "newCassandras rest m"
  let ?post = "(request_of ?c VerbPost)\<lparr>rq_Body := CassandraBody x\<rparr>"
  let ?put = "(request_of ?c VerbPut)\<lparr>rq_Name := Some (Name x), rq_Body := CassandraBody x\<rparr>"
  have c: "cs_client ?c = rest" "rq_Namespace ?post = m" "rq_Namespace ?put = m"
    by (simp_all add: newCassandras_def request_of_def)
  show "defs w' = (defs w)((m, Name x) \<mapsto> x)" if "cassandras_Create ?c x w = ((r, None), w')"
    using servesD(2) [OF assms(1) _ _ _ _ _ assms(2) that [unfolded cassandras_Create_def c]] unfolding c
    by (simp add: request_of_def)
  show "defs w' = (defs w)((m, Name x) \<mapsto> x)" if "cassandras_Update ?c x w = ((r, None), w')"
    using servesD(3) [OF assms(1) _ _ _ _ _ assms(2) that [unfolded cassandras_Update_def c]] unfolding c
    by (simp add: request_of_def)
qed


definition sample_cr :: Cassandra where
  "sample_cr = zero_Cassandra\<lparr>Name := ''mycluster'', Namespace := ''mynamespace''\<rparr>"

text \<open>A server with nothing but the definitions.\<close>

definition plain_server :: "(string \<times> string \<Rightarrow> Cassandra option, unit) rest_client" where
  "plain_server = \<lparr>
     do_object = (\<lambda>r w. let key = (\<lambda>n. (rq_Namespace r, n)) in
       (case (rq_Verb r, rq_Name r, rq_Body r) of
          (VerbGet, Some n, _) \<Rightarrow>
            (case w (key n) of None \<Rightarrow> ((zero_Cassandra, Some ''not found''), w) | Some x \<Rightarrow> ((x, None), w))
        | (VerbPost, None, CassandraBody x) \<Rightarrow>
            (case w (key (Name x)) of None \<Rightarrow> ((x, None), w(key (Name x) \<mapsto> x)) | Some y \<Rightarrow> ((y, Some ''exists''), w))
        | (VerbPut, Some n, CassandraBody x) \<Rightarrow>
            (case w (key n) of None \<Rightarrow> ((zero_Cassandra, Some ''not found''), w) | Some _ \<Rightarrow> ((x, None), w(key n \<mapsto> x)))
        | _ \<Rightarrow> ((zero_Cassandra, Some ''bad request''), w))),
     do_list = (\<lambda>r w. (([], Some ''not supported''), w)),
     do_error = (\<lambda>r w. case rq_Name r of
        None \<Rightarrow> (Some ''bad request'', w)
      | Some n \<Rightarrow> (case w (rq_Namespace r, n) of
            None \<Rightarrow> (Some ''not found'', w) | Some _ \<Rightarrow> (None, w((rq_Namespace r, n) := None)))),
     do_watch = (\<lambda>r w. (Inl ''not supported'', w))\<rparr>"

lemma plain_server_serves: "serves plain_server (\<lambda>w. w)"
  unfolding serves_def plain_server_def
  by (auto simp: Let_def split: option.splits verb.splits request_body.splits)


end
