(* ===== verification/Informers.thy ===== *)
theory Informers
  imports ApiClient GoDuration "HOL-Library.Multiset"
begin

text \<open>
  The factory of shared informers and the lister for the custom resource, after
  \<^verbatim>\<open>cassandra-operator/pkg/client/informers/externalversions/\<close> and
  \<^verbatim>\<open>pkg/client/listers/cassandra/v1alpha1/cassandra.go\<close>. An informer itself is an object of the
  Kubernetes library: it is what it was built from, and whether it has been set running.
\<close>

section \<open>Informers\<close>

text \<open>A function that edits the options of a list or watch in place, or nil.\<close>

type_synonym tweak = "(ListOptions \<Rightarrow> ListOptions) option"

definition tweaked :: "tweak \<Rightarrow> ListOptions \<Rightarrow> ListOptions" where
  "tweaked t options = (case t of None \<Rightarrow> options | Some f \<Rightarrow> f options)"

record ('w, 'watch) SharedIndexInformer =
  ListFunc :: "ListOptions \<Rightarrow> 'w \<Rightarrow> (Cassandra list \<times> string option) \<times> 'w"
  WatchFunc :: "ListOptions \<Rightarrow> 'w \<Rightarrow> (string + 'watch) \<times> 'w"
  objectType :: string
  resyncPeriod :: Duration
  indexers :: "string list"

definition CassandraType :: string where
  "CassandraType = ''*v1alpha1.Cassandra''"

definition NewFilteredCassandraInformer ::
    "('w, 'watch) rest_client \<Rightarrow> string \<Rightarrow> Duration \<Rightarrow> string list \<Rightarrow> tweak \<Rightarrow> ('w, 'watch) SharedIndexInformer" where
  "NewFilteredCassandraInformer c namespace resync ixs tweakListOptions =
     \<lparr>ListFunc = (\<lambda>options. cassandras_List (newCassandras c namespace) (tweaked tweakListOptions options)),
      WatchFunc = (\<lambda>options. cassandras_Watch (newCassandras c namespace) (tweaked tweakListOptions options)),
      objectType = CassandraType, resyncPeriod = resync, indexers = ixs\<rparr>"

definition NewCassandraInformer ::
    "('w, 'watch) rest_client \<Rightarrow> string \<Rightarrow> Duration \<Rightarrow> string list \<Rightarrow> ('w, 'watch) SharedIndexInformer" where
  "NewCassandraInformer c namespace resync ixs = NewFilteredCassandraInformer c namespace resync ixs None"

section \<open>The factory\<close>

text \<open>
  Informers are pointers: indices into the list of those that were built. \<open>running\<close> is the history of
  the goroutines that run one. Types are known by their names.
\<close>

record ('w, 'watch) sharedInformerFactory =
  f_client :: "('w, 'watch) rest_client"
  f_namespace :: string
  f_tweak :: tweak
  defaultResync :: Duration
  customResync :: "(string, Duration) fmap"
  informers :: "(string, nat) fmap"
  startedInformers :: "(string, bool) fmap"
  built :: "('w, 'watch) SharedIndexInformer list"
  running :: "nat list"

text \<open>The options. The keys of the resync configuration are objects, in the order of the loop over them.\<close>

definition WithCustomResyncConfig ::
    "(string \<times> Duration) list \<Rightarrow> ('w, 'watch) sharedInformerFactory \<Rightarrow> ('w, 'watch) sharedInformerFactory" where
  "WithCustomResyncConfig resyncConfig f =
     f\<lparr>customResync := fold (\<lambda>(k, v). fmupd k v) resyncConfig (customResync f)\<rparr>"

definition WithTweakListOptions ::
    "tweak \<Rightarrow> ('w, 'watch) sharedInformerFactory \<Rightarrow> ('w, 'watch) sharedInformerFactory" where
  "WithTweakListOptions t f = f\<lparr>f_tweak := t\<rparr>"

definition WithNamespace ::
    "string \<Rightarrow> ('w, 'watch) sharedInformerFactory \<Rightarrow> ('w, 'watch) sharedInformerFactory" where
  "WithNamespace namespace f = f\<lparr>f_namespace := namespace\<rparr>"

definition NewSharedInformerFactoryWithOptions ::
    "('w, 'watch) rest_client \<Rightarrow> Duration \<Rightarrow>
     (('w, 'watch) sharedInformerFactory \<Rightarrow> ('w, 'watch) sharedInformerFactory) list \<Rightarrow>
     ('w, 'watch) sharedInformerFactory" where
  "NewSharedInformerFactoryWithOptions c resync options =
     fold (\<lambda>opt f. opt f) options
       \<lparr>f_client = c, f_namespace = [], f_tweak = None, defaultResync = resync, customResync = fmempty,
        informers = fmempty, startedInformers = fmempty, built = [], running = []\<rparr>"

definition NewSharedInformerFactory ::
    "('w, 'watch) rest_client \<Rightarrow> Duration \<Rightarrow> ('w, 'watch) sharedInformerFactory" where
  "NewSharedInformerFactory c resync = NewSharedInformerFactoryWithOptions c resync []"

definition NewFilteredSharedInformerFactory ::
    "('w, 'watch) rest_client \<Rightarrow> Duration \<Rightarrow> string \<Rightarrow> tweak \<Rightarrow> ('w, 'watch) sharedInformerFactory" where
  "NewFilteredSharedInformerFactory c resync namespace t =
     NewSharedInformerFactoryWithOptions c resync [WithNamespace namespace, WithTweakListOptions t]"

text \<open>Each operation holds the lock of the factory from its start to its end, so it is one step.\<close>

definition start_informer ::
    "string \<Rightarrow> ('w, 'watch) sharedInformerFactory \<Rightarrow> ('w, 'watch) sharedInformerFactory" where
  "start_informer informerType f =
     (case fmlookup (informers f) informerType of
        None \<Rightarrow> f
      | Some informer \<Rightarrow>
          (if fmlookup (startedInformers f) informerType \<noteq> Some True
           then f\<lparr>startedInformers := fmupd informerType True (startedInformers f), running := running f @ [informer]\<rparr>
           else f))"

text \<open>The loop visits the keys of the map in an order that is up to Go.\<close>

definition Start ::
    "(string list \<Rightarrow> string list) \<Rightarrow> ('w, 'watch) sharedInformerFactory \<Rightarrow> ('w, 'watch) sharedInformerFactory" where
  "Start visit f = fold start_informer (visit (sorted_list_of_fset (fmdom (informers f)))) f"

definition WaitForCacheSync ::
    "(nat \<Rightarrow> bool) \<Rightarrow> ('w, 'watch) sharedInformerFactory \<Rightarrow> (string, bool) fmap" where
  "WaitForCacheSync synced f =
     fmmap synced (fmfilter (\<lambda>t. fmlookup (startedInformers f) t = Some True) (informers f))"

definition InformerFor ::
    "string \<Rightarrow> (('w, 'watch) rest_client \<Rightarrow> Duration \<Rightarrow> ('w, 'watch) SharedIndexInformer) \<Rightarrow>
     ('w, 'watch) sharedInformerFactory \<Rightarrow> nat \<times> ('w, 'watch) sharedInformerFactory" where
  "InformerFor informerType newFunc f =
     (case fmlookup (informers f) informerType of
        Some informer \<Rightarrow> (informer, f)
      | None \<Rightarrow>
          (let resync = (case fmlookup (customResync f) informerType of Some d \<Rightarrow> d | None \<Rightarrow> defaultResync f)
           in (length (built f),
               f\<lparr>built := built f @ [newFunc (f_client f) resync],
                 informers := fmupd informerType (length (built f)) (informers f)\<rparr>)))"

text \<open>The way from the factory to the informer for the resource hands on the namespace and the tweak.\<close>

record cassandraInformer =
  ci_namespace :: string
  ci_tweak :: tweak

definition Core_V1alpha1_Cassandras :: "('w, 'watch) sharedInformerFactory \<Rightarrow> cassandraInformer" where
  "Core_V1alpha1_Cassandras f = \<lparr>ci_namespace = f_namespace f, ci_tweak = f_tweak f\<rparr>"

definition defaultInformer ::
    "cassandraInformer \<Rightarrow> ('w, 'watch) rest_client \<Rightarrow> Duration \<Rightarrow> ('w, 'watch) SharedIndexInformer" where
  "defaultInformer ci c resync =
     NewFilteredCassandraInformer c (ci_namespace ci) resync [''namespace''] (ci_tweak ci)"

definition Informer ::
    "cassandraInformer \<Rightarrow> ('w, 'watch) sharedInformerFactory \<Rightarrow> nat \<times> ('w, 'watch) sharedInformerFactory" where
  "Informer ci = InformerFor CassandraType (defaultInformer ci)"

record genericInformer =
  gi_informer :: nat
  gi_resource :: GroupResource

definition ForResource ::
    "GroupVersionResource \<Rightarrow> ('w, 'watch) sharedInformerFactory \<Rightarrow>
     (GroupVersionResource + genericInformer) \<times> ('w, 'watch) sharedInformerFactory" where
  "ForResource resource f =
     (if resource = WithResource SchemeGroupVersion ''cassandras''
      then (let (i, f') = Informer (Core_V1alpha1_Cassandras f) f
            in (Inr \<lparr>gi_informer = i, gi_resource = Group_Resource resource\<rparr>, f'))
      else (Inl resource, f))"

section \<open>What a factory does\<close>

text \<open>Any use of a factory: its construction, requests for informers and starts.\<close>

definition visits_all :: "(string list \<Rightarrow> string list) \<Rightarrow> bool" where
  "visits_all visit \<longleftrightarrow> (\<forall>keys. mset (visit keys) = mset keys)"

inductive factory_run :: "('w, 'watch) sharedInformerFactory \<Rightarrow> bool" where
  run_new: "informers f = fmempty \<Longrightarrow> startedInformers f = fmempty \<Longrightarrow> built f = [] \<Longrightarrow> running f = [] \<Longrightarrow> factory_run f"
| run_informer_for: "factory_run f \<Longrightarrow> factory_run (snd (InformerFor t newFunc f))"
| run_start: "factory_run f \<Longrightarrow> visits_all visit \<Longrightarrow> factory_run (Start visit f)"

text \<open>
  Each informer that was built belongs to one type, none has been run twice, and those that run are
  those of the types marked as started.
\<close>

definition factory_inv :: "('w, 'watch) sharedInformerFactory \<Rightarrow> bool" where
  "factory_inv f \<longleftrightarrow>
     (\<forall>i. i < length (built f) \<longleftrightarrow> (\<exists>t. fmlookup (informers f) t = Some i)) \<and>
     (\<forall>t u i. fmlookup (informers f) t = Some i \<longrightarrow> fmlookup (informers f) u = Some i \<longrightarrow> t = u) \<and>
     distinct (running f) \<and>
     (\<forall>i. i \<in> set (running f) \<longleftrightarrow> (\<exists>t. fmlookup (informers f) t = Some i \<and> fmlookup (startedInformers f) t = Some True)) \<and>
     (\<forall>t. fmlookup (startedInformers f) t \<noteq> None \<longrightarrow> fmlookup (informers f) t \<noteq> None)"

lemma factory_invD:
  assumes "factory_inv f"
  shows "i < length (built f) \<longleftrightarrow> (\<exists>t. fmlookup (informers f) t = Some i)"
    and "fmlookup (informers f) t = Some i \<Longrightarrow> fmlookup (informers f) u = Some i \<Longrightarrow> t = u"
    and "distinct (running f)"
    and "i \<in> set (running f) \<longleftrightarrow> (\<exists>t. fmlookup (informers f) t = Some i \<and> fmlookup (startedInformers f) t = Some True)"
    and "fmlookup (informers f) t = None \<Longrightarrow> fmlookup (startedInformers f) t = None"
  using assms unfolding factory_inv_def by blast+

lemma unused_index:
  assumes "factory_inv f"
  shows "fmlookup (informers f) u \<noteq> Some (length (built f))"
  using factory_invD(1) [OF assms, of "length (built f)"] by auto

lemma factory_inv_InformerFor:
  assumes "factory_inv f"
  shows "factory_inv (snd (InformerFor t newFunc f))"
proof (cases "fmlookup (informers f) t")
  case None
  let ?f = "snd (InformerFor t newFunc f)" and ?n = "length (built f)"
  have started: "fmlookup (startedInformers f) t = None" by (rule factory_invD(5) [OF assms None])
  have f: "fmlookup (informers ?f) u = (if u = t then Some ?n else fmlookup (informers f) u)"
    "length (built ?f) = Suc ?n" "running ?f = running f" "startedInformers ?f = startedInformers f" for u
    using None by (simp_all add: InformerFor_def Let_def)
  note unused = unused_index [OF assms]
  show ?thesis
    unfolding factory_inv_def f
  proof (intro conjI allI impI)
    fix i
    show "i < Suc ?n \<longleftrightarrow> (\<exists>u. (if u = t then Some ?n else fmlookup (informers f) u) = Some i)"
      using factory_invD(1) [OF assms, of i] None by (metis less_Suc_eq option.inject option.distinct(1))
    show "i \<in> set (running f) \<longleftrightarrow> (\<exists>u. (if u = t then Some ?n else fmlookup (informers f) u) = Some i \<and>
        fmlookup (startedInformers f) u = Some True)"
      using factory_invD(4) [OF assms, of i] None started by (metis option.distinct(1))
  next
    fix u v i
    assume "(if u = t then Some ?n else fmlookup (informers f) u) = Some i"
      "(if v = t then Some ?n else fmlookup (informers f) v) = Some i"
    then show "u = v" using factory_invD(2) [OF assms, of u i v] unused by (auto split: if_splits)
  next
    fix u
    assume "fmlookup (startedInformers f) u \<noteq> None"
    then show "(if u = t then Some ?n else fmlookup (informers f) u) \<noteq> None"
      using factory_invD(5) [OF assms, of u] by (cases "fmlookup (informers f) u") auto
  qed (rule factory_invD(3) [OF assms])
qed (use assms in \<open>simp add: InformerFor_def\<close>)

lemma factory_inv_start_informer:
  assumes "factory_inv f"
  shows "factory_inv (start_informer t f)"
proof (cases "\<exists>i. fmlookup (informers f) t = Some i \<and> fmlookup (startedInformers f) t \<noteq> Some True")
  case True
  then obtain i where i: "fmlookup (informers f) t = Some i" "fmlookup (startedInformers f) t \<noteq> Some True" by blast
  have "i \<notin> set (running f)" using assms i unfolding factory_inv_def by metis
  with assms i show ?thesis by (auto simp: factory_inv_def start_informer_def)
next
  case False
  then have "start_informer t f = f" by (auto simp: start_informer_def split: option.splits)
  with assms show ?thesis by simp
qed

lemma start_informer_frame [simp]:
  "informers (start_informer t f) = informers f" "built (start_informer t f) = built f"
  by (simp_all add: start_informer_def split: option.split)

lemma start_informer_started:
  "fmlookup (startedInformers (start_informer t f)) u = Some True \<longleftrightarrow>
   fmlookup (startedInformers f) u = Some True \<or> u = t \<and> fmlookup (informers f) t \<noteq> None"
  by (auto simp: start_informer_def split: option.split)

lemma fold_start:
  "factory_inv f \<Longrightarrow> factory_inv (fold start_informer ts f)"
  "informers (fold start_informer ts f) = informers f" "built (fold start_informer ts f) = built f"
  "fmlookup (startedInformers (fold start_informer ts f)) u = Some True \<longleftrightarrow>
   fmlookup (startedInformers f) u = Some True \<or> u \<in> set ts \<and> fmlookup (informers f) u \<noteq> None"
  by (induction ts arbitrary: f) (auto simp: factory_inv_start_informer start_informer_started)

lemma visits_all_set: "visits_all visit \<Longrightarrow> set (visit keys) = set keys"
  by (metis visits_all_def set_mset_mset)

lemma factory_run_inv: "factory_run f \<Longrightarrow> factory_inv f"
proof (induction rule: factory_run.induct)
  case (run_new f)
  then show ?case by (simp add: factory_inv_def)
qed (auto simp: factory_inv_InformerFor Start_def fold_start)

text \<open>
  (C22) However a factory has been used, it has built one informer for each type that was asked for and
  has run none of them twice. Asking again gives the same informer and builds nothing; and once
  started, the factory has run every informer there is exactly once, and waits for all of them.
\<close>

theorem factory_shares_informers:
  assumes "factory_run f" and "visits_all visit"
  shows "distinct (running f) \<and> set (running f) \<subseteq> {..<length (built f)} \<and>
    (\<forall>t newFunc newFunc'. let (i, f') = InformerFor t newFunc f in
       i < length (built f') \<and> InformerFor t newFunc' f' = (i, f') \<and>
       (\<forall>u. u \<noteq> t \<longrightarrow> fmlookup (informers f') u = fmlookup (informers f) u \<and> fmlookup (informers f) u \<noteq> Some i)) \<and>
    mset (running (Start visit f)) = mset [0..<length (built f)] \<and>
    Start visit (Start visit f) = Start visit f \<and>
    fmdom (WaitForCacheSync synced (Start visit f)) = fmdom (informers f)"
proof -
  note inv = factory_run_inv [OF assms(1)]
  let ?s = "Start visit f"
  have s: "factory_inv ?s" "informers ?s = informers f" "built ?s = built f"
    using fold_start inv by (auto simp: Start_def)
  have started: "fmlookup (startedInformers ?s) u = Some True \<longleftrightarrow> fmlookup (informers f) u \<noteq> None" for u
    using inv by (auto simp: Start_def fold_start visits_all_set [OF assms(2)] factory_inv_def fmlookup_dom_iff)
  have "set (running ?s) = set [0..<length (built f)]"
    using s started unfolding factory_inv_def by (auto simp: atLeast0LessThan)
  moreover have "distinct (running ?s)" using s(1) by (simp add: factory_inv_def)
  ultimately have 1: "mset (running ?s) = mset [0..<length (built f)]"
    using set_eq_iff_mset_eq_distinct distinct_upt by blast
  have "start_informer u ?s = ?s" for u
    using started [of u] s(2) by (auto simp: start_informer_def split: option.split)
  then have "fold start_informer us ?s = ?s" for us by (induction us) simp_all
  then have 2: "Start visit ?s = ?s" by (simp add: Start_def [of visit ?s])
  have 3: "fmdom (WaitForCacheSync synced ?s) = fmdom (informers f)"
    by (rule fset_eqI) (auto simp: WaitForCacheSync_def fmlookup_dom_iff started s(2) split: if_splits)
  have 4: "let (i, f') = InformerFor t newFunc f in
       i < length (built f') \<and> InformerFor t newFunc' f' = (i, f') \<and>
       (\<forall>u. u \<noteq> t \<longrightarrow> fmlookup (informers f') u = fmlookup (informers f) u \<and> fmlookup (informers f) u \<noteq> Some i)"
    for t newFunc newFunc'
  proof (cases "fmlookup (informers f) t")
    case None
    with unused_index [OF inv] show ?thesis by (simp add: InformerFor_def Let_def)
  next
    case (Some i)
    then have "i < length (built f)" "u \<noteq> t \<Longrightarrow> fmlookup (informers f) u \<noteq> Some i" for u
      using factory_invD(1) [OF inv, of i] factory_invD(2) [OF inv, of t i u] by blast+
    with Some show ?thesis by (simp add: InformerFor_def)
  qed
  have "distinct (running f)" "set (running f) \<subseteq> {..<length (built f)}"
    using inv unfolding factory_inv_def by auto
  with 1 2 3 4 show ?thesis by blast
qed

definition sample_factory :: "(string \<times> string \<Rightarrow> Cassandra option, unit) sharedInformerFactory" where
  "sample_factory =
     snd (Informer \<lparr>ci_namespace = [], ci_tweak = None\<rparr> (NewSharedInformerFactory plain_server 1))"

lemma factory_shares_informers_witness: "mset (running (Start rev (Start rev sample_factory))) = {#0#}"
proof -
  have "factory_run (NewSharedInformerFactory plain_server 1)"
    by (rule run_new) (simp_all add: NewSharedInformerFactory_def NewSharedInformerFactoryWithOptions_def)
  then have run: "factory_run sample_factory"
    unfolding sample_factory_def Informer_def by (rule run_informer_for)
  have "visits_all rev" by (simp add: visits_all_def)
  moreover have "length (built sample_factory) = 1"
    by (simp add: sample_factory_def Informer_def InformerFor_def NewSharedInformerFactory_def
        NewSharedInformerFactoryWithOptions_def Let_def)
  ultimately show ?thesis using factory_shares_informers [OF run, of rev] by simp
qed

section \<open>The lister\<close>

text \<open>
  The index behind an informer belongs to the Kubernetes library. \<open>'p\<close> is the type of the pointers it
  holds: a lister gives the objects of the cache themselves, no copies.
\<close>

record 'p Indexer =
  ListAll :: "string \<Rightarrow> 'p list \<times> string option"
  ListAllByNamespace :: "string \<Rightarrow> string \<Rightarrow> 'p list \<times> string option"
  GetByKey :: "string \<Rightarrow> string + 'p option"

datatype lister_error = IndexerError string | NotFound GroupResource string

text \<open>The visitor appends what it is given to the result.\<close>

definition cassandraLister_List :: "'p Indexer \<Rightarrow> string \<Rightarrow> 'p list \<times> string option" where
  "cassandraLister_List ix selector =
     (let (ms, err) = ListAll ix selector in (fold (\<lambda>m ret. ret @ [m]) ms [], err))"

record 'p cassandraNamespaceLister =
  nl_indexer :: "'p Indexer"
  nl_namespace :: string

definition lister_Cassandras :: "'p Indexer \<Rightarrow> string \<Rightarrow> 'p cassandraNamespaceLister" where
  "lister_Cassandras ix namespace = \<lparr>nl_indexer = ix, nl_namespace = namespace\<rparr>"

definition cassandraNamespaceLister_List ::
    "'p cassandraNamespaceLister \<Rightarrow> string \<Rightarrow> 'p list \<times> string option" where
  "cassandraNamespaceLister_List l selector =
     (let (ms, err) = ListAllByNamespace (nl_indexer l) (nl_namespace l) selector
      in (fold (\<lambda>m ret. ret @ [m]) ms [], err))"

definition cassandraNamespaceLister_Get ::
    "'p cassandraNamespaceLister \<Rightarrow> string \<Rightarrow> lister_error + 'p" where
  "cassandraNamespaceLister_Get l name =
     (case GetByKey (nl_indexer l) (nl_namespace l @ ''/'' @ name) of
        Inl err \<Rightarrow> Inl (IndexerError err)
      | Inr None \<Rightarrow> Inl (NotFound (Resource_of ''cassandra'') name)
      | Inr (Some obj) \<Rightarrow> Inr obj)"

text \<open>
  What the library documents of the index of an informer: it holds each object under the key that
  its metadata give, which leaves out an empty namespace, and lists those that match.
\<close>

definition MetaNamespaceKey :: "Cassandra \<Rightarrow> string" where
  "MetaNamespaceKey d = (if Namespace d = [] then Name d else Namespace d @ ''/'' @ Name d)"

definition indexes :: "'p Indexer \<Rightarrow> ('p \<Rightarrow> Cassandra) \<Rightarrow> (string \<Rightarrow> Cassandra \<Rightarrow> bool) \<Rightarrow> 'p set \<Rightarrow> bool" where
  "indexes ix def_of matches cache \<longleftrightarrow>
     (\<forall>k. GetByKey ix k = Inr None \<and> (\<forall>p \<in> cache. MetaNamespaceKey (def_of p) \<noteq> k) \<or>
       (\<exists>p \<in> cache. GetByKey ix k = Inr (Some p) \<and> MetaNamespaceKey (def_of p) = k)) \<and>
     inj_on (MetaNamespaceKey \<circ> def_of) cache \<and>
     (\<forall>sel. snd (ListAll ix sel) = None \<and> distinct (fst (ListAll ix sel)) \<and>
        set (fst (ListAll ix sel)) = {p \<in> cache. matches sel (def_of p)}) \<and>
     (\<forall>m sel. snd (ListAllByNamespace ix m sel) = None \<and> distinct (fst (ListAllByNamespace ix m sel)) \<and>
        set (fst (ListAllByNamespace ix m sel)) = {p \<in> cache. Namespace (def_of p) = m \<and> matches sel (def_of p)})"

text \<open>Names of Kubernetes objects hold no slash, so that a key tells namespace and name apart.\<close>

lemma append_slash_eq:
  "CHR ''/'' \<notin> set a \<Longrightarrow> CHR ''/'' \<notin> set c \<Longrightarrow> a @ CHR ''/'' # b = c @ CHR ''/'' # d \<Longrightarrow> a = c \<and> b = d"
proof (induction a arbitrary: c)
  case Nil
  then show ?case by (cases c) auto
next
  case (Cons x a)
  then show ?case by (cases c) auto
qed

lemma MetaNamespaceKey_slash:
  assumes "CHR ''/'' \<notin> set (Namespace d)" and "CHR ''/'' \<notin> set (Name d)" and "CHR ''/'' \<notin> set m"
  shows "MetaNamespaceKey d = m @ ''/'' @ n \<longleftrightarrow> Namespace d = m \<and> Name d = n \<and> m \<noteq> []"
  using assms append_slash_eq [of "Namespace d" m "Name d" n]
  by (auto simp: MetaNamespaceKey_def)

lemma fold_append [simp]: "fold (\<lambda>m ret. ret @ [m]) ms acc = acc @ ms"
  by (induction ms arbitrary: acc) simp_all

lemma filter_eq_one: "distinct ps \<Longrightarrow> filter (\<lambda>p. p = q) ps = (if q \<in> set ps then [q] else [])"
  by (induction ps) auto

text \<open>
  The lister of a namespace gives by name exactly the object of the cache with that namespace and
  name, and an error that says it was not found otherwise; its list, restricted to one name, is
  what it gets.
\<close>

theorem lister_finds:
  assumes "indexes ix def_of matches cache" and "m \<noteq> []"
    and "\<forall>p \<in> cache. CHR ''/'' \<notin> set (Namespace (def_of p)) \<and> CHR ''/'' \<notin> set (Name (def_of p))" and "CHR ''/'' \<notin> set m"
  shows "(cassandraNamespaceLister_Get (lister_Cassandras ix m) n = Inr p \<longleftrightarrow>
      p \<in> cache \<and> Namespace (def_of p) = m \<and> Name (def_of p) = n) \<and>
    (cassandraNamespaceLister_Get (lister_Cassandras ix m) n =
       Inl (NotFound \<lparr>gr_Group = ''core.sky.uk'', gr_Resource = ''cassandra''\<rparr> n) \<longleftrightarrow>
      (\<forall>p \<in> cache. (Namespace (def_of p), Name (def_of p)) \<noteq> (m, n))) \<and>
    (\<exists>ps. cassandraNamespaceLister_List (lister_Cassandras ix m) sel = (ps, None) \<and>
      filter (\<lambda>p. Name (def_of p) = n) ps =
        (case cassandraNamespaceLister_Get (lister_Cassandras ix m) n of
           Inr p \<Rightarrow> if matches sel (def_of p) then [p] else [] | Inl err \<Rightarrow> []))"
proof -
  let ?get = "GetByKey ix (m @ ''/'' @ n)"
  have key: "MetaNamespaceKey (def_of p) = m @ ''/'' @ n \<longleftrightarrow> Namespace (def_of p) = m \<and> Name (def_of p) = n"
    if "p \<in> cache" for p
    using MetaNamespaceKey_slash [of "def_of p" m n] assms(2-4) that by blast
  have unique: "p = q" if "p \<in> cache" "q \<in> cache" "Namespace (def_of p) = m" "Namespace (def_of q) = m"
      "Name (def_of p) = n" "Name (def_of q) = n" for p q
  proof -
    have "MetaNamespaceKey (def_of p) = MetaNamespaceKey (def_of q)" using key that by metis
    moreover have "inj_on (MetaNamespaceKey \<circ> def_of) cache" using assms(1) unfolding indexes_def by blast
    ultimately show "p = q" using that(1,2) by (simp add: inj_on_def)
  qed
  let ?ps = "fst (ListAllByNamespace ix m sel)"
  have "snd (ListAllByNamespace ix m sel) = None" using assms(1) unfolding indexes_def by blast
  then have list: "cassandraNamespaceLister_List (lister_Cassandras ix m) sel = (?ps, None)"
    by (simp add: cassandraNamespaceLister_List_def lister_Cassandras_def split_beta prod_eq_iff)
  have ps: "distinct ?ps" "set ?ps = {p \<in> cache. Namespace (def_of p) = m \<and> matches sel (def_of p)}"
    using assms(1) unfolding indexes_def by blast+
  have "?get = Inr None \<and> (\<forall>p \<in> cache. MetaNamespaceKey (def_of p) \<noteq> m @ ''/'' @ n) \<or>
      (\<exists>p \<in> cache. ?get = Inr (Some p) \<and> MetaNamespaceKey (def_of p) = m @ ''/'' @ n)"
    using assms(1) unfolding indexes_def by blast
  then show ?thesis
  proof
    assume none: "?get = Inr None \<and> (\<forall>p \<in> cache. MetaNamespaceKey (def_of p) \<noteq> m @ ''/'' @ n)"
    then have get: "cassandraNamespaceLister_Get (lister_Cassandras ix m) n =
        Inl (NotFound \<lparr>gr_Group = ''core.sky.uk'', gr_Resource = ''cassandra''\<rparr> n)"
      by (simp add: cassandraNamespaceLister_Get_def lister_Cassandras_def Resource_of_def Group_Resource_def
          WithResource_def SchemeGroupVersion_def GroupName_def)
    have "filter (\<lambda>p. Name (def_of p) = n) ?ps = []"
      using none key ps(2) by (auto simp: filter_empty_conv)
    with get none key list show ?thesis by auto
  next
    assume "\<exists>p \<in> cache. ?get = Inr (Some p) \<and> MetaNamespaceKey (def_of p) = m @ ''/'' @ n"
    then obtain q where q: "q \<in> cache" "?get = Inr (Some q)" "Namespace (def_of q) = m" "Name (def_of q) = n"
      using key by blast
    then have get: "cassandraNamespaceLister_Get (lister_Cassandras ix m) n = Inr q"
      by (simp add: cassandraNamespaceLister_Get_def lister_Cassandras_def)
    have only: "Name (def_of p) = n \<longleftrightarrow> p = q" if "p \<in> set ?ps" for p
      using unique [of p q] q ps(2) that by auto
    have "filter (\<lambda>p. Name (def_of p) = n) ?ps = filter (\<lambda>p. p = q) ?ps"
      using only by (rule filter_cong [OF refl])
    also have "\<dots> = (if q \<in> set ?ps then [q] else [])"
      by (rule filter_eq_one [OF ps(1)])
    finally have "filter (\<lambda>p. Name (def_of p) = n) ?ps = (if matches sel (def_of q) then [q] else [])"
      using q ps(2) by simp
    with get list unique q show ?thesis by auto
  qed
qed

text \<open>A cache of two definitions of one namespace.\<close>

definition cached :: "nat \<Rightarrow> Cassandra" where
  "cached p = sample_cr\<lparr>Name := (if p = 0 then ''a'' else ''b'')\<rparr>"

definition two_index :: "nat Indexer" where
  "two_index = \<lparr>ListAll = (\<lambda>sel. ([0, 2], None)),
     ListAllByNamespace = (\<lambda>m sel. (if m = ''mynamespace'' then [0, 2] else [], None)),
     GetByKey = (\<lambda>k. Inr (if k = ''mynamespace/a'' then Some 0 else if k = ''mynamespace/b'' then Some 2 else None))\<rparr>"

lemma lister_finds_witness:
  "cassandraNamespaceLister_Get (lister_Cassandras two_index ''mynamespace'') ''b'' = Inr 2"
proof -
  have "indexes two_index cached (\<lambda>sel d. True) {0, 2}"
    by (auto simp: indexes_def two_index_def cached_def sample_cr_def MetaNamespaceKey_def)
  from lister_finds [OF this, of "''mynamespace''" "''b''" 2] show ?thesis
    by (auto simp: cached_def sample_cr_def)
qed

end
