(* ===== verification/OperatorMain.thy ===== *)
theory OperatorMain
  imports OperatorEvents Dispatcher Informers
begin

text \<open>
  From the command line to the running operator, after
  \<^verbatim>\<open>cassandra-operator/cmd/operator/main.go\<close>, \<^verbatim>\<open>pkg/operator/operator.go\<close> (\<open>New\<close>, \<open>Run\<close> and what \<open>Run\<close>
  calls) and \<^verbatim>\<open>pkg/operator/status.go\<close>: what is started, in which order, and how the process ends.
\<close>

section \<open>The operator's parts\<close>

record ('k, 'w, 'watch, 'd) Operator =
  kubeClientset :: 'k
  cassandraClientset :: "(('w, 'watch) rest_client, 'd) Clientset"
  op_config :: Config
  eventDispatcher :: dispatcher
  RequestTimeout :: Duration

text \<open>\<open>New\<close>: the map of clusters that it shares with the receiver is the one of \<open>started\<close>.\<close>

definition Operator_New ::
    "'k \<Rightarrow> (('w, 'watch) rest_client, 'd) Clientset \<Rightarrow> Config \<Rightarrow> ('k, 'w, 'watch, 'd) Operator" where
  "Operator_New kube cs config =
     \<lparr>kubeClientset = kube, cassandraClientset = cs, op_config = config, eventDispatcher = new_dispatcher,
      RequestTimeout = MetricRequestDuration config\<rparr>"

definition resourceResyncInterval :: Duration where
  "resourceResyncInterval = 5 * (60 * Second)"

text \<open>A controller of the Kubernetes library: what it lists and watches, and its handlers.\<close>

type_synonym 'm handler = "notification \<Rightarrow> (Event list, 'm) Runtime.action"

record 'm controller =
  ctl_resource :: string
  ctl_namespace :: string
  ctl_fields :: string
  ctl_type :: string
  ctl_resync :: Duration
  ctl_handler :: "'m handler"

text \<open>The handlers are added to the informer that the factory gives; \<open>fields.Everything()\<close> selects by no field.\<close>

definition registerCassandraInformer ::
    "('k, 'w, 'watch, 'd) Operator \<Rightarrow> string \<Rightarrow> (nat \<times> 'm handler) \<times> ('w, 'watch) sharedInformerFactory" where
  "registerCassandraInformer op namespace =
     (let f = NewSharedInformerFactoryWithOptions (coreV1alpha1 (cassandraClientset op)) resourceResyncInterval
                [WithNamespace namespace];
          (i, f') = Informer (Core_V1alpha1_Cassandras f) f
      in ((i, cluster_handler (op_config op)), f'))"

definition registerConfigMapInformer :: "string \<Rightarrow> 'm controller" where
  "registerConfigMapInformer namespace =
     \<lparr>ctl_resource = ''configmaps'', ctl_namespace = namespace, ctl_fields = [], ctl_type = ''*v1.ConfigMap'',
      ctl_resync = resourceResyncInterval, ctl_handler = config_handler\<rparr>"

section \<open>Starting\<close>

text \<open>
  What \<open>Run\<close> does, in order. A goroutine is its start. The handler of \<^verbatim>\<open>/metrics\<close> is the one of the
  Prometheus library; the others are what they write.
\<close>

datatype 'm boot =
    Handles_cassandras nat "'m handler"
  | Polls_metrics Duration
  | Serves_metrics string
  | Serves string "http_write list"
  | Listens string
  | Notifies "string list"
  | Runs_informer nat
  | Runs_controller "'m controller"

text \<open>The content of the status page; a struct of one string is always marshalled.\<close>

definition Status_Marshal :: "string \<Rightarrow> string + string" where
  "Status_Marshal CassandraCrdVersion = Inr (json_object [(''CassandraCrdVersion'', json_string CassandraCrdVersion)])"

definition startServer :: "Config \<Rightarrow> 'm boot list" where
  "startServer config =
     [Polls_metrics (MetricPollInterval config),
      Serves_metrics ''/metrics'',
      Serves ''/live'' livenessAndReadinessCheck,
      Serves ''/ready'' livenessAndReadinessCheck,
      Serves ''/status'' (statusPage (Status_Marshal Version)),
      Listens '':9090'']"

definition addSignalHandler :: "'m boot" where
  "addSignalHandler = Notifies [''SIGINT'', ''SIGTERM'']"

text \<open>The goroutines that \<open>Start\<close> has started are those that the history of the factory has gained.\<close>

definition Run ::
    "(string list \<Rightarrow> string list) \<Rightarrow> ('k, 'w, 'watch, 'd) Operator \<Rightarrow> string \<Rightarrow>
     'm boot list \<times> ('w, 'watch) sharedInformerFactory" where
  "Run visit op namespace =
     (let ((i, h), f) = registerCassandraInformer op namespace;
          ctl = registerConfigMapInformer namespace;
          f' = Start visit f
      in ([Handles_cassandras i h] @ startServer (op_config op) @ [addSignalHandler] @
          map Runs_informer (drop (length (running f)) (running f')) @ [Runs_controller ctl], f'))"

section \<open>The command\<close>

text \<open>
  What the command uses of libraries: the parsing of its arguments, which gives an error, nothing to
  run (help was asked for) or the flags; the levels of the logger; the scheme of the Kubernetes
  clients; the configuration of a process in
  a cluster; and the construction of clients. \<open>log.Fatalf\<close> ends the process with status 1, a panic with 2.
\<close>

record ('k, 'w, 'watch, 'd) main_library =
  parse_args :: "string list \<Rightarrow> string + Flags option"
  ParseLevel_ok :: "string \<Rightarrow> bool"
  kubernetes_scheme :: "registration list"
  InClusterConfig :: "string + rest_config"
  kubernetes_NewForConfig :: "rest_config \<Rightarrow> string + 'k"
  clients :: "(('w, 'watch) rest_client, 'd) client_library"

datatype 'a process_start = Exits int | Goes_on 'a

definition kubernetesConfig :: "('k, 'w, 'watch, 'd) main_library \<Rightarrow> rest_config process_start" where
  "kubernetesConfig lib = (case InClusterConfig lib of Inl err \<Rightarrow> Exits 1 | Inr c \<Rightarrow> Goes_on c)"

definition kubernetesClient :: "('k, 'w, 'watch, 'd) main_library \<Rightarrow> rest_config \<Rightarrow> 'k process_start" where
  "kubernetesClient lib c = (case kubernetes_NewForConfig lib c of Inl err \<Rightarrow> Exits 1 | Inr k \<Rightarrow> Goes_on k)"

definition cassandraClient ::
    "('k, 'w, 'watch, 'd) main_library \<Rightarrow> rest_config \<Rightarrow> (('w, 'watch) rest_client, 'd) Clientset process_start" where
  "cassandraClient lib c =
     (case Clientset_NewForConfigOrDie (clients lib) c of Died err \<Rightarrow> Exits 2 | Alive cs \<Rightarrow> Goes_on cs)"

text \<open>\<open>AddToScheme\<close> runs the one function of its builder, which returns no error.\<close>

definition AddToScheme :: "registration list \<Rightarrow> string option \<times> registration list" where
  "AddToScheme scheme = (None, addKnownTypes scheme)"

text \<open>\<open>startOperator\<close> up to \<open>Run\<close>: the scheme, the clients, the operator.\<close>

definition start_operator ::
    "('k, 'w, 'watch, 'd) main_library \<Rightarrow> Flags \<Rightarrow>
     (('k, 'w, 'watch, 'd) Operator \<times> registration list) process_start" where
  "start_operator lib flags =
     (let operatorConfig = startOperator flags; (err, scheme) = AddToScheme (kubernetes_scheme lib)
      in if err \<noteq> None then Exits 1
         else case kubernetesConfig lib of Exits n \<Rightarrow> Exits n | Goes_on c \<Rightarrow>
              case kubernetesClient lib c of Exits n \<Rightarrow> Exits n | Goes_on k \<Rightarrow>
              case cassandraClient lib c of Exits n \<Rightarrow> Exits n | Goes_on cs \<Rightarrow>
                Goes_on (Operator_New k cs operatorConfig, scheme))"

definition operator_main ::
    "('k, 'w, 'watch, 'd) main_library \<Rightarrow> string list \<Rightarrow>
     (('k, 'w, 'watch, 'd) Operator \<times> registration list) process_start" where
  "operator_main lib args =
     (case parse_args lib args of
        Inl err \<Rightarrow> Exits 1
      | Inr None \<Rightarrow> Exits 0
      | Inr (Some flags) \<Rightarrow>
          (if handleArgs (ParseLevel_ok lib) flags \<noteq> None then Exits 1 else start_operator lib flags))"

section \<open>What is running\<close>

lemma registered:
  "registerCassandraInformer op namespace =
     ((0, cluster_handler (op_config op)),
      (let c = coreV1alpha1 (cassandraClientset op)
       in \<lparr>f_client = c, f_namespace = namespace, f_tweak = None, defaultResync = resourceResyncInterval,
           customResync = fmempty, informers = fmupd CassandraType 0 fmempty, startedInformers = fmempty,
           built = [NewFilteredCassandraInformer c namespace resourceResyncInterval [''namespace''] None],
           running = []\<rparr>))"
  by (simp add: registerCassandraInformer_def NewSharedInformerFactoryWithOptions_def WithNamespace_def
      Core_V1alpha1_Cassandras_def Informer_def InformerFor_def defaultInformer_def Let_def)

lemma visits_one: "visits_all visit \<Longrightarrow> visit [t] = [t]"
  by (metis visits_all_def mset_single_iff mset.simps(1,2))

lemma start_one:
  assumes "visits_all visit" and "informers f = fmupd t i fmempty" and "startedInformers f = fmempty"
  shows "Start visit f = f\<lparr>startedInformers := fmupd t True fmempty, running := running f @ [i]\<rparr>"
  using visits_one [OF assms(1), of t] assms(2,3) by (simp add: Start_def start_informer_def sorted_list_of_fset.rep_eq)

text \<open>What a start has been through when it gives an operator.\<close>

lemma operator_main_Goes_on:
  assumes "operator_main lib args = Goes_on (op, scheme)"
  obtains flags config k where "parse_args lib args = Inr (Some flags)" and "handleArgs (ParseLevel_ok lib) flags = None"
    and "InClusterConfig lib = Inr config" and "kubernetes_NewForConfig lib config = Inr k"
    and "Clientset_NewForConfigOrDie (clients lib) config = Alive (cassandraClientset op)"
    and "op = Operator_New k (cassandraClientset op) (startOperator flags)" and "scheme = addKnownTypes (kubernetes_scheme lib)"
  using assms
  by (auto simp: operator_main_def start_operator_def AddToScheme_def kubernetesConfig_def kubernetesClient_def
      cassandraClient_def Operator_New_def Let_def split: sum.splits option.splits if_splits died_or.splits process_start.splits)

text \<open>The client for the resource is made from the configuration with the defaults of its group.\<close>

lemma core_client_made:
  assumes "Clientset_NewForConfigOrDie lib config = Alive cs"
  shows "RESTClientFor lib (setConfigDefaults lib config) = Inr (coreV1alpha1 cs) \<and>
    rc_GroupVersion (setConfigDefaults lib config) = Some SchemeGroupVersion \<and>
    rc_APIPath (setConfigDefaults lib config) = ''/apis'' \<and>
    rc_RateLimiter (setConfigDefaults lib config) = rc_RateLimiter config"
  using assms
  by (cases "RESTClientFor lib (setConfigDefaults lib config)"; cases "NewDiscoveryClientForConfig lib config")
    (auto simp: Clientset_NewForConfigOrDie_def CoreV1alpha1_NewForConfigOrDie_def CoreV1alpha1_NewForConfig_def
      setConfigDefaults_def)

lemma status_page:
  "statusPage (Status_Marshal Version) = [WriteHeader 200,
     Write (CHR 0x7B # dquote # ''CassandraCrdVersion'' @ dquote # CHR '':'' # dquote # ''v1alpha1'' @ [dquote, CHR 0x7D])]"
  by code_simp

text \<open>\<open>Run\<close> with all its parts written out.\<close>

lemma Run_parts:
  fixes visit :: "string list \<Rightarrow> string list"
  assumes "visits_all visit"
  shows "Run visit op namespace =
    ([Handles_cassandras 0 (cluster_handler (op_config op))] @ startServer (op_config op) @
     [addSignalHandler, Runs_informer 0, Runs_controller (registerConfigMapInformer namespace)],
     (let c = coreV1alpha1 (cassandraClientset op)
      in \<lparr>f_client = c, f_namespace = namespace, f_tweak = None, defaultResync = resourceResyncInterval,
           customResync = fmempty, informers = fmupd CassandraType 0 fmempty,
           startedInformers = fmupd CassandraType True fmempty,
           built = [NewFilteredCassandraInformer c namespace resourceResyncInterval [''namespace''] None],
           running = [0]\<rparr>))"
  by (simp add: Run_def registered Let_def start_one [OF assms, of _ CassandraType 0])


text \<open>A process in a cluster whose clients can be made, started without arguments.\<close>

definition sample_rest_config :: rest_config where
  "sample_rest_config = \<lparr>rc_GroupVersion = None, rc_APIPath = [], rc_UserAgent = [], rc_QPS = 0, rc_Burst = 0,
     rc_RateLimiter = None\<rparr>"

definition sample_library ::
    "(unit, string \<times> string \<Rightarrow> Cassandra option, unit, unit) main_library" where
  "sample_library = \<lparr>parse_args = (\<lambda>args. if args = [] then Inr (Some default_flags) else Inl ''unknown flag''),
     ParseLevel_ok = (\<lambda>l. l = ''info''), kubernetes_scheme = [],
     InClusterConfig = Inr sample_rest_config,
     kubernetes_NewForConfig = (\<lambda>_. Inr ()),
     clients = \<lparr>RESTClientFor = (\<lambda>_. Inr plain_server), NewDiscoveryClientForConfig = (\<lambda>_. Inr ()),
       DefaultKubernetesUserAgent = ''operator''\<rparr>\<rparr>"

lemma default_poll_positive: "0 <s metricPollInterval default_flags"
  by code_simp

lemma sample_start: "\<exists>op scheme. operator_main sample_library [] = Goes_on (op, scheme)"
  using default_poll_positive
  by (simp add: operator_main_def start_operator_def AddToScheme_def kubernetesConfig_def kubernetesClient_def
      cassandraClient_def sample_library_def handleArgs_def isPositive_def
      default_flags_def Clientset_NewForConfigOrDie_def CoreV1alpha1_NewForConfigOrDie_def CoreV1alpha1_NewForConfig_def)


lemma cassandraClient_cases:
  "(\<exists>err. (RESTClientFor (clients lib) (setConfigDefaults (clients lib) c) = Inl err \<or>
      NewDiscoveryClientForConfig (clients lib) c = Inl err)) \<and> cassandraClient lib c = Exits 2 \<or>
   (\<forall>err. RESTClientFor (clients lib) (setConfigDefaults (clients lib) c) \<noteq> Inl err \<and>
      NewDiscoveryClientForConfig (clients lib) c \<noteq> Inl err) \<and> (\<exists>cs. cassandraClient lib c = Goes_on cs)"
  by (cases "RESTClientFor (clients lib) (setConfigDefaults (clients lib) c)";
      cases "NewDiscoveryClientForConfig (clients lib) c")
    (auto simp: cassandraClient_def Clientset_NewForConfigOrDie_def CoreV1alpha1_NewForConfigOrDie_def
      CoreV1alpha1_NewForConfig_def)

text \<open>
  The command ends before it runs anything in exactly these ways: with status 0 when it was only
  asked for help; with status 1 when its arguments do not parse, a flag is not valid, the process
  is not in a cluster or the client for Kubernetes cannot be made; with status 2, by a panic, when
  a client for the resource cannot be made. The registration of the types never fails.
\<close>

theorem operator_main_exits:
  "operator_main lib args = Exits n \<longleftrightarrow>
   (case parse_args lib args of
      Inl err \<Rightarrow> n = 1
    | Inr None \<Rightarrow> n = 0
    | Inr (Some flags) \<Rightarrow>
        (if \<not> 0 <s metricPollInterval flags \<or> \<not> ParseLevel_ok lib (logLevel flags) then n = 1
         else case InClusterConfig lib of
             Inl err \<Rightarrow> n = 1
           | Inr config \<Rightarrow>
               (\<exists>err. kubernetes_NewForConfig lib config = Inl err) \<and> n = 1 \<or>
               (\<exists>k. kubernetes_NewForConfig lib config = Inr k) \<and> n = 2 \<and>
               (\<exists>err. RESTClientFor (clients lib) (setConfigDefaults (clients lib) config) = Inl err \<or>
                  NewDiscoveryClientForConfig (clients lib) config = Inl err)))"
proof (cases "\<exists>flags config k. parse_args lib args = Inr (Some flags) \<and> handleArgs (ParseLevel_ok lib) flags = None \<and>
    InClusterConfig lib = Inr config \<and> kubernetes_NewForConfig lib config = Inr k")
  case True
  then obtain flags config k where "parse_args lib args = Inr (Some flags)" "handleArgs (ParseLevel_ok lib) flags = None"
      "InClusterConfig lib = Inr config" "kubernetes_NewForConfig lib config = Inr k" by blast
  then show ?thesis
    using cassandraClient_cases [of lib config]
    by (auto simp: operator_main_def start_operator_def AddToScheme_def kubernetesConfig_def kubernetesClient_def
        handleArgs_def isPositive_def split: if_splits)
next
  case False
  then show ?thesis
    by (auto simp: operator_main_def start_operator_def AddToScheme_def kubernetesConfig_def kubernetesClient_def
        handleArgs_def isPositive_def split: sum.splits option.splits if_splits)
qed

section \<open>How the process ends\<close>

text \<open>
  Three goroutines can end it: the main one, which is in the controller for config maps until the stop
  channel is closed and then waits for that channel; the one that waits for signals, on a channel with
  room for one, into which a signal is put without waiting; and the one that serves HTTP.
\<close>

datatype main_point = In_controller | At_stop_channel
datatype signal_point = Waiting_for_signal | Got_signal | Has_closed

record process =
  sig_buffer :: "string list"
  signal_at :: signal_point
  main_at :: main_point
  stop_closed :: bool
  server_failed :: bool
  process_status :: "int option"

definition running_process :: process where
  "running_process = \<lparr>sig_buffer = [], signal_at = Waiting_for_signal, main_at = In_controller,
     stop_closed = False, server_failed = False, process_status = None\<rparr>"

datatype life =
    Signalled string
  | Takes_signal
  | Closes_stop
  | Exits_after_close
  | Controller_returns
  | Main_returns
  | Server_fails
  | Exits_after_failure

text \<open>A second \<open>close\<close> of the stop channel would be a panic, with status 2.\<close>

fun live :: "life \<Rightarrow> process \<Rightarrow> process option" where
  "live (Signalled sig) p =
     (if process_status p = None \<and> sig \<in> {''SIGINT'', ''SIGTERM''}
      then Some (if sig_buffer p = [] then p\<lparr>sig_buffer := [sig]\<rparr> else p) else None)"
| "live Takes_signal p =
     (if process_status p = None \<and> signal_at p = Waiting_for_signal \<and> sig_buffer p \<noteq> []
      then Some (p\<lparr>sig_buffer := tl (sig_buffer p), signal_at := Got_signal\<rparr>) else None)"
| "live Closes_stop p =
     (if process_status p = None \<and> signal_at p = Got_signal
      then Some (if stop_closed p then p\<lparr>process_status := Some 2\<rparr> else p\<lparr>stop_closed := True, signal_at := Has_closed\<rparr>)
      else None)"
| "live Exits_after_close p =
     (if process_status p = None \<and> signal_at p = Has_closed then Some (p\<lparr>process_status := Some 0\<rparr>) else None)"
| "live Controller_returns p =
     (if process_status p = None \<and> main_at p = In_controller \<and> stop_closed p
      then Some (p\<lparr>main_at := At_stop_channel\<rparr>) else None)"
| "live Main_returns p =
     (if process_status p = None \<and> main_at p = At_stop_channel \<and> stop_closed p
      then Some (p\<lparr>process_status := Some 0\<rparr>) else None)"
| "live Server_fails p =
     (if process_status p = None \<and> \<not> server_failed p then Some (p\<lparr>server_failed := True\<rparr>) else None)"
| "live Exits_after_failure p =
     (if process_status p = None \<and> server_failed p then Some (p\<lparr>process_status := Some 0\<rparr>) else None)"

inductive lives :: "life list \<Rightarrow> process \<Rightarrow> bool" where
  lives_start: "lives [] running_process"
| lives_step: "lives es p \<Longrightarrow> live e p = Some p' \<Longrightarrow> lives (es @ [e]) p'"

fun lives_through :: "life list \<Rightarrow> process \<Rightarrow> process option" where
  "lives_through [] p = Some p"
| "lives_through (e # es) p = (case live e p of None \<Rightarrow> None | Some p' \<Rightarrow> lives_through es p')"

lemma lives_steps: "lives es p \<Longrightarrow> lives_through es' p = Some p' \<Longrightarrow> lives (es @ es') p'"
proof (induction es' arbitrary: es p)
  case (Cons e es')
  then obtain q where "live e p = Some q" "lives_through es' q = Some p'" by (auto split: option.splits)
  with Cons.IH [OF lives_step [OF Cons.prems(1)]] show ?case by simp
qed simp

text \<open>What is remembered of the past.\<close>

definition life_inv :: "life list \<Rightarrow> process \<Rightarrow> bool" where
  "life_inv es p \<longleftrightarrow>
     length (sig_buffer p) \<le> 1 \<and>
     (stop_closed p \<longleftrightarrow> signal_at p = Has_closed) \<and>
     length (filter (\<lambda>e. e = Closes_stop) es) = (if stop_closed p then 1 else 0) \<and>
     (sig_buffer p \<noteq> [] \<or> signal_at p \<noteq> Waiting_for_signal \<longrightarrow> (\<exists>sig. Signalled sig \<in> set es)) \<and>
     (server_failed p \<longleftrightarrow> Server_fails \<in> set es) \<and>
     (main_at p = At_stop_channel \<longrightarrow> stop_closed p) \<and>
     (process_status p = None \<or> process_status p = Some 0 \<and> (stop_closed p \<or> server_failed p))"

lemma lives_inv: "lives es p \<Longrightarrow> life_inv es p"
proof (induction rule: lives.induct)
  case lives_start
  then show ?case by (simp add: life_inv_def running_process_def)
next
  case (lives_step es p e p')
  from lives_step.hyps(2) lives_step.IH show ?case
    by (cases e) (auto simp: life_inv_def split: if_splits)
qed



end
