(* ===== verification/DeepCopy.thy ===== *)
theory DeepCopy
  imports Types "HOL-Library.State_Monad"
begin

text \<open>
  Copies of the custom resource, after
  \<^verbatim>\<open>cassandra-operator/pkg/apis/cassandra/v1alpha1/zz_generated.deepcopy.go\<close>. The other theories treat
  a definition as a value; here it is what Go has, structs whose pointers and slices lead into a
  store. A copy made by \<open>DeepCopy\<close> has the same value, in cells of its own, so that a write
  through the one is never seen through the other: this is what makes values enough elsewhere.
\<close>

section \<open>The store\<close>

text \<open>
  Structs as they lie in memory. A slice is the address of its array. The embedded structs of the
  Kubernetes library, and the quantities, are copied by the library: they are values here.
\<close>

type_synonym addr = nat

record p_RetentionPolicy =
  p_Enabled :: bool
  p_RetentionPeriodDays :: "addr option"
  p_CleanupSchedule :: string
  p_CleanupTimeoutSeconds :: "addr option"

record p_Snapshot =
  p_Snapshot_Image :: string
  p_Schedule :: string
  p_Keyspaces :: "addr option"
  p_TimeoutSeconds :: "addr option"
  p_RetentionPolicy :: "addr option"

record p_Pod =
  p_BootstrapperImage :: string
  p_Image :: string
  p_StorageSize :: Quantity
  p_Memory :: Quantity
  p_CPU :: Quantity
  p_LivenessProbe :: "addr option"
  p_ReadinessProbe :: "addr option"

record p_CassandraSpec =
  p_DC :: string
  p_Racks :: "addr option"
  p_UseEmptyDir :: bool
  p_Pod :: p_Pod
  p_Snapshot :: "addr option"

record p_Cassandra =
  p_Name :: string
  p_Namespace :: string
  p_Spec :: p_CassandraSpec

record p_CassandraList =
  p_Items :: "addr option"

text \<open>
  The cells, by the type of what they hold. Addresses below the limit have been allocated; Go's
  types keep a pointer from leading to a cell of another type.
\<close>

record store =
  limit :: addr
  int32s :: "addr \<Rightarrow> int32"
  string_arrays :: "addr \<Rightarrow> string list"
  probes :: "addr \<Rightarrow> Probe"
  rack_cells :: "addr \<Rightarrow> Rack"
  rack_arrays :: "addr \<Rightarrow> Rack list"
  policies :: "addr \<Rightarrow> p_RetentionPolicy"
  snapshots :: "addr \<Rightarrow> p_Snapshot"
  pods :: "addr \<Rightarrow> p_Pod"
  specs :: "addr \<Rightarrow> p_CassandraSpec"
  statuses :: "addr \<Rightarrow> unit"
  cassandras :: "addr \<Rightarrow> p_Cassandra"
  cassandra_arrays :: "addr \<Rightarrow> p_Cassandra list"
  cassandra_lists :: "addr \<Rightarrow> p_CassandraList"

text \<open>The two stores hold the same at these addresses.\<close>

definition agree :: "addr set \<Rightarrow> store \<Rightarrow> store \<Rightarrow> bool" where
  "agree A h h' \<longleftrightarrow> (\<forall>a \<in> A. int32s h' a = int32s h a \<and> string_arrays h' a = string_arrays h a \<and>
     probes h' a = probes h a \<and> rack_cells h' a = rack_cells h a \<and> rack_arrays h' a = rack_arrays h a \<and>
     policies h' a = policies h a \<and> snapshots h' a = snapshots h a \<and> pods h' a = pods h a \<and>
     specs h' a = specs h a \<and> cassandras h' a = cassandras h a \<and>
     cassandra_arrays h' a = cassandra_arrays h a \<and> cassandra_lists h' a = cassandra_lists h a)"

lemma agree_refl [simp]: "agree A h h"
  by (simp add: agree_def)

lemma agree_mono: "agree B h h' \<Longrightarrow> A \<subseteq> B \<Longrightarrow> agree A h h'"
  by (auto simp: agree_def)

lemma agree_trans: "agree A h h' \<Longrightarrow> agree A h' h'' \<Longrightarrow> agree A h h''"
  by (simp add: agree_def)

lemma agree_Un: "agree (A \<union> B) h h' \<longleftrightarrow> agree A h h' \<and> agree B h h'"
  by (auto simp: agree_def)

lemma agree_UN: "agree (\<Union>x \<in> X. f x) h h' \<longleftrightarrow> (\<forall>x \<in> X. agree (f x) h h')"
  by (auto simp: agree_def)

text \<open>A run of allocations: what was there stays.\<close>

definition grows :: "store \<Rightarrow> store \<Rightarrow> bool" where
  "grows h h' \<longleftrightarrow> limit h \<le> limit h' \<and> agree {..<limit h} h h'"

lemma grows_refl [simp]: "grows h h"
  by (simp add: grows_def)

lemma grows_trans:
  assumes "grows h h'" and "grows h' h''"
  shows "grows h h''"
proof -
  have "agree {..<limit h} h' h''"
    using assms by (auto simp: grows_def intro: agree_mono)
  with assms show ?thesis by (auto simp: grows_def intro: agree_trans)
qed

section \<open>Copying\<close>

text \<open>\<open>new(T)\<close> followed by the assignment to the new cell, where \<open>put\<close> writes cells of the type.\<close>

definition new_cell :: "(addr \<Rightarrow> 'a \<Rightarrow> store \<Rightarrow> store) \<Rightarrow> 'a \<Rightarrow> (store, addr) state" where
  "new_cell put v = State (\<lambda>h. (limit h, put (limit h) v (h\<lparr>limit := Suc (limit h)\<rparr>)))"

definition load :: "(store \<Rightarrow> addr \<Rightarrow> 'a) \<Rightarrow> addr \<Rightarrow> (store, 'a) state" where
  "load get a = State (\<lambda>h. (get h a, h))"

text \<open>
  The code's pattern for a pointer or a slice: nil is copied as nil, anything else into a new cell,
  whose content \<open>into\<close> copies. That the cell is allocated after its content, and not
  before, cannot be told: addresses are only compared.
\<close>

definition copy_pointer ::
    "(store \<Rightarrow> addr \<Rightarrow> 'a) \<Rightarrow> (addr \<Rightarrow> 'a \<Rightarrow> store \<Rightarrow> store) \<Rightarrow> ('a \<Rightarrow> (store, 'a) state) \<Rightarrow>
     addr option \<Rightarrow> (store, addr option) state" where
  "copy_pointer get put into p =
     (case p of
        None \<Rightarrow> State_Monad.return None
      | Some a \<Rightarrow> do { x \<leftarrow> load get a; y \<leftarrow> into x; b \<leftarrow> new_cell put y; State_Monad.return (Some b) })"

text \<open>The statement \<open>*out = *in\<close> of a struct without pointers.\<close>

definition copy_value :: "'a \<Rightarrow> (store, 'a) state" where
  "copy_value x = State_Monad.return x"

definition put_int32 :: "addr \<Rightarrow> int32 \<Rightarrow> store \<Rightarrow> store" where
  "put_int32 a v h = h\<lparr>int32s := (int32s h)(a := v)\<rparr>"

definition put_strings :: "addr \<Rightarrow> string list \<Rightarrow> store \<Rightarrow> store" where
  "put_strings a v h = h\<lparr>string_arrays := (string_arrays h)(a := v)\<rparr>"

definition put_probe :: "addr \<Rightarrow> Probe \<Rightarrow> store \<Rightarrow> store" where
  "put_probe a v h = h\<lparr>probes := (probes h)(a := v)\<rparr>"

definition put_rack :: "addr \<Rightarrow> Rack \<Rightarrow> store \<Rightarrow> store" where
  "put_rack a v h = h\<lparr>rack_cells := (rack_cells h)(a := v)\<rparr>"

definition put_racks :: "addr \<Rightarrow> Rack list \<Rightarrow> store \<Rightarrow> store" where
  "put_racks a v h = h\<lparr>rack_arrays := (rack_arrays h)(a := v)\<rparr>"

definition put_policy :: "addr \<Rightarrow> p_RetentionPolicy \<Rightarrow> store \<Rightarrow> store" where
  "put_policy a v h = h\<lparr>policies := (policies h)(a := v)\<rparr>"

definition put_snapshot :: "addr \<Rightarrow> p_Snapshot \<Rightarrow> store \<Rightarrow> store" where
  "put_snapshot a v h = h\<lparr>snapshots := (snapshots h)(a := v)\<rparr>"

definition put_pod :: "addr \<Rightarrow> p_Pod \<Rightarrow> store \<Rightarrow> store" where
  "put_pod a v h = h\<lparr>pods := (pods h)(a := v)\<rparr>"

definition put_spec :: "addr \<Rightarrow> p_CassandraSpec \<Rightarrow> store \<Rightarrow> store" where
  "put_spec a v h = h\<lparr>specs := (specs h)(a := v)\<rparr>"

definition put_status :: "addr \<Rightarrow> unit \<Rightarrow> store \<Rightarrow> store" where
  "put_status a v h = h\<lparr>statuses := (statuses h)(a := v)\<rparr>"

definition put_cassandra :: "addr \<Rightarrow> p_Cassandra \<Rightarrow> store \<Rightarrow> store" where
  "put_cassandra a v h = h\<lparr>cassandras := (cassandras h)(a := v)\<rparr>"

definition put_cassandras :: "addr \<Rightarrow> p_Cassandra list \<Rightarrow> store \<Rightarrow> store" where
  "put_cassandras a v h = h\<lparr>cassandra_arrays := (cassandra_arrays h)(a := v)\<rparr>"

definition put_list :: "addr \<Rightarrow> p_CassandraList \<Rightarrow> store \<Rightarrow> store" where
  "put_list a v h = h\<lparr>cassandra_lists := (cassandra_lists h)(a := v)\<rparr>"

lemmas put_defs = put_int32_def put_strings_def put_probe_def put_rack_def put_racks_def put_policy_def
  put_snapshot_def put_pod_def put_spec_def put_status_def put_cassandra_def put_cassandras_def put_list_def

text \<open>One definition per \<open>DeepCopyInto\<close>: what the code leaves in \<open>out\<close>.\<close>

definition RetentionPolicy_DeepCopyInto :: "p_RetentionPolicy \<Rightarrow> (store, p_RetentionPolicy) state" where
  "RetentionPolicy_DeepCopyInto r =
     do { days \<leftarrow> copy_pointer int32s put_int32 copy_value (p_RetentionPeriodDays r);
          timeout \<leftarrow> copy_pointer int32s put_int32 copy_value (p_CleanupTimeoutSeconds r);
          State_Monad.return (r\<lparr>p_RetentionPeriodDays := days, p_CleanupTimeoutSeconds := timeout\<rparr>) }"

definition Snapshot_DeepCopyInto :: "p_Snapshot \<Rightarrow> (store, p_Snapshot) state" where
  "Snapshot_DeepCopyInto s =
     do { keyspaces \<leftarrow> copy_pointer string_arrays put_strings copy_value (p_Keyspaces s);
          timeout \<leftarrow> copy_pointer int32s put_int32 copy_value (p_TimeoutSeconds s);
          policy \<leftarrow> copy_pointer policies put_policy RetentionPolicy_DeepCopyInto (p_RetentionPolicy s);
          State_Monad.return
            (s\<lparr>p_Keyspaces := keyspaces, p_TimeoutSeconds := timeout, p_RetentionPolicy := policy\<rparr>) }"

definition Probe_DeepCopyInto :: "Probe \<Rightarrow> (store, Probe) state" where
  "Probe_DeepCopyInto = copy_value"

definition Rack_DeepCopyInto :: "Rack \<Rightarrow> (store, Rack) state" where
  "Rack_DeepCopyInto = copy_value"

definition CassandraStatus_DeepCopyInto :: "unit \<Rightarrow> (store, unit) state" where
  "CassandraStatus_DeepCopyInto = copy_value"

definition Pod_DeepCopyInto :: "p_Pod \<Rightarrow> (store, p_Pod) state" where
  "Pod_DeepCopyInto p =
     do { liveness \<leftarrow> copy_pointer probes put_probe copy_value (p_LivenessProbe p);
          readiness \<leftarrow> copy_pointer probes put_probe copy_value (p_ReadinessProbe p);
          State_Monad.return (p\<lparr>p_LivenessProbe := liveness, p_ReadinessProbe := readiness\<rparr>) }"

definition CassandraSpec_DeepCopyInto :: "p_CassandraSpec \<Rightarrow> (store, p_CassandraSpec) state" where
  "CassandraSpec_DeepCopyInto s =
     do { racks \<leftarrow> copy_pointer rack_arrays put_racks copy_value (p_Racks s);
          pod \<leftarrow> Pod_DeepCopyInto (p_Pod s);
          snapshot \<leftarrow> copy_pointer snapshots put_snapshot Snapshot_DeepCopyInto (p_Snapshot s);
          State_Monad.return (s\<lparr>p_Racks := racks, p_Pod := pod, p_Snapshot := snapshot\<rparr>) }"

definition Cassandra_DeepCopyInto :: "p_Cassandra \<Rightarrow> (store, p_Cassandra) state" where
  "Cassandra_DeepCopyInto c =
     do { spec \<leftarrow> CassandraSpec_DeepCopyInto (p_Spec c); State_Monad.return (c\<lparr>p_Spec := spec\<rparr>) }"

text \<open>The loop over the items, into an array of the same length.\<close>

definition items_DeepCopyInto :: "p_Cassandra list \<Rightarrow> (store, p_Cassandra list) state" where
  "items_DeepCopyInto = State_Monad.traverse_list Cassandra_DeepCopyInto"

definition CassandraList_DeepCopyInto :: "p_CassandraList \<Rightarrow> (store, p_CassandraList) state" where
  "CassandraList_DeepCopyInto l =
     do { items \<leftarrow> copy_pointer cassandra_arrays put_cassandras items_DeepCopyInto (p_Items l);
          State_Monad.return (l\<lparr>p_Items := items\<rparr>) }"

text \<open>One definition per \<open>DeepCopy\<close>.\<close>

definition RetentionPolicy_DeepCopy :: "addr option \<Rightarrow> (store, addr option) state" where
  "RetentionPolicy_DeepCopy = copy_pointer policies put_policy RetentionPolicy_DeepCopyInto"

definition Snapshot_DeepCopy :: "addr option \<Rightarrow> (store, addr option) state" where
  "Snapshot_DeepCopy = copy_pointer snapshots put_snapshot Snapshot_DeepCopyInto"

definition Probe_DeepCopy :: "addr option \<Rightarrow> (store, addr option) state" where
  "Probe_DeepCopy = copy_pointer probes put_probe Probe_DeepCopyInto"

definition Rack_DeepCopy :: "addr option \<Rightarrow> (store, addr option) state" where
  "Rack_DeepCopy = copy_pointer rack_cells put_rack Rack_DeepCopyInto"

definition CassandraStatus_DeepCopy :: "addr option \<Rightarrow> (store, addr option) state" where
  "CassandraStatus_DeepCopy = copy_pointer statuses put_status CassandraStatus_DeepCopyInto"

definition Pod_DeepCopy :: "addr option \<Rightarrow> (store, addr option) state" where
  "Pod_DeepCopy = copy_pointer pods put_pod Pod_DeepCopyInto"

definition CassandraSpec_DeepCopy :: "addr option \<Rightarrow> (store, addr option) state" where
  "CassandraSpec_DeepCopy = copy_pointer specs put_spec CassandraSpec_DeepCopyInto"

definition Cassandra_DeepCopy :: "addr option \<Rightarrow> (store, addr option) state" where
  "Cassandra_DeepCopy = copy_pointer cassandras put_cassandra Cassandra_DeepCopyInto"

definition CassandraList_DeepCopy :: "addr option \<Rightarrow> (store, addr option) state" where
  "CassandraList_DeepCopy = copy_pointer cassandra_lists put_list CassandraList_DeepCopyInto"

text \<open>\<open>DeepCopyObject\<close> turns a nil pointer into a nil interface and keeps any other.\<close>

definition Cassandra_DeepCopyObject :: "addr option \<Rightarrow> (store, addr option) state" where
  "Cassandra_DeepCopyObject p =
     do { c \<leftarrow> Cassandra_DeepCopy p;
          State_Monad.return (case c of Some a \<Rightarrow> Some a | None \<Rightarrow> None) }"

definition CassandraList_DeepCopyObject :: "addr option \<Rightarrow> (store, addr option) state" where
  "CassandraList_DeepCopyObject p =
     do { c \<leftarrow> CassandraList_DeepCopy p;
          State_Monad.return (case c of Some a \<Rightarrow> Some a | None \<Rightarrow> None) }"

section \<open>Values\<close>

text \<open>What a struct stands for, read through its pointers, and the cells that this depends on.\<close>

definition pointer_value :: "(store \<Rightarrow> addr \<Rightarrow> 'a) \<Rightarrow> (store \<Rightarrow> 'a \<Rightarrow> 'v) \<Rightarrow> store \<Rightarrow> addr option \<Rightarrow> 'v option" where
  "pointer_value get val h p = map_option (\<lambda>a. val h (get h a)) p"

definition pointer_cells :: "(store \<Rightarrow> addr \<Rightarrow> 'a) \<Rightarrow> (store \<Rightarrow> 'a \<Rightarrow> addr set) \<Rightarrow> store \<Rightarrow> addr option \<Rightarrow> addr set" where
  "pointer_cells get cells h p = (case p of None \<Rightarrow> {} | Some a \<Rightarrow> insert a (cells h (get h a)))"

definition plain_value :: "store \<Rightarrow> 'a \<Rightarrow> 'a" where
  "plain_value h x = x"

definition no_cells :: "store \<Rightarrow> 'a \<Rightarrow> addr set" where
  "no_cells h x = {}"

definition policy_value :: "store \<Rightarrow> p_RetentionPolicy \<Rightarrow> RetentionPolicy" where
  "policy_value h r = \<lparr>Enabled = p_Enabled r,
     RetentionPeriodDays = pointer_value int32s plain_value h (p_RetentionPeriodDays r),
     CleanupSchedule = p_CleanupSchedule r,
     CleanupTimeoutSeconds = pointer_value int32s plain_value h (p_CleanupTimeoutSeconds r)\<rparr>"

definition policy_cells :: "store \<Rightarrow> p_RetentionPolicy \<Rightarrow> addr set" where
  "policy_cells h r = pointer_cells int32s no_cells h (p_RetentionPeriodDays r) \<union>
     pointer_cells int32s no_cells h (p_CleanupTimeoutSeconds r)"

definition snapshot_value :: "store \<Rightarrow> p_Snapshot \<Rightarrow> Snapshot" where
  "snapshot_value h s = \<lparr>Snapshot_Image = p_Snapshot_Image s, Schedule = p_Schedule s,
     Keyspaces = pointer_value string_arrays plain_value h (p_Keyspaces s),
     Snapshot_TimeoutSeconds = pointer_value int32s plain_value h (p_TimeoutSeconds s),
     Snapshot_RetentionPolicy = pointer_value policies policy_value h (p_RetentionPolicy s)\<rparr>"

definition snapshot_cells :: "store \<Rightarrow> p_Snapshot \<Rightarrow> addr set" where
  "snapshot_cells h s = pointer_cells string_arrays no_cells h (p_Keyspaces s) \<union>
     (pointer_cells int32s no_cells h (p_TimeoutSeconds s) \<union>
      pointer_cells policies policy_cells h (p_RetentionPolicy s))"

definition pod_value :: "store \<Rightarrow> p_Pod \<Rightarrow> Pod" where
  "pod_value h p = \<lparr>BootstrapperImage = p_BootstrapperImage p, Image = p_Image p,
     StorageSize = p_StorageSize p, Memory = p_Memory p, CPU = p_CPU p,
     LivenessProbe = pointer_value probes plain_value h (p_LivenessProbe p),
     ReadinessProbe = pointer_value probes plain_value h (p_ReadinessProbe p)\<rparr>"

definition pod_cells :: "store \<Rightarrow> p_Pod \<Rightarrow> addr set" where
  "pod_cells h p = pointer_cells probes no_cells h (p_LivenessProbe p) \<union>
     pointer_cells probes no_cells h (p_ReadinessProbe p)"

text \<open>The operator does not tell a nil slice of racks from an empty one.\<close>

definition spec_value :: "store \<Rightarrow> p_CassandraSpec \<Rightarrow> CassandraSpec" where
  "spec_value h s = \<lparr>DC = p_DC s, Racks = elems (pointer_value rack_arrays plain_value h (p_Racks s)),
     UseEmptyDir = p_UseEmptyDir s, Spec_Pod = pod_value h (p_Pod s),
     Spec_Snapshot = pointer_value snapshots snapshot_value h (p_Snapshot s)\<rparr>"

definition spec_cells :: "store \<Rightarrow> p_CassandraSpec \<Rightarrow> addr set" where
  "spec_cells h s = pointer_cells rack_arrays no_cells h (p_Racks s) \<union>
     (pod_cells h (p_Pod s) \<union> pointer_cells snapshots snapshot_cells h (p_Snapshot s))"

definition cassandra_value :: "store \<Rightarrow> p_Cassandra \<Rightarrow> Cassandra" where
  "cassandra_value h c = \<lparr>Name = p_Name c, Namespace = p_Namespace c, Spec = spec_value h (p_Spec c)\<rparr>"

definition cassandra_cells :: "store \<Rightarrow> p_Cassandra \<Rightarrow> addr set" where
  "cassandra_cells h c = spec_cells h (p_Spec c)"

definition items_value :: "store \<Rightarrow> p_Cassandra list \<Rightarrow> Cassandra list" where
  "items_value h cs = map (cassandra_value h) cs"

definition items_cells :: "store \<Rightarrow> p_Cassandra list \<Rightarrow> addr set" where
  "items_cells h cs = (\<Union>c \<in> set cs. cassandra_cells h c)"

definition list_value :: "store \<Rightarrow> p_CassandraList \<Rightarrow> Cassandra list option" where
  "list_value h l = pointer_value cassandra_arrays items_value h (p_Items l)"

definition list_cells :: "store \<Rightarrow> p_CassandraList \<Rightarrow> addr set" where
  "list_cells h l = pointer_cells cassandra_arrays items_cells h (p_Items l)"

section \<open>The contract of a copy\<close>

text \<open>
  The value depends on the cells only; and a copy of something whose cells are all there only
  adds cells, which hold a thing of the same value that has no cells but new ones.
\<close>

locale deep_copy =
  fixes val :: "store \<Rightarrow> 'a \<Rightarrow> 'v"
    and cells :: "store \<Rightarrow> 'a \<Rightarrow> addr set"
    and copy :: "'a \<Rightarrow> (store, 'a) state"
  assumes local: "agree (cells h x) h h' \<Longrightarrow> val h' x = val h x \<and> cells h' x = cells h x"
    and copies: "cells h x \<subseteq> {..<limit h} \<Longrightarrow> run_state (copy x) h = (y, h') \<Longrightarrow>
      grows h h' \<and> cells h' y \<subseteq> {limit h..<limit h'} \<and> val h' y = val h x"
begin

lemma grown:
  assumes "grows h h'" and "cells h x \<subseteq> {..<limit h}"
  shows "val h' x = val h x" and "cells h' x = cells h x"
  using local [of h x h'] assms by (auto simp: grows_def intro: agree_mono)

lemma isolated:
  assumes "cells h x \<subseteq> {..<limit h}" and "run_state (copy x) h = (y, h')"
  shows "val h' y = val h x" and "val h' x = val h x"
    and "agree {limit h..<limit h'} h' h'' \<Longrightarrow> val h'' y = val h x"
    and "agree {..<limit h} h' h'' \<Longrightarrow> val h'' x = val h x"
proof -
  note c = copies [OF assms]
  show "val h' y = val h x" using c by blast
  show x: "val h' x = val h x" using grown(1) c assms(1) by blast
  show "agree {limit h..<limit h'} h' h'' \<Longrightarrow> val h'' y = val h x"
    using local [of h' y h''] c by (auto intro: agree_mono)
  show "agree {..<limit h} h' h'' \<Longrightarrow> val h'' x = val h x"
    using local [of h' x h''] grown [of h h' x] c assms(1) x by (auto intro: agree_mono)
qed

end

text \<open>Cells of one type.\<close>

locale cell_type =
  fixes get :: "store \<Rightarrow> addr \<Rightarrow> 'a" and put :: "addr \<Rightarrow> 'a \<Rightarrow> store \<Rightarrow> store"
  assumes get_put: "get (put a v h) a = v"
    and get_agree: "agree {a} h h' \<Longrightarrow> get h' a = get h a"
    and put_agree: "a \<notin> A \<Longrightarrow> agree A h (put a v h)"
    and put_limit: "limit (put a v h) = limit h"

locale copied_cell = deep_copy val cells copy + cell_type get put
  for val :: "store \<Rightarrow> 'a \<Rightarrow> 'v" and cells copy and get :: "store \<Rightarrow> addr \<Rightarrow> 'a" and put

text \<open>A pointer to something that can be copied can be copied.\<close>

lemma agree_limit [simp]: "agree A h (h'\<lparr>limit := n\<rparr>) \<longleftrightarrow> agree A h h'" "agree A (h\<lparr>limit := n\<rparr>) h' \<longleftrightarrow> agree A h h'"
  by (simp_all add: agree_def)

sublocale copied_cell < pointer: deep_copy "pointer_value get val" "pointer_cells get cells" "copy_pointer get put copy"
proof
  fix h h' :: store and p
  assume "agree (pointer_cells get cells h p) h h'"
  then show "pointer_value get val h' p = pointer_value get val h p \<and> pointer_cells get cells h' p = pointer_cells get cells h p"
  proof (cases p)
    case (Some a)
    with \<open>agree (pointer_cells get cells h p) h h'\<close> have a: "agree {a} h h'" "agree (cells h (get h a)) h h'"
      by (auto simp: pointer_cells_def intro: agree_mono)
    from local [OF a(2)] get_agree [OF a(1)] Some show ?thesis
      by (simp add: pointer_value_def pointer_cells_def)
  qed (simp add: pointer_value_def pointer_cells_def)
next
  fix h h' p q
  assume p: "pointer_cells get cells h p \<subseteq> {..<limit h}" and run: "run_state (copy_pointer get put copy p) h = (q, h')"
  show "grows h h' \<and> pointer_cells get cells h' q \<subseteq> {limit h..<limit h'} \<and>
      pointer_value get val h' q = pointer_value get val h p"
  proof (cases p)
    case None
    with run show ?thesis by (auto simp: copy_pointer_def pointer_cells_def pointer_value_def)
  next
    case (Some a)
    obtain y g where y: "run_state (copy (get h a)) h = (y, g)" by (cases "run_state (copy (get h a)) h")
    have a: "cells h (get h a) \<subseteq> {..<limit h}" using p Some by (simp add: pointer_cells_def)
    note c = copies [OF a y]
    let ?h = "put (limit g) y (g\<lparr>limit := Suc (limit g)\<rparr>)"
    have q: "q = Some (limit g)" and h': "h' = ?h"
      using run Some y by (auto simp: copy_pointer_def new_cell_def load_def)
    have grow: "grows g ?h"
      using put_agree [of "limit g" "{..<limit g}" "g\<lparr>limit := Suc (limit g)\<rparr>" y] by (simp add: grows_def put_limit)
    have "cells g y \<subseteq> {..<limit g}" using c by auto
    from grown [OF grow this] have "val ?h y = val g y" "cells ?h y = cells g y" .
    with c grow grows_trans [of h g ?h] Some show ?thesis
      by (auto simp: q h' pointer_cells_def pointer_value_def get_put put_limit grows_def)
  qed
qed

section \<open>The copies of the source\<close>

text \<open>A struct without pointers, two things one after the other, and a struct made of its parts.\<close>

lemma deep_copy_plain: "deep_copy plain_value no_cells copy_value"
  by standard (auto simp: plain_value_def no_cells_def copy_value_def)

definition copy_both :: "('a \<Rightarrow> (store, 'a) state) \<Rightarrow> ('b \<Rightarrow> (store, 'b) state) \<Rightarrow> 'a \<times> 'b \<Rightarrow> (store, 'a \<times> 'b) state" where
  "copy_both f g x = do { a \<leftarrow> f (fst x); b \<leftarrow> g (snd x); State_Monad.return (a, b) }"

lemma deep_copy_both:
  assumes f: "deep_copy v c f" and g: "deep_copy w d g"
  shows "deep_copy (\<lambda>h x. (v h (fst x), w h (snd x))) (\<lambda>h x. c h (fst x) \<union> d h (snd x)) (copy_both f g)"
proof
  fix h h' :: store and x
  assume "agree (c h (fst x) \<union> d h (snd x)) h h'"
  then have "agree (c h (fst x)) h h'" "agree (d h (snd x)) h h'" by (simp_all add: agree_Un)
  from deep_copy.local [OF f this(1)] deep_copy.local [OF g this(2)]
  show "(v h' (fst x), w h' (snd x)) = (v h (fst x), w h (snd x)) \<and>
      c h' (fst x) \<union> d h' (snd x) = c h (fst x) \<union> d h (snd x)" by simp
next
  fix h h' x y
  assume there: "c h (fst x) \<union> d h (snd x) \<subseteq> {..<limit h}" and run: "run_state (copy_both f g x) h = (y, h')"
  obtain a i where a: "run_state (f (fst x)) h = (a, i)" by (cases "run_state (f (fst x)) h")
  obtain b where b: "run_state (g (snd x)) i = (b, h')" and y: "y = (a, b)"
    using run a by (auto simp: copy_both_def split: prod.splits)
  from deep_copy.copies [OF f _ a] there have 1: "grows h i" "c i a \<subseteq> {limit h..<limit i}" "v i a = v h (fst x)"
    by auto
  from deep_copy.grown [OF g 1(1), of "snd x"] there have 2: "w i (snd x) = w h (snd x)" "d i (snd x) = d h (snd x)"
    by auto
  have "d i (snd x) \<subseteq> {..<limit i}" using there 1(1) unfolding 2(2) by (auto simp: grows_def)
  from deep_copy.copies [OF g this b] have 3: "grows i h'" "d h' b \<subseteq> {limit i..<limit h'}" "w h' b = w i (snd x)"
    by auto
  have "c i a \<subseteq> {..<limit i}" using 1(2) by auto
  from deep_copy.grown [OF f 3(1) this] have "v h' a = v i a" "c h' a = c i a" .
  with 1 2 3 show "grows h h' \<and> c h' (fst y) \<union> d h' (snd y) \<subseteq> {limit h..<limit h'} \<and>
      (v h' (fst y), w h' (snd y)) = (v h (fst x), w h (snd x))"
    by (auto simp: y grows_def intro: grows_trans)
      (metis (no_types, lifting) agree_mono agree_trans lessThan_subset_iff)
qed

lemma deep_copy_struct:
  assumes copy: "deep_copy v c f"
    and parts: "\<And>x p. parts (rebuild x p) = p" and build: "\<And>x p w. build (rebuild x p) w = build x w"
  shows "deep_copy (\<lambda>h x. build x (v h (parts x))) (\<lambda>h x. c h (parts x))
    (\<lambda>x. do { p \<leftarrow> f (parts x); State_Monad.return (rebuild x p) })"
proof
  fix h h' :: store and x
  assume "agree (c h (parts x)) h h'"
  from deep_copy.local [OF copy this]
  show "build x (v h' (parts x)) = build x (v h (parts x)) \<and> c h' (parts x) = c h (parts x)" by simp
next
  fix h h' x y
  assume there: "c h (parts x) \<subseteq> {..<limit h}"
    and run: "run_state (do { p \<leftarrow> f (parts x); State_Monad.return (rebuild x p) }) h = (y, h')"
  obtain p where p: "run_state (f (parts x)) h = (p, h')" and y: "y = rebuild x p"
    using run by (auto split: prod.splits)
  from deep_copy.copies [OF copy there p]
  show "grows h h' \<and> c h' (parts y) \<subseteq> {limit h..<limit h'} \<and> build y (v h' (parts y)) = build x (v h (parts x))"
    by (simp add: y parts build)
qed

lemma deep_copy_traverse:
  assumes copy: "deep_copy v c f"
  shows "deep_copy (\<lambda>h. map (v h)) (\<lambda>h xs. \<Union>x \<in> set xs. c h x) (State_Monad.traverse_list f)"
proof
  fix h h' :: store and xs
  assume "agree (\<Union>x \<in> set xs. c h x) h h'"
  then have "v h' x = v h x \<and> c h' x = c h x" if "x \<in> set xs" for x
    using deep_copy.local [OF copy] that by (simp add: agree_UN)
  then show "map (v h') xs = map (v h) xs \<and> (\<Union>x \<in> set xs. c h' x) = (\<Union>x \<in> set xs. c h x)" by simp
next
  fix h h' xs ys
  assume "(\<Union>x \<in> set xs. c h x) \<subseteq> {..<limit h}" and "run_state (State_Monad.traverse_list f xs) h = (ys, h')"
  then show "grows h h' \<and> (\<Union>y \<in> set ys. c h' y) \<subseteq> {limit h..<limit h'} \<and> map (v h') ys = map (v h) xs"
  proof (induction xs arbitrary: h ys)
    case (Cons x xs)
    obtain y i where y: "run_state (f x) h = (y, i)" by (cases "run_state (f x) h")
    obtain zs where zs: "run_state (State_Monad.traverse_list f xs) i = (zs, h')" and ys: "ys = y # zs"
      using Cons.prems(2) y by (auto split: prod.splits)
    have there: "c h x \<subseteq> {..<limit h}" "\<forall>z \<in> set xs. c h z \<subseteq> {..<limit h}" using Cons.prems(1) by auto
    from deep_copy.copies [OF copy there(1) y] have 1: "grows h i" "c i y \<subseteq> {limit h..<limit i}" "v i y = v h x" by auto
    have rest: "v i z = v h z \<and> c i z = c h z" if "z \<in> set xs" for z
      using deep_copy.grown [OF copy 1(1)] there(2) that by blast
    have "(\<Union>x \<in> set xs. c i x) \<subseteq> {..<limit i}" using rest there(2) 1(1) by (fastforce simp: grows_def)
    from Cons.IH [OF this zs] have 2: "grows i h'" "(\<Union>z \<in> set zs. c h' z) \<subseteq> {limit i..<limit h'}"
      "map (v h') zs = map (v i) xs" by auto
    have "c i y \<subseteq> {..<limit i}" using 1(2) by auto
    from deep_copy.grown [OF copy 2(1) this] have 3: "v h' y = v i y" "c h' y = c i y" .
    have "limit h \<le> limit i" "limit i \<le> limit h'" using 1(1) 2(1) by (simp_all add: grows_def)
    then have "c h' y \<union> (\<Union>z \<in> set zs. c h' z) \<subseteq> {limit h..<limit h'}"
      using 1(2) 2(2) 3(2) by (auto simp: subset_iff)
    with 1(1,3) 2(1,3) 3(1) rest show ?case by (auto simp: ys intro: grows_trans)
  qed auto
qed

text \<open>Every type of cell of the store.\<close>

lemma cell_types:
  "cell_type int32s put_int32" "cell_type string_arrays put_strings" "cell_type probes put_probe"
  "cell_type rack_cells put_rack" "cell_type rack_arrays put_racks" "cell_type policies put_policy"
  "cell_type snapshots put_snapshot" "cell_type pods put_pod" "cell_type specs put_spec"
  "cell_type cassandras put_cassandra" "cell_type cassandra_arrays put_cassandras"
  "cell_type cassandra_lists put_list"
  by (standard; auto simp: put_defs agree_def)+

interpretation int32_cell: copied_cell plain_value no_cells copy_value int32s put_int32
  by (intro copied_cell.intro deep_copy_plain cell_types)

interpretation strings_cell: copied_cell plain_value no_cells copy_value string_arrays put_strings
  by (intro copied_cell.intro deep_copy_plain cell_types)

interpretation probe_cell: copied_cell plain_value no_cells copy_value probes put_probe
  by (intro copied_cell.intro deep_copy_plain cell_types)

interpretation rack_cell: copied_cell plain_value no_cells copy_value rack_cells put_rack
  by (intro copied_cell.intro deep_copy_plain cell_types)

interpretation racks_cell: copied_cell plain_value no_cells copy_value rack_arrays put_racks
  by (intro copied_cell.intro deep_copy_plain cell_types)

text \<open>The structs, from the innermost outwards.\<close>

lemma deep_copy_as:
  "deep_copy v c f \<Longrightarrow> v' = v \<Longrightarrow> c' = c \<Longrightarrow> f' = f \<Longrightarrow> deep_copy v' c' f'"
  by simp

lemmas pointers_copy = int32_cell.pointer.deep_copy_axioms strings_cell.pointer.deep_copy_axioms
  probe_cell.pointer.deep_copy_axioms racks_cell.pointer.deep_copy_axioms

interpretation policy_cell: copied_cell policy_value policy_cells RetentionPolicy_DeepCopyInto policies put_policy
  by (intro copied_cell.intro cell_types deep_copy_as [OF deep_copy_struct [OF
        deep_copy_both [OF pointers_copy(1) pointers_copy(1)],
        where parts = "\<lambda>r. (p_RetentionPeriodDays r, p_CleanupTimeoutSeconds r)"
          and rebuild = "\<lambda>r (d, t). r\<lparr>p_RetentionPeriodDays := d, p_CleanupTimeoutSeconds := t\<rparr>"
          and build = "\<lambda>r (d, t). \<lparr>Enabled = p_Enabled r, RetentionPeriodDays = d,
            CleanupSchedule = p_CleanupSchedule r, CleanupTimeoutSeconds = t\<rparr>"]])
    (auto simp: fun_eq_iff policy_value_def policy_cells_def RetentionPolicy_DeepCopyInto_def copy_both_def State_Monad.bind_assoc)

interpretation snapshot_cell: copied_cell snapshot_value snapshot_cells Snapshot_DeepCopyInto snapshots put_snapshot
  by (intro copied_cell.intro cell_types deep_copy_as [OF deep_copy_struct [OF
        deep_copy_both [OF pointers_copy(2) deep_copy_both [OF pointers_copy(1) policy_cell.pointer.deep_copy_axioms]],
        where parts = "\<lambda>s. (p_Keyspaces s, p_TimeoutSeconds s, p_RetentionPolicy s)"
          and rebuild = "\<lambda>s (k, t, r). s\<lparr>p_Keyspaces := k, p_TimeoutSeconds := t, p_RetentionPolicy := r\<rparr>"
          and build = "\<lambda>s (k, t, r). \<lparr>Snapshot_Image = p_Snapshot_Image s, Schedule = p_Schedule s, Keyspaces = k,
            Snapshot_TimeoutSeconds = t, Snapshot_RetentionPolicy = r\<rparr>"]])
    (auto simp: fun_eq_iff snapshot_value_def snapshot_cells_def Snapshot_DeepCopyInto_def copy_both_def State_Monad.bind_assoc)

interpretation pod_cell: copied_cell pod_value pod_cells Pod_DeepCopyInto pods put_pod
  by (intro copied_cell.intro cell_types deep_copy_as [OF deep_copy_struct [OF
        deep_copy_both [OF pointers_copy(3) pointers_copy(3)],
        where parts = "\<lambda>p. (p_LivenessProbe p, p_ReadinessProbe p)"
          and rebuild = "\<lambda>p (l, r). p\<lparr>p_LivenessProbe := l, p_ReadinessProbe := r\<rparr>"
          and build = "\<lambda>p (l, r). \<lparr>BootstrapperImage = p_BootstrapperImage p, Image = p_Image p,
            StorageSize = p_StorageSize p, Memory = p_Memory p, CPU = p_CPU p, LivenessProbe = l, ReadinessProbe = r\<rparr>"]])
    (auto simp: fun_eq_iff pod_value_def pod_cells_def Pod_DeepCopyInto_def copy_both_def State_Monad.bind_assoc)

interpretation spec_cell: copied_cell spec_value spec_cells CassandraSpec_DeepCopyInto specs put_spec
  by (intro copied_cell.intro cell_types deep_copy_as [OF deep_copy_struct [OF
        deep_copy_both [OF pointers_copy(4) deep_copy_both [OF pod_cell.deep_copy_axioms snapshot_cell.pointer.deep_copy_axioms]],
        where parts = "\<lambda>s. (p_Racks s, p_Pod s, p_Snapshot s)"
          and rebuild = "\<lambda>s (r, p, n). s\<lparr>p_Racks := r, p_Pod := p, p_Snapshot := n\<rparr>"
          and build = "\<lambda>s (r, p, n). \<lparr>DC = p_DC s, Racks = elems r, UseEmptyDir = p_UseEmptyDir s, Spec_Pod = p,
            Spec_Snapshot = n\<rparr>"]])
    (auto simp: fun_eq_iff spec_value_def spec_cells_def CassandraSpec_DeepCopyInto_def copy_both_def State_Monad.bind_assoc)

interpretation cassandra_cell: copied_cell cassandra_value cassandra_cells Cassandra_DeepCopyInto cassandras put_cassandra
  by (intro copied_cell.intro cell_types deep_copy_as [OF deep_copy_struct [OF spec_cell.deep_copy_axioms,
        where parts = p_Spec and rebuild = "\<lambda>c s. c\<lparr>p_Spec := s\<rparr>"
          and build = "\<lambda>c s. \<lparr>Name = p_Name c, Namespace = p_Namespace c, Spec = s\<rparr>"]])
    (auto simp: fun_eq_iff cassandra_value_def cassandra_cells_def Cassandra_DeepCopyInto_def)

interpretation items_cell: copied_cell items_value items_cells items_DeepCopyInto cassandra_arrays put_cassandras
  by (intro copied_cell.intro cell_types deep_copy_as [OF deep_copy_traverse [OF cassandra_cell.deep_copy_axioms]])
    (auto simp: fun_eq_iff items_value_def items_cells_def items_DeepCopyInto_def)

interpretation list_cell: copied_cell list_value list_cells CassandraList_DeepCopyInto cassandra_lists put_list
  by (intro copied_cell.intro cell_types deep_copy_as [OF deep_copy_struct [OF items_cell.pointer.deep_copy_axioms,
        where parts = p_Items and rebuild = "\<lambda>l p. l\<lparr>p_Items := p\<rparr>" and build = "\<lambda>l v. v"]])
    (auto simp: fun_eq_iff list_value_def list_cells_def CassandraList_DeepCopyInto_def)

section \<open>Copies are isolated\<close>

definition definition_at :: "store \<Rightarrow> addr option \<Rightarrow> Cassandra option" where
  "definition_at h p = pointer_value cassandras cassandra_value h p"

definition definition_cells :: "store \<Rightarrow> addr option \<Rightarrow> addr set" where
  "definition_cells h p = pointer_cells cassandras cassandra_cells h p"

lemma Cassandra_DeepCopyObject_eq: "Cassandra_DeepCopyObject p = Cassandra_DeepCopy p"
proof -
  have "(\<lambda>c :: addr option. State_Monad.return (case c of Some a \<Rightarrow> Some a | None \<Rightarrow> None)) =
      (State_Monad.return :: addr option \<Rightarrow> (store, addr option) state)"
    by (auto simp: fun_eq_iff split: option.split)
  then show ?thesis by (simp add: Cassandra_DeepCopyObject_def)
qed

text \<open>
  (C19) A deep copy of a definition has the value of the original and leaves the original as it is.
  From then on they are apart: whatever is written to cells that existed before the copy, the copy
  keeps its value, and whatever is written to cells of the copy, the original keeps its own.
\<close>

theorem Cassandra_DeepCopy_isolates:
  assumes "definition_cells h p \<subseteq> {..<limit h}" and "run_state (Cassandra_DeepCopyObject p) h = (q, h')"
  shows "definition_at h' q = definition_at h p \<and> definition_at h' p = definition_at h p \<and>
    (\<forall>h''. agree {limit h..<limit h'} h' h'' \<longrightarrow> definition_at h'' q = definition_at h p) \<and>
    (\<forall>h''. agree {..<limit h} h' h'' \<longrightarrow> definition_at h'' p = definition_at h p)"
proof -
  have "run_state (copy_pointer cassandras put_cassandra Cassandra_DeepCopyInto p) h = (q, h')"
    using assms(2) by (simp add: Cassandra_DeepCopyObject_eq Cassandra_DeepCopy_def)
  from cassandra_cell.pointer.isolated [OF assms(1) [unfolded definition_cells_def] this]
  show ?thesis by (simp add: definition_at_def)
qed

text \<open>
  A definition at address 1 whose liveness probe is at address 0. After a write through the pointer
  to the probe, the deep copy still has the old one, while a plain copy of the struct, at address
  9, has the new one.
\<close>

definition some_quantity :: Quantity where
  "some_quantity = \<lparr>q_IsZero = False, q_String = ''1'', q_Value = 1, q_MilliValue = 1000, q_repr = 0\<rparr>"

definition some_probe :: "int32 \<Rightarrow> Probe" where
  "some_probe delay = \<lparr>FailureThreshold = 3, InitialDelaySeconds = delay, PeriodSeconds = 10,
     SuccessThreshold = 1, TimeoutSeconds = 5\<rparr>"

definition some_cassandra :: p_Cassandra where
  "some_cassandra = \<lparr>p_Name = ''c'', p_Namespace = ''n'', p_Spec = \<lparr>p_DC = ''dc'', p_Racks = None,
     p_UseEmptyDir = False, p_Pod = \<lparr>p_BootstrapperImage = [], p_Image = [], p_StorageSize = some_quantity,
       p_Memory = some_quantity, p_CPU = some_quantity, p_LivenessProbe = Some 0, p_ReadinessProbe = None\<rparr>,
     p_Snapshot = None\<rparr>\<rparr>"

definition some_store :: store where
  "some_store = \<lparr>limit = 2, int32s = (\<lambda>_. 0), string_arrays = (\<lambda>_. []), probes = (\<lambda>_. some_probe 30),
     rack_cells = (\<lambda>_. \<lparr>Rack_Name = [], Zone = [], StorageClass = [], Replicas = 0\<rparr>), rack_arrays = (\<lambda>_. []),
     policies = (\<lambda>_. \<lparr>p_Enabled = False, p_RetentionPeriodDays = None, p_CleanupSchedule = [], p_CleanupTimeoutSeconds = None\<rparr>),
     snapshots = (\<lambda>_. \<lparr>p_Snapshot_Image = [], p_Schedule = [], p_Keyspaces = None, p_TimeoutSeconds = None, p_RetentionPolicy = None\<rparr>),
     pods = (\<lambda>_. p_Pod (p_Spec some_cassandra)), specs = (\<lambda>_. p_Spec some_cassandra), statuses = (\<lambda>_. ()),
     cassandras = (\<lambda>_. some_cassandra), cassandra_arrays = (\<lambda>_. []), cassandra_lists = (\<lambda>_. \<lparr>p_Items = None\<rparr>)\<rparr>"

lemma Cassandra_DeepCopy_isolates_witness:
  "let h = some_store; (q, h') = run_state (Cassandra_DeepCopyObject (Some 1)) h; h'' = put_probe 0 (some_probe 60) h'
   in definition_at h'' q = definition_at h (Some 1) \<and> definition_at h'' (Some 1) \<noteq> definition_at h (Some 1) \<and>
      definition_at (put_cassandra 9 (cassandras h'' 1) h'') (Some 9) = definition_at h'' (Some 1)"
proof -
  obtain q h' where run: "run_state (Cassandra_DeepCopyObject (Some 1)) some_store = (q, h')"
    by (cases "run_state (Cassandra_DeepCopyObject (Some 1)) some_store")
  have there: "definition_cells some_store (Some 1) \<subseteq> {..<limit some_store}"
    by (simp add: definition_cells_def pointer_cells_def cassandra_cells_def spec_cells_def pod_cells_def no_cells_def
        some_store_def some_cassandra_def)
  note isolates = Cassandra_DeepCopy_isolates [OF there run]
  let ?h = "put_probe 0 (some_probe 60) h'"
  have "agree {limit some_store..<limit h'} h' ?h"
    by (auto simp: agree_def put_probe_def some_store_def)
  with isolates have 1: "definition_at ?h q = definition_at some_store (Some 1)" by blast
  have "agree {..<limit some_store} some_store h'"
    using cassandra_cell.pointer.copies [of some_store "Some 1"] there run
    by (simp add: Cassandra_DeepCopyObject_eq Cassandra_DeepCopy_def definition_cells_def grows_def)
  then have c: "cassandras h' 1 = some_cassandra" by (simp add: agree_def some_store_def)
  then have 2: "definition_at ?h (Some 1) \<noteq> definition_at some_store (Some 1)"
    by (simp add: definition_at_def pointer_value_def cassandra_value_def spec_value_def pod_value_def plain_value_def
        some_store_def some_cassandra_def put_probe_def some_probe_def)
  have 3: "definition_at (put_cassandra 9 (cassandras ?h 1) ?h) (Some 9) = definition_at ?h (Some 1)"
    using c by (simp add: definition_at_def pointer_value_def cassandra_value_def spec_value_def pod_value_def
        plain_value_def put_cassandra_def put_probe_def some_cassandra_def)
  show ?thesis unfolding Let_def run prod.case using 1 2 3 by blast
qed

end
