(* ===== verification/Gauges.thy ===== *)
theory Gauges
  imports Metrics
begin

text \<open>
  The two gauges as \<^verbatim>\<open>cassandra-operator/pkg/metrics/prometheus.go\<close> registers them, and that every
  write the reporter makes fits them. The Prometheus library panics when a gauge is given another
  number of label values than it was declared with, and ignores the deletion of a series whose
  labels have other names.
\<close>

section \<open>Registration\<close>

record GaugeVec =
  gauge_Name :: string
  gauge_Help :: string
  gauge_labels :: "string list"

record clusterMetrics =
  cassandraNodeStatusGauge :: GaugeVec
  clusterSizeGauge :: GaugeVec

definition registerMetrics :: clusterMetrics where
  "registerMetrics =
     \<lparr>cassandraNodeStatusGauge =
        \<lparr>gauge_Name = ''cassandra_node_status'',
         gauge_Help = ''Records 1 if a node is in the given status, and 0 otherwise. Possible values for '' @
           [CHR 0x27] @ ''liveness'' @ [CHR 0x27] @ '' label are: '' @ [CHR 0x27] @ ''up'' @ [CHR 0x27] @ '' and '' @
           [CHR 0x27] @ ''down'' @ [CHR 0x27] @ ''. Possible values for '' @ [CHR 0x27] @ ''state'' @ [CHR 0x27] @
           '' label are: '' @ [CHR 0x27] @ ''normal'' @ [CHR 0x27] @ '', '' @ [CHR 0x27] @ ''leaving'' @ [CHR 0x27] @
           '', '' @ [CHR 0x27] @ ''joining'' @ [CHR 0x27] @ '' and '' @ [CHR 0x27] @ ''moving'' @ [CHR 0x27] @ ''.'',
         gauge_labels = [''cluster'', ''namespace'', ''rack'', ''pod'', ''liveness'', ''state'']\<rparr>,
      clusterSizeGauge =
        \<lparr>gauge_Name = ''cassandra_cluster_size'', gauge_Help = ''Total number of nodes in the Cassandra cluster'',
         gauge_labels = [''cluster'', ''namespace'']\<rparr>\<rparr>"

text \<open>The labels by name, as the deletions give them.\<close>

definition node_label_map :: "Cluster \<Rightarrow> string \<Rightarrow> string \<Rightarrow> labelPair \<Rightarrow> string \<rightharpoonup> string" where
  "node_label_map c rackName podName l =
     [''cluster'' \<mapsto> Cluster_Name c, ''namespace'' \<mapsto> Cluster_Namespace c, ''rack'' \<mapsto> rackName,
      ''pod'' \<mapsto> podName, ''liveness'' \<mapsto> liveness l, ''state'' \<mapsto> state l]"

definition size_label_map :: "Cluster \<Rightarrow> string \<rightharpoonup> string" where
  "size_label_map c = [''cluster'' \<mapsto> Cluster_Name c, ''namespace'' \<mapsto> Cluster_Namespace c]"

text \<open>The series that a map of labels names: the values of the declared labels, when those are its keys.\<close>

definition named_series :: "GaugeVec \<Rightarrow> (string \<rightharpoonup> string) \<Rightarrow> string list option" where
  "named_series g m =
     (if dom m = set (gauge_labels g) then Some (map (\<lambda>n. the (m n)) (gauge_labels g)) else None)"

section \<open>Writes that fit\<close>

definition node_series_ok :: "string list \<Rightarrow> bool" where
  "node_series_ok ls \<longleftrightarrow> length ls = length (gauge_labels (cassandraNodeStatusGauge registerMetrics)) \<and>
     ls ! 4 \<in> {''up'', ''down''} \<and> ls ! 5 \<in> {''normal'', ''leaving'', ''joining'', ''moving''}"

fun fits :: "effect \<Rightarrow> bool" where
  "fits (SetNodeGauge ls x) \<longleftrightarrow> node_series_ok ls \<and> x \<in> {0, 1}"
| "fits (DeleteNodeGauge ls) \<longleftrightarrow> node_series_ok ls"
| "fits (SetSizeGauge ls x) \<longleftrightarrow> length ls = length (gauge_labels (clusterSizeGauge registerMetrics)) \<and> 0 \<le> x"
| "fits (DeleteSizeGauge ls) \<longleftrightarrow> length ls = length (gauge_labels (clusterSizeGauge registerMetrics))"
| "fits _ \<longleftrightarrow> True"

lemma node_labels_ok: "l \<in> set allLabelPairs \<Longrightarrow> node_series_ok (node_labels c rack pod l)"
  by (auto simp: node_series_ok_def node_labels_def registerMetrics_def allLabelPairs_def)

lemma applicable_known: "applicable n \<in> set allLabelPairs"
  by (auto simp: applicable_def allLabelPairs_def livenessLabel_def stateLabel_def)

text \<open>All effects of an action are of a kind.\<close>

definition emits :: "(effect \<Rightarrow> bool) \<Rightarrow> ('a, 'w) action \<Rightarrow> bool" where
  "emits P m \<longleftrightarrow> (\<forall>s a s'. m s = Done a s' \<longrightarrow> (\<exists>es. trace s' = trace s @ es \<and> list_all P es))"

lemma emitsD: "emits P m \<Longrightarrow> m s = Done a s' \<Longrightarrow> \<exists>es. trace s' = trace s @ es \<and> list_all P es"
  by (simp add: emits_def)

lemma emits_bind:
  assumes "emits P m" and "\<And>a. emits P (f a)"
  shows "emits P (bind m f)"
  unfolding emits_def
proof (intro allI impI)
  fix s b s''
  assume "bind m f s = Done b s''"
  then obtain a s' where s': "m s = Done a s'" "f a s' = Done b s''"
    by (auto simp: bind_def split: outcome.splits)
  from emitsD [OF assms(1) s'(1)] emitsD [OF assms(2) s'(2)] obtain es fs
    where "trace s' = trace s @ es" "list_all P es" "trace s'' = trace s' @ fs" "list_all P fs" by blast
  then show "\<exists>es. trace s'' = trace s @ es \<and> list_all P es" by (intro exI [of _ "es @ fs"]) simp
qed

lemma emits_basic:
  "emits P (pass a)" "emits P (gets f)" "emits P (ask g)"
  "list_all P es \<Longrightarrow> emits P (performs es)" "P e \<Longrightarrow> emits P (perform e)"
  "emits P (modify (\<lambda>s. s\<lparr>topology := h (topology s)\<rparr>))"
  by (auto simp: emits_def pass_def gets_def ask_def performs_def perform_def modify_def Let_def split: prod.splits)

lemma emits_seq: "emits P m \<Longrightarrow> emits P n \<Longrightarrow> emits P (seq m n)"
  unfolding seq_def by (rule emits_bind)

lemma emits_asks:
  assumes "asks m"
  shows "emits fits m"
  unfolding emits_def
proof (intro allI impI)
  fix s a s' assume "m s = Done a s'"
  from asksD [OF assms this] obtain rs where "trace s' = trace s @ map Request rs" by auto
  then show "\<exists>es. trace s' = trace s @ es \<and> list_all fits es" by (auto simp: list_all_iff)
qed

lemmas emits_rules = emits_bind emits_seq emits_basic

lemma emits_updateNodeStatus: "emits fits (updateNodeStatus c rack pod n)"
  unfolding updateNodeStatus_def
  by (rule emits_basic) (auto simp: list_all_iff unapplicableLabelPairs_def intro!: node_labels_ok applicable_known)

lemma emits_RemoveNode: "emits fits (RemoveNodeFromMetrics c pod rack)"
  unfolding RemoveNodeFromMetrics_def
  by (rule emits_basic) (auto simp: list_all_iff intro: node_labels_ok)

lemma emits_report_nodes: "emits fits (report_nodes c cs podNames statuses ips nodes)"
  by (induction ips arbitrary: nodes)
    (auto simp: Let_def intro!: emits_rules emits_updateNodeStatus split: option.split)

lemma emits_remove_nodes: "emits fits (remove_nodes c nodes pods)"
  by (induction pods) (auto intro!: emits_rules emits_RemoveNode split: option.split)

lemma emits_UpdateMetrics: "emits fits (UpdateMetrics env c)"
  unfolding UpdateMetrics_def report_status_def range_order_def Let_def
  by (auto simp: size_labels_def registerMetrics_def
      intro!: emits_rules emits_report_nodes emits_asks [OF asks_podsInCluster] emits_asks [OF asks_GatherMetricsFor]
      split: sum.split)

lemma emits_DeleteMetrics: "emits fits (DeleteMetrics env c)"
  unfolding DeleteMetrics_def range_order_def
  by (auto simp: size_labels_def registerMetrics_def intro!: emits_rules emits_remove_nodes split: option.split)

text \<open>
  (C40) The reporter uses the gauges as they are declared: every series it writes or deletes has as many
  label values as the gauge has labels, with the liveness and state that the help text lists; a
  node's value is 0 or 1 and a size is not negative. And the labels by which it deletes a series name
  the very series that it writes.
\<close>

theorem gauge_writes_fit:
  assumes "UpdateMetrics env c s = Done () s' \<or> DeleteMetrics env c s = Done () s'"
  shows "(\<exists>es. trace s' = trace s @ es \<and> list_all fits es) \<and>
    named_series (cassandraNodeStatusGauge registerMetrics) (node_label_map c rack pod l) = Some (node_labels c rack pod l) \<and>
    named_series (clusterSizeGauge registerMetrics) (size_label_map c) = Some (size_labels c)"
proof -
  have "\<exists>es. trace s' = trace s @ es \<and> list_all fits es"
    using assms emitsD [OF emits_UpdateMetrics] emitsD [OF emits_DeleteMetrics] by blast
  moreover have "named_series (cassandraNodeStatusGauge registerMetrics) (node_label_map c rack pod l) =
      Some (node_labels c rack pod l)"
    by (auto simp: named_series_def registerMetrics_def node_label_map_def node_labels_def)
  moreover have "named_series (clusterSizeGauge registerMetrics) (size_label_map c) = Some (size_labels c)"
    by (auto simp: named_series_def registerMetrics_def size_label_map_def size_labels_def)
  ultimately show ?thesis by simp
qed

lemma gauge_writes_fit_witness: "\<exists>es. trace metrics_sys = trace sample_sys @ es \<and> list_all fits es"
  using gauge_writes_fit [of metrics_env sample_cluster sample_sys metrics_sys] metrics_sys by blast

end
