(* ===== verification/Nodetool.thy ===== *)
theory Nodetool
  imports GoDuration "HOL-Library.State_Monad" "HOL-Library.Sublist"
begin

text \<open>
  The commands that the snapshot jobs run in Cassandra's pods, after
  \<^verbatim>\<open>cassandra-snapshot/pkg/nodetool/nodetool.go\<close>, and the choice of the snapshots to delete, after
  \<^verbatim>\<open>cassandra-snapshot/pkg/snapshot/filter/filter.go\<close>. Running a command in a pod is a request to
  the Kubernetes API server: what comes back is a parameter that acts on a world of any type.
\<close>

section \<open>Running a command\<close>

record tool_Pod =
  tp_Name :: string
  tp_Namespace :: string

text \<open>
  The outcome of a request: the executor could not be made, or the command was streamed and wrote to
  its two outputs, ending with an error or not. An error of the remote command carries its exit
  code.
\<close>

datatype stream_error = ExitError int string | OtherError string

datatype exec_outcome =
    NoExecutor string
  | Streamed string string "stream_error option"

text \<open>The errors of the source, each with the command line and the two outputs.\<close>

datatype command_error =
    ExecutorFailed string
  | ExitCode string int string string string
  | UnknownExitCode string string string string
  | WroteToStdErr string string string
  | ListingFailed string command_error

record 'w Access =
  list_tool_pods :: "string \<Rightarrow> string \<Rightarrow> 'w \<Rightarrow> (string + tool_Pod list) \<times> 'w"
  exec_in_pod :: "tool_Pod \<Rightarrow> Duration \<Rightarrow> string list \<Rightarrow> 'w \<Rightarrow> exec_outcome \<times> 'w"
  unix_now :: "'w \<Rightarrow> int \<times> 'w"

text \<open>The state of a run: the world, and the commands run so far with the pods they ran in.\<close>

record 'w tool =
  tool_world :: 'w
  commands :: "(tool_Pod \<times> string list) list"

type_synonym ('w, 'a) tool_action = "('w tool, 'a) state"

definition on_world :: "('w \<Rightarrow> 'a \<times> 'w) \<Rightarrow> ('w, 'a) tool_action" where
  "on_world f = State (\<lambda>s. (fst (f (tool_world s)), s\<lparr>tool_world := snd (f (tool_world s))\<rparr>))"

definition exec_logged :: "'w Access \<Rightarrow> tool_Pod \<Rightarrow> Duration \<Rightarrow> string list \<Rightarrow> ('w, exec_outcome) tool_action" where
  "exec_logged acc pod timeout args =
     State (\<lambda>s. (fst (exec_in_pod acc pod timeout args (tool_world s)),
       s\<lparr>tool_world := snd (exec_in_pod acc pod timeout args (tool_world s)),
         commands := commands s @ [(pod, args)]\<rparr>))"

lemma run_tool [simp]:
  "run_state (on_world f) s = (fst (f (tool_world s)), s\<lparr>tool_world := snd (f (tool_world s))\<rparr>)"
  "run_state (exec_logged acc pod timeout args) s =
     (fst (exec_in_pod acc pod timeout args (tool_world s)),
       s\<lparr>tool_world := snd (exec_in_pod acc pod timeout args (tool_world s)),
         commands := commands s @ [(pod, args)]\<rparr>)"
  by (simp_all add: on_world_def exec_logged_def)

definition command_result :: "string list \<Rightarrow> exec_outcome \<Rightarrow> command_error + string" where
  "command_result args outcome =
     (let line = Join args '' ''
      in case outcome of
           NoExecutor err \<Rightarrow> Inl (ExecutorFailed err)
         | Streamed stdOut stdErr (Some (ExitError code err)) \<Rightarrow> Inl (ExitCode line code err stdOut stdErr)
         | Streamed stdOut stdErr (Some (OtherError err)) \<Rightarrow> Inl (UnknownExitCode line err stdOut stdErr)
         | Streamed stdOut stdErr None \<Rightarrow>
             (if stdErr \<noteq> [] then Inl (WroteToStdErr line stdOut stdErr) else Inr stdOut))"

definition runCommand ::
    "'w Access \<Rightarrow> tool_Pod \<Rightarrow> Duration \<Rightarrow> string list \<Rightarrow> ('w, command_error + string) tool_action" where
  "runCommand acc pod timeout args =
     do { outcome \<leftarrow> exec_logged acc pod timeout args; State_Monad.return (command_result args outcome) }"

section \<open>Snapshots\<close>

record nodetool_Snapshot =
  Snapshot_Name :: string
  Keyspace :: string
  ColumnFamily :: string

definition snapshot_command :: "int \<Rightarrow> string list \<Rightarrow> string list" where
  "snapshot_command timestamp keyspaces = [''nodetool'', ''snapshot'', ''-t'', itoa timestamp] @ keyspaces"

definition CreateSnapshot ::
    "'w Access \<Rightarrow> int \<Rightarrow> string list \<Rightarrow> tool_Pod \<Rightarrow> Duration \<Rightarrow> ('w, command_error option) tool_action" where
  "CreateSnapshot acc snapshotTimestamp keyspaces pod snapshotCreationTimeout =
     do { r \<leftarrow> runCommand acc pod snapshotCreationTimeout (snapshot_command snapshotTimestamp keyspaces);
          State_Monad.return (case r of Inl err \<Rightarrow> Some err | Inr _ \<Rightarrow> None) }"

definition delete_command :: "nodetool_Snapshot \<Rightarrow> string list" where
  "delete_command snapshot =
     [''nodetool'', ''clearsnapshot'', ''-t'', Snapshot_Name snapshot, ''--'', Keyspace snapshot]"

definition DeleteSnapshot ::
    "'w Access \<Rightarrow> tool_Pod \<Rightarrow> nodetool_Snapshot \<Rightarrow> Duration \<Rightarrow> ('w, command_error option) tool_action" where
  "DeleteSnapshot acc pod snapshot timeout =
     do { r \<leftarrow> runCommand acc pod timeout (delete_command snapshot);
          State_Monad.return (case r of Inl err \<Rightarrow> Some err | Inr _ \<Rightarrow> None) }"

text \<open>
  The expression \<^verbatim>\<open>^(\d+) +(\w+) +(\w+)\<close> on a line. The three classes of characters are disjoint
  from the space, so each group is the longest run of its class.
\<close>

definition word_char :: "char \<Rightarrow> bool" where
  "word_char c \<longleftrightarrow> is_digit c \<or> c = CHR ''_'' \<or>
     65 \<le> (of_char c :: nat) \<and> (of_char c :: nat) \<le> 90 \<or>
     97 \<le> (of_char c :: nat) \<and> (of_char c :: nat) \<le> 122"

definition group :: "(char \<Rightarrow> bool) \<Rightarrow> string \<Rightarrow> (string \<times> string) option" where
  "group P s = (if takeWhile P s = [] then None else Some (takeWhile P s, dropWhile P s))"

definition blanks :: "string \<Rightarrow> string option" where
  "blanks s = map_option snd (group (\<lambda>c. c = CHR '' '') s)"

definition match_line :: "string \<Rightarrow> nodetool_Snapshot option" where
  "match_line line =
     do { (name, s1) \<leftarrow> group is_digit line;
          s2 \<leftarrow> blanks s1;
          (keyspace, s3) \<leftarrow> group word_char s2;
          s4 \<leftarrow> blanks s3;
          (family, s5) \<leftarrow> group word_char s4;
          Some \<lparr>Snapshot_Name = name, Keyspace = keyspace, ColumnFamily = family\<rparr> }"

definition parse_listing :: "string \<Rightarrow> nodetool_Snapshot list" where
  "parse_listing output = List.map_filter match_line (Split output (CHR 0x0A))"

definition GetSnapshots ::
    "'w Access \<Rightarrow> tool_Pod \<Rightarrow> Duration \<Rightarrow> (nodetool_Snapshot list \<Rightarrow> nodetool_Snapshot list) \<Rightarrow>
     ('w, command_error + nodetool_Snapshot list) tool_action" where
  "GetSnapshots acc pod timeout snapshot_filter =
     do { r \<leftarrow> runCommand acc pod timeout [''nodetool'', ''listsnapshots''];
          State_Monad.return (case r of
            Inl err \<Rightarrow> Inl (ListingFailed (tp_Name pod) err)
          | Inr output \<Rightarrow> Inr (snapshot_filter (parse_listing output))) }"

section \<open>The filter\<close>

fun select_loop :: "int \<Rightarrow> nodetool_Snapshot list \<Rightarrow> nodetool_Snapshot list \<Rightarrow> nodetool_Snapshot list" where
  "select_loop cutoff selected [] = selected"
| "select_loop cutoff selected (snapshot # snapshots) =
     (case Atoi (Snapshot_Name snapshot) of
        Inl err \<Rightarrow> select_loop cutoff selected snapshots
      | Inr snapshotTime \<Rightarrow>
          (if snapshotTime < cutoff then
             (let found = (\<exists>x \<in> set selected. Snapshot_Name x = Snapshot_Name snapshot \<and> Keyspace x = Keyspace snapshot)
              in select_loop cutoff (if found then selected else selected @ [snapshot]) snapshots)
           else select_loop cutoff selected snapshots))"

definition OutsideRetentionPeriod :: "int \<Rightarrow> nodetool_Snapshot list \<Rightarrow> nodetool_Snapshot list" where
  "OutsideRetentionPeriod retentionCutoff snapshots = select_loop retentionCutoff [] snapshots"

text \<open>What is old: a name that is a number of seconds before the cutoff.\<close>

definition old_snapshot :: "int \<Rightarrow> nodetool_Snapshot \<Rightarrow> bool" where
  "old_snapshot cutoff x \<longleftrightarrow> (\<exists>t. Atoi (Snapshot_Name x) = Inr t \<and> t < cutoff)"

definition snapshot_key :: "nodetool_Snapshot \<Rightarrow> string \<times> string" where
  "snapshot_key x = (Snapshot_Name x, Keyspace x)"

text \<open>The first element of each key, in order.\<close>

fun first_of_each :: "('a \<Rightarrow> 'k) \<Rightarrow> 'k set \<Rightarrow> 'a list \<Rightarrow> 'a list" where
  "first_of_each key seen [] = []"
| "first_of_each key seen (x # xs) =
     (if key x \<in> seen then first_of_each key seen xs else x # first_of_each key (insert (key x) seen) xs)"

lemma select_loop_eq:
  "select_loop cutoff selected xs =
     selected @ first_of_each snapshot_key (snapshot_key ` set selected) (filter (old_snapshot cutoff) xs)"
proof (induction xs arbitrary: selected)
  case (Cons x xs)
  have key: "snapshot_key x \<in> snapshot_key ` set selected \<longleftrightarrow>
      (\<exists>y \<in> set selected. Snapshot_Name y = Snapshot_Name x \<and> Keyspace y = Keyspace x)"
    by (simp add: snapshot_key_def image_iff eq_commute)
  show ?case
    by (cases "Atoi (Snapshot_Name x)") (auto simp: Cons.IH old_snapshot_def Let_def key [symmetric])
qed simp

lemma first_of_each_props:
  "set (first_of_each key seen xs) \<subseteq> set xs"
  "distinct (map key (first_of_each key seen xs))"
  "key ` set (first_of_each key seen xs) = key ` set xs - seen"
  "subseq (first_of_each key seen xs) xs"
  by (induction xs arbitrary: seen) auto

text \<open>
  (C20) The filter selects, in their order, exactly the first snapshot of each name and keyspace among
  those whose name is a time before the cutoff: nothing else is selected, nothing old is missed
  and no pair of name and keyspace is selected twice.
\<close>

theorem OutsideRetentionPeriod_correct:
  "OutsideRetentionPeriod cutoff xs = first_of_each snapshot_key {} (filter (old_snapshot cutoff) xs) \<and>
   subseq (OutsideRetentionPeriod cutoff xs) xs \<and>
   distinct (map snapshot_key (OutsideRetentionPeriod cutoff xs)) \<and>
   snapshot_key ` set (OutsideRetentionPeriod cutoff xs) = snapshot_key ` {x \<in> set xs. old_snapshot cutoff x} \<and>
   (\<forall>x \<in> set (OutsideRetentionPeriod cutoff xs). old_snapshot cutoff x)"
proof -
  let ?old = "filter (old_snapshot cutoff) xs"
  have eq: "OutsideRetentionPeriod cutoff xs = first_of_each snapshot_key {} ?old"
    by (simp add: OutsideRetentionPeriod_def select_loop_eq)
  have "subseq (first_of_each snapshot_key {} ?old) xs"
    using first_of_each_props(4) [of snapshot_key "{}" ?old] by (rule subseq_order.trans) (rule subseq_filter_left)
  moreover have "snapshot_key ` set (first_of_each snapshot_key {} ?old) = snapshot_key ` {x \<in> set xs. old_snapshot cutoff x}"
    using first_of_each_props(3) [of snapshot_key "{}" ?old] by simp
  moreover have "\<forall>x \<in> set (first_of_each snapshot_key {} ?old). old_snapshot cutoff x"
    using first_of_each_props(1) [of snapshot_key "{}" ?old] by auto
  ultimately show ?thesis unfolding eq using first_of_each_props(2) by blast
qed

lemma OutsideRetentionPeriod_correct_witness:
  "OutsideRetentionPeriod 5 [\<lparr>Snapshot_Name = ''3'', Keyspace = ''a'', ColumnFamily = ''x''\<rparr>,
     \<lparr>Snapshot_Name = ''3'', Keyspace = ''a'', ColumnFamily = ''y''\<rparr>,
     \<lparr>Snapshot_Name = ''7'', Keyspace = ''a'', ColumnFamily = ''x''\<rparr>] \<noteq> []"
proof -
  let ?xs = "[\<lparr>Snapshot_Name = ''3'', Keyspace = ''a'', ColumnFamily = ''x''\<rparr>,
     \<lparr>Snapshot_Name = ''3'', Keyspace = ''a'', ColumnFamily = ''y''\<rparr>,
     \<lparr>Snapshot_Name = ''7'', Keyspace = ''a'', ColumnFamily = ''x''\<rparr>]"
  have "first_of_each snapshot_key {} (filter (old_snapshot 5) ?xs) \<noteq> []"
    by (simp add: old_snapshot_def Atoi_def Let_def is_digit_def undec_def digit_val_def)
  with OutsideRetentionPeriod_correct [of 5 ?xs] show ?thesis by metis
qed

section \<open>The contract of a filter\<close>

text \<open>
  What the client of a filter relies on: it only selects from what it is given, and asks for no
  deletion twice.
\<close>

locale snapshot_filter =
  fixes select :: "nodetool_Snapshot list \<Rightarrow> nodetool_Snapshot list"
    and wanted :: "nodetool_Snapshot \<Rightarrow> bool"
  assumes selected: "x \<in> set (select xs) \<Longrightarrow> x \<in> set xs \<and> wanted x"
    and once: "distinct (map snapshot_key (select xs))"
    and complete: "x \<in> set xs \<Longrightarrow> wanted x \<Longrightarrow> \<exists>y \<in> set (select xs). snapshot_key y = snapshot_key x"
begin

lemma GetSnapshots_selects:
  assumes "fst (run_state (GetSnapshots acc pod timeout select) s) = Inr found"
  shows "\<exists>output. found = select (parse_listing output) \<and>
    (\<forall>x \<in> set found. x \<in> set (parse_listing output) \<and> wanted x) \<and> distinct (map snapshot_key found)"
  using assms selected once
  by (auto simp: GetSnapshots_def runCommand_def split: sum.splits)

lemma nothing_wanted: "\<forall>x \<in> set xs. \<not> wanted x \<Longrightarrow> select xs = []"
  using selected [of "hd (select xs)" xs] by (cases "select xs") auto

end

interpretation retention: snapshot_filter "OutsideRetentionPeriod cutoff" "old_snapshot cutoff" for cutoff
proof
  have eq: "OutsideRetentionPeriod cutoff xs = first_of_each snapshot_key {} (filter (old_snapshot cutoff) xs)" for xs
    by (simp add: OutsideRetentionPeriod_def select_loop_eq)
  fix xs x
  show "x \<in> set (OutsideRetentionPeriod cutoff xs) \<Longrightarrow> x \<in> set xs \<and> old_snapshot cutoff x"
    using first_of_each_props(1) [of snapshot_key "{}" "filter (old_snapshot cutoff) xs"] unfolding eq by auto
  show "distinct (map snapshot_key (OutsideRetentionPeriod cutoff xs))"
    unfolding eq by (rule first_of_each_props)
  assume "x \<in> set xs" "old_snapshot cutoff x"
  then have "snapshot_key x \<in> snapshot_key ` set (OutsideRetentionPeriod cutoff xs)"
    unfolding eq first_of_each_props(3) by auto
  then show "\<exists>y \<in> set (OutsideRetentionPeriod cutoff xs). snapshot_key y = snapshot_key x" by force
qed

section \<open>The listing\<close>

text \<open>A row of the listing: three columns separated by spaces, and then anything on the line.\<close>

record row =
  row_snapshot :: nodetool_Snapshot
  row_gap1 :: nat
  row_gap2 :: nat
  row_rest :: string

definition print_row :: "row \<Rightarrow> string" where
  "print_row r = Snapshot_Name (row_snapshot r) @ replicate (Suc (row_gap1 r)) CHR '' '' @
     Keyspace (row_snapshot r) @ replicate (Suc (row_gap2 r)) CHR '' '' @ ColumnFamily (row_snapshot r) @ row_rest r"

definition row_ok :: "row \<Rightarrow> bool" where
  "row_ok r \<longleftrightarrow>
     (let x = row_snapshot r in
        Snapshot_Name x \<noteq> [] \<and> list_all is_digit (Snapshot_Name x) \<and>
        Keyspace x \<noteq> [] \<and> list_all word_char (Keyspace x) \<and>
        ColumnFamily x \<noteq> [] \<and> list_all word_char (ColumnFamily x)) \<and>
     (row_rest r = [] \<or> \<not> word_char (hd (row_rest r))) \<and> CHR 0x0A \<notin> set (row_rest r)"

lemma group_run:
  assumes "xs \<noteq> []" and "list_all P xs" and "ys = [] \<or> \<not> P (hd ys)"
  shows "group P (xs @ ys) = Some (xs, ys)"
proof -
  have all: "\<And>c. c \<in> set xs \<Longrightarrow> P c" using assms(2) by (simp add: list_all_iff)
  then have "takeWhile P (xs @ ys) = xs" "dropWhile P (xs @ ys) = ys"
    using assms(3) by (cases ys; simp)+
  with assms(1) show ?thesis by (simp add: group_def)
qed

lemma blanks_run: "xs \<noteq> [] \<Longrightarrow> hd xs \<noteq> CHR '' '' \<Longrightarrow> blanks (replicate (Suc n) CHR '' '' @ xs) = Some xs"
  unfolding blanks_def by (subst group_run) (simp_all add: list_all_iff)

lemma classes: "\<not> is_digit CHR '' ''" "\<not> word_char CHR '' ''" "\<not> is_digit CHR 0x0A" "\<not> word_char CHR 0x0A"
  by code_simp+

lemma match_print_row:
  assumes "row_ok r"
  shows "match_line (print_row r) = Some (row_snapshot r)"
proof -
  let ?x = "row_snapshot r"
  note ok = assms [unfolded row_ok_def Let_def]
  have hd: "hd (Keyspace ?x @ ys) \<noteq> CHR '' ''" "hd (ColumnFamily ?x @ ys) \<noteq> CHR '' ''" for ys
    using ok classes(2) by (auto simp: neq_Nil_conv)
  have 1: "group is_digit (print_row r) = Some (Snapshot_Name ?x, replicate (Suc (row_gap1 r)) CHR '' '' @
     Keyspace ?x @ replicate (Suc (row_gap2 r)) CHR '' '' @ ColumnFamily ?x @ row_rest r)"
    unfolding print_row_def using ok by (intro group_run) (simp_all add: classes)
  have 2: "blanks (replicate (Suc (row_gap1 r)) CHR '' '' @ Keyspace ?x @ replicate (Suc (row_gap2 r)) CHR '' '' @
      ColumnFamily ?x @ row_rest r) = Some (Keyspace ?x @ replicate (Suc (row_gap2 r)) CHR '' '' @ ColumnFamily ?x @ row_rest r)"
    using ok hd by (intro blanks_run) simp_all
  have 3: "group word_char (Keyspace ?x @ replicate (Suc (row_gap2 r)) CHR '' '' @ ColumnFamily ?x @ row_rest r) =
      Some (Keyspace ?x, replicate (Suc (row_gap2 r)) CHR '' '' @ ColumnFamily ?x @ row_rest r)"
    using ok by (intro group_run) (simp_all add: classes)
  have 4: "blanks (replicate (Suc (row_gap2 r)) CHR '' '' @ ColumnFamily ?x @ row_rest r) = Some (ColumnFamily ?x @ row_rest r)"
    using ok hd by (intro blanks_run) simp_all
  have 5: "group word_char (ColumnFamily ?x @ row_rest r) = Some (ColumnFamily ?x, row_rest r)"
    using ok by (intro group_run) simp_all
  show ?thesis
    unfolding match_line_def by (simp only: 1 2 3 4 5 Option.bind.bind_lunit prod.case) simp
qed

lemma no_newline:
  assumes "row_ok r"
  shows "CHR 0x0A \<notin> set (print_row r)"
proof -
  have "CHR 0x0A \<notin> set xs" if "list_all P xs" "\<not> P CHR 0x0A" for P :: "char \<Rightarrow> bool" and xs
    using that by (auto simp: list_all_iff)
  with assms classes show ?thesis by (auto simp: row_ok_def print_row_def Let_def)
qed

text \<open>
  (C32) The listing is read back: whatever rows nodetool prints, with any number of spaces between
  the columns and anything after them, and whatever headings it prints that do not look like a row,
  exactly the snapshots of the rows are found, in order.
\<close>

theorem parse_listing_roundtrip:
  assumes "\<forall>l \<in> set lines. case l of Inl heading \<Rightarrow> match_line heading = None \<and> CHR 0x0A \<notin> set heading
      | Inr r \<Rightarrow> row_ok r"
    and "lines \<noteq> []"
  shows "parse_listing (Join (map (\<lambda>l. case l of Inl heading \<Rightarrow> heading | Inr r \<Rightarrow> print_row r) lines) [CHR 0x0A]) =
    map row_snapshot (List.map_filter (\<lambda>l. case l of Inl heading \<Rightarrow> None | Inr r \<Rightarrow> Some r) lines)"
proof -
  let ?print = "\<lambda>l. case l of Inl heading \<Rightarrow> heading | Inr r \<Rightarrow> print_row r"
  have "Split (Join (map ?print lines) [CHR 0x0A]) CHR 0x0A = map ?print lines"
    using assms no_newline by (intro Split_Join) (auto split: sum.splits)
  moreover have "List.map_filter match_line (map ?print lines) =
      map row_snapshot (List.map_filter (\<lambda>l. case l of Inl heading \<Rightarrow> None | Inr r \<Rightarrow> Some r) lines)"
    using assms(1)
    by (induction lines) (auto simp: List.map_filter_def match_print_row split: sum.splits)
  ultimately show ?thesis by (simp add: parse_listing_def)
qed

lemma parse_listing_roundtrip_witness:
  "parse_listing (''Snapshot Details:'' @ [CHR 0x0A] @ ''1531 ks1  t 1 KiB'') =
     [\<lparr>Snapshot_Name = ''1531'', Keyspace = ''ks1'', ColumnFamily = ''t''\<rparr>]"
proof -
  let ?r = "\<lparr>row_snapshot = \<lparr>Snapshot_Name = ''1531'', Keyspace = ''ks1'', ColumnFamily = ''t''\<rparr>,
    row_gap1 = 0, row_gap2 = 1, row_rest = '' 1 KiB''\<rparr>"
  have "row_ok ?r" "match_line ''Snapshot Details:'' = None" by code_simp+
  then have "\<forall>l \<in> set [Inl ''Snapshot Details:'', Inr ?r]. case l of
      Inl heading \<Rightarrow> match_line heading = None \<and> CHR 0x0A \<notin> set heading | Inr r \<Rightarrow> row_ok r"
    by simp
  from parse_listing_roundtrip [OF this] show ?thesis
    by (simp add: List.map_filter_def print_row_def)
qed

end
