(* ===== verification/SnapshotTool.thy ===== *)
theory SnapshotTool
  imports Nodetool
begin

text \<open>
  The snapshot jobs: taking a snapshot on every pod of a cluster and deleting the snapshots that
  are older than the retention period, after \<^verbatim>\<open>cassandra-snapshot/pkg/snapshot/snapshot.go\<close> and the
  commands of \<^verbatim>\<open>cassandra-snapshot/cmd/\<close>.
\<close>

section \<open>Configuration\<close>

record CreateConfig =
  cc_Keyspaces :: "string list"
  cc_Namespace :: string
  cc_PodLabel :: string
  cc_SnapshotTimeout :: Duration

record CleanupConfig =
  cl_Namespace :: string
  cl_RetentionPeriod :: Duration
  cl_Keyspaces :: "string list"
  cl_PodLabel :: string
  cl_CleanupTimeout :: Duration

datatype manipulator_error =
    PodsNotListed string string
  | NoPodsFound string string
  | CreationFailed "string list"
  | CleanupFailed "string list"

section \<open>Taking snapshots\<close>

text \<open>What both jobs do first: find the pods, and give up when there are none.\<close>

definition for_pods ::
    "'w Access \<Rightarrow> string \<Rightarrow> string \<Rightarrow> (tool_Pod list \<Rightarrow> ('w, manipulator_error option) tool_action) \<Rightarrow>
     ('w, manipulator_error option) tool_action" where
  "for_pods acc ns label body =
     do { r \<leftarrow> on_world (list_tool_pods acc ns label);
          (case r of
             Inl err \<Rightarrow> State_Monad.return (Some (PodsNotListed label err))
           | Inr pods \<Rightarrow>
               (if length pods = 0 then State_Monad.return (Some (NoPodsFound label ns)) else body pods)) }"

definition create_on ::
    "'w Access \<Rightarrow> CreateConfig \<Rightarrow> int \<Rightarrow> tool_Pod \<Rightarrow> ('w, string list) tool_action" where
  "create_on acc config timestamp pod =
     do { err \<leftarrow> CreateSnapshot acc timestamp (cc_Keyspaces config) pod (cc_SnapshotTimeout config);
          State_Monad.return (if err = None then [] else [tp_Name pod]) }"

definition DoCreate :: "'w Access \<Rightarrow> CreateConfig \<Rightarrow> ('w, manipulator_error option) tool_action" where
  "DoCreate acc config =
     for_pods acc (cc_Namespace config) (cc_PodLabel config) (\<lambda>pods.
       do { snapshotTimestamp \<leftarrow> on_world (unix_now acc);
            failed \<leftarrow> State_Monad.traverse_list (create_on acc config snapshotTimestamp) pods;
            State_Monad.return (if concat failed = [] then None else Some (CreationFailed (concat failed))) })"

section \<open>Deleting old snapshots\<close>

definition findSnapshotsToDelete ::
    "'w Access \<Rightarrow> tool_Pod \<Rightarrow> CleanupConfig \<Rightarrow> int \<Rightarrow>
     ('w, command_error + nodetool_Snapshot list) tool_action" where
  "findSnapshotsToDelete acc pod config retentionCutoff =
     GetSnapshots acc pod (cl_CleanupTimeout config) (OutsideRetentionPeriod retentionCutoff)"

definition delete_on ::
    "'w Access \<Rightarrow> CleanupConfig \<Rightarrow> tool_Pod \<Rightarrow> nodetool_Snapshot \<Rightarrow> ('w, string list) tool_action" where
  "delete_on acc config pod snapshot =
     do { err \<leftarrow> DeleteSnapshot acc pod snapshot (cl_CleanupTimeout config);
          State_Monad.return (if err = None then [] else [tp_Name pod]) }"

definition cleanup_on ::
    "'w Access \<Rightarrow> CleanupConfig \<Rightarrow> int \<Rightarrow> tool_Pod \<Rightarrow> ('w, string list) tool_action" where
  "cleanup_on acc config retentionCutoff pod =
     do { found \<leftarrow> findSnapshotsToDelete acc pod config retentionCutoff;
          failed \<leftarrow> State_Monad.traverse_list (delete_on acc config pod)
            (case found of Inl err \<Rightarrow> [] | Inr snapshotsToDelete \<Rightarrow> snapshotsToDelete);
          State_Monad.return ((case found of Inl err \<Rightarrow> [tp_Name pod] | Inr _ \<Rightarrow> []) @ concat failed) }"

definition retention_cutoff :: "CleanupConfig \<Rightarrow> int \<Rightarrow> int" where
  "retention_cutoff config now = now - int64_of_float (Duration_Seconds (cl_RetentionPeriod config))"

definition DoCleanup :: "'w Access \<Rightarrow> CleanupConfig \<Rightarrow> ('w, manipulator_error option) tool_action" where
  "DoCleanup acc config =
     for_pods acc (cl_Namespace config) (cl_PodLabel config) (\<lambda>pods.
       do { now \<leftarrow> on_world (unix_now acc);
            failed \<leftarrow> State_Monad.traverse_list (cleanup_on acc config (retention_cutoff config now)) pods;
            State_Monad.return (if concat failed = [] then None else Some (CleanupFailed (concat failed))) })"

section \<open>The commands\<close>

text \<open>The flags of the two commands; parsing a command line is up to the library.\<close>

record snapshot_flags =
  keyspaces :: "string list"
  podLabel :: string
  fl_namespace :: string
  retentionPeriod :: Duration
  cleanupTimeout :: Duration
  snapshotTimeout :: Duration

definition default_snapshot_flags :: snapshot_flags where
  "default_snapshot_flags = \<lparr>keyspaces = [], podLabel = [], fl_namespace = [],
     retentionPeriod = 7 * 24 * Hour, cleanupTimeout = 10 * Second, snapshotTimeout = 10 * Second\<rparr>"

text \<open>The exit status of the process.\<close>

definition exit_status :: "manipulator_error option \<Rightarrow> int" where
  "exit_status err = (if err = None then 0 else 1)"

definition cleanupSnapshot :: "'w Access \<Rightarrow> snapshot_flags \<Rightarrow> ('w, int) tool_action" where
  "cleanupSnapshot acc flags =
     do { err \<leftarrow> DoCleanup acc \<lparr>cl_Namespace = fl_namespace flags, cl_RetentionPeriod = retentionPeriod flags,
            cl_Keyspaces = keyspaces flags, cl_PodLabel = podLabel flags,
            cl_CleanupTimeout = cleanupTimeout flags\<rparr>;
          State_Monad.return (exit_status err) }"

definition createSnapshot :: "'w Access \<Rightarrow> snapshot_flags \<Rightarrow> ('w, int) tool_action" where
  "createSnapshot acc flags =
     do { err \<leftarrow> DoCreate acc \<lparr>cc_Keyspaces = keyspaces flags, cc_Namespace = fl_namespace flags,
            cc_PodLabel = podLabel flags, cc_SnapshotTimeout = snapshotTimeout flags\<rparr>;
          State_Monad.return (exit_status err) }"

section \<open>What the jobs run\<close>

text \<open>An action that appends commands to the log, related to its result by \<open>Q\<close>.\<close>

definition runs :: "('w, 'a) tool_action \<Rightarrow> ('a \<Rightarrow> (tool_Pod \<times> string list) list \<Rightarrow> bool) \<Rightarrow> bool" where
  "runs m Q \<longleftrightarrow> (\<forall>s. \<exists>cs. commands (snd (run_state m s)) = commands s @ cs \<and> Q (fst (run_state m s)) cs)"

lemma runsD: "runs m Q \<Longrightarrow> \<exists>cs. commands (snd (run_state m s)) = commands s @ cs \<and> Q (fst (run_state m s)) cs"
  by (simp add: runs_def)

lemma runs_weaken: "runs m Q \<Longrightarrow> (\<And>a cs. Q a cs \<Longrightarrow> R a cs) \<Longrightarrow> runs m R"
  unfolding runs_def by meson

lemma runs_return: "Q a [] \<Longrightarrow> runs (State_Monad.return a) Q"
  by (simp add: runs_def)

lemma runs_bind:
  assumes "runs m P" and "\<And>a cs. P a cs \<Longrightarrow> runs (f a) (\<lambda>b ds. Q b (cs @ ds))"
  shows "runs (State_Monad.bind m f) Q"
  unfolding runs_def
proof
  fix s
  obtain a t where m: "run_state m s = (a, t)" by (cases "run_state m s")
  from runsD [OF assms(1), of s] m obtain cs where cs: "commands t = commands s @ cs" "P a cs" by auto
  from runsD [OF assms(2) [OF cs(2)], of t] cs(1)
  show "\<exists>cs. commands (snd (run_state (State_Monad.bind m f) s)) = commands s @ cs \<and>
      Q (fst (run_state (State_Monad.bind m f) s)) cs"
    by (auto simp: m)
qed

lemma runs_on_world: "(\<And>w. Q (fst (f w)) []) \<Longrightarrow> runs (on_world f) Q"
  by (simp add: runs_def)

lemma runs_traverse:
  assumes "\<And>x. x \<in> set xs \<Longrightarrow> runs (f x) (B x)"
  shows "runs (State_Monad.traverse_list f xs) (\<lambda>rs cs. \<exists>css. length rs = length xs \<and> length css = length xs \<and>
    cs = concat css \<and> (\<forall>i < length xs. B (xs ! i) (rs ! i) (css ! i)))"
  using assms
proof (induction xs)
  case (Cons x xs)
  show ?case
    unfolding State_Monad.traverse_list.simps
  proof (rule runs_bind [OF Cons.prems [OF list.set_intros(1)]])
    fix r ds assume r: "B x r ds"
    show "runs (State_Monad.bind (State_Monad.traverse_list f xs) (\<lambda>rs. State_Monad.return (r # rs)))
      (\<lambda>rs cs. \<exists>css. length rs = length (x # xs) \<and> length css = length (x # xs) \<and> ds @ cs = concat css \<and>
        (\<forall>i < length (x # xs). B ((x # xs) ! i) (rs ! i) (css ! i)))"
    proof (rule runs_bind [OF Cons.IH])
      fix rs cs
      assume "\<exists>css. length rs = length xs \<and> length css = length xs \<and> cs = concat css \<and>
        (\<forall>i < length xs. B (xs ! i) (rs ! i) (css ! i))"
      then obtain css where "length rs = length xs" "length css = length xs" "cs = concat css"
        "\<forall>i < length xs. B (xs ! i) (rs ! i) (css ! i)" by blast
      with r show "runs (State_Monad.return (r # rs)) (\<lambda>rs es. \<exists>css. length rs = length (x # xs) \<and>
          length css = length (x # xs) \<and> ds @ cs @ es = concat css \<and>
          (\<forall>i < length (x # xs). B ((x # xs) ! i) (rs ! i) (css ! i)))"
        by (intro runs_return exI [of _ "ds # css"]) (auto simp: less_Suc_eq_0_disj)
    qed (use Cons.prems in simp)
  qed
qed (simp add: runs_return)

lemma runs_runCommand: "runs (runCommand acc pod timeout args) (\<lambda>r cs. cs = [(pod, args)])"
  unfolding runCommand_def by (simp add: runs_def)

lemma runs_CreateSnapshot:
  "runs (CreateSnapshot acc t ks pod timeout) (\<lambda>r cs. cs = [(pod, snapshot_command t ks)])"
  unfolding CreateSnapshot_def by (rule runs_bind [OF runs_runCommand]) (simp add: runs_return)

lemma runs_DeleteSnapshot:
  "runs (DeleteSnapshot acc pod x timeout) (\<lambda>r cs. cs = [(pod, delete_command x)])"
  unfolding DeleteSnapshot_def by (rule runs_bind [OF runs_runCommand]) (simp add: runs_return)

definition listing_command :: "string list" where
  "listing_command = [''nodetool'', ''listsnapshots'']"

lemma runs_GetSnapshots:
  assumes "snapshot_filter select wanted"
  shows "runs (GetSnapshots acc pod timeout select) (\<lambda>r cs. cs = [(pod, listing_command)] \<and>
    (\<forall>xs. r = Inr xs \<longrightarrow> (\<forall>x \<in> set xs. wanted x)))"
  using snapshot_filter.selected [OF assms]
  by (auto simp: runs_def GetSnapshots_def runCommand_def listing_command_def split: sum.split)

lemma runs_create_on:
  "runs (create_on acc config t pod) (\<lambda>names cs. cs = [(pod, snapshot_command t (cc_Keyspaces config))] \<and>
     (names = [] \<or> names = [tp_Name pod]))"
  unfolding create_on_def by (rule runs_bind [OF runs_CreateSnapshot]) (auto intro: runs_return)

lemma concat_singletons: "length css = length xs \<Longrightarrow> \<forall>i < length xs. css ! i = [f (xs ! i)] \<Longrightarrow> concat css = map f xs"
proof (induction xs arbitrary: css)
  case (Cons x xs)
  then obtain cs css' where css: "css = cs # css'" by (cases css) auto
  have "concat css' = map f xs" using Cons.prems by (intro Cons.IH) (auto simp: css)
  moreover have "cs = [f x]" using Cons.prems(2) by (force simp: css)
  ultimately show ?case by (simp add: css)
qed simp

lemma subseq_concat_names:
  "length rs = length xs \<Longrightarrow> \<forall>i < length xs. rs ! i = [] \<or> rs ! i = [f (xs ! i)] \<Longrightarrow> subseq (concat rs) (map f xs)"
proof (induction xs arbitrary: rs)
  case (Cons x xs)
  then obtain r rs' where rs: "rs = r # rs'" by (cases rs) auto
  have "subseq (concat rs') (map f xs)" using Cons.prems by (intro Cons.IH) (auto simp: rs less_Suc_eq_0_disj)
  moreover have "r = [] \<or> r = [f x]" using Cons.prems(2) by (force simp: rs)
  ultimately show ?case by (auto simp: rs)
qed simp

lemma runs_create_all:
  "runs (State_Monad.traverse_list (create_on acc config t) pods) (\<lambda>rs cs.
     cs = map (\<lambda>pod. (pod, snapshot_command t (cc_Keyspaces config))) pods \<and>
     subseq (concat rs) (map tp_Name pods))"
proof (rule runs_weaken, rule runs_traverse, rule runs_create_on)
  fix rs cs
  assume "\<exists>css. length rs = length pods \<and> length css = length pods \<and> cs = concat css \<and>
    (\<forall>i < length pods. css ! i = [(pods ! i, snapshot_command t (cc_Keyspaces config))] \<and>
      (rs ! i = [] \<or> rs ! i = [tp_Name (pods ! i)]))"
  then show "cs = map (\<lambda>pod. (pod, snapshot_command t (cc_Keyspaces config))) pods \<and>
      subseq (concat rs) (map tp_Name pods)"
    using concat_singletons [of _ pods "\<lambda>pod. (pod, snapshot_command t (cc_Keyspaces config))"]
      subseq_concat_names [of rs pods tp_Name] by blast
qed


text \<open>A cluster of two pods: the first command in \<open>p\<close> fails, \<open>q\<close> lists a snapshot of time 5 and one of time 900000.\<close>

definition sample_access :: "nat Access" where
  "sample_access = \<lparr>
     list_tool_pods = (\<lambda>ns label w. (Inr [\<lparr>tp_Name = ''p'', tp_Namespace = ns\<rparr>, \<lparr>tp_Name = ''q'', tp_Namespace = ns\<rparr>], w)),
     exec_in_pod = (\<lambda>pod timeout args w.
       (if w = 0 then Streamed [] ''no'' None
        else Streamed (''5 ks t 1 KiB'' @ [CHR 0x0A] @ ''900000 ks t 1 KiB'') [] None, Suc w)),
     unix_now = (\<lambda>w. (800000, w))\<rparr>"


lemma runs_delete_on:
  "runs (delete_on acc config pod x) (\<lambda>names cs. cs = [(pod, delete_command x)])"
  unfolding delete_on_def by (rule runs_bind [OF runs_DeleteSnapshot]) (simp add: runs_return)

lemma listing_not_delete: "listing_command \<noteq> delete_command x"
  by (simp add: listing_command_def delete_command_def)

lemma runs_cleanup_on:
  "runs (cleanup_on acc config cutoff pod) (\<lambda>names cs. \<exists>xs. cs = (pod, listing_command) # map (\<lambda>x. (pod, delete_command x)) xs \<and>
     (\<forall>x \<in> set xs. old_snapshot cutoff x))"
  unfolding cleanup_on_def findSnapshotsToDelete_def
proof (rule runs_bind [OF runs_GetSnapshots [OF retention.snapshot_filter_axioms]])
  fix found :: "command_error + nodetool_Snapshot list" and ds
  assume found: "ds = [(pod, listing_command)] \<and> (\<forall>xs. found = Inr xs \<longrightarrow> (\<forall>x \<in> set xs. old_snapshot cutoff x))"
  let ?xs = "case found of Inl err \<Rightarrow> [] | Inr xs \<Rightarrow> xs"
  have old: "\<forall>x \<in> set ?xs. old_snapshot cutoff x" using found by (cases found) auto
  show "runs (State_Monad.bind (State_Monad.traverse_list (delete_on acc config pod) ?xs)
      (\<lambda>failed. State_Monad.return ((case found of Inl err \<Rightarrow> [tp_Name pod] | Inr _ \<Rightarrow> []) @ concat failed)))
    (\<lambda>names cs. \<exists>xs. ds @ cs = (pod, listing_command) # map (\<lambda>x. (pod, delete_command x)) xs \<and>
      (\<forall>x \<in> set xs. old_snapshot cutoff x))"
  proof (rule runs_bind [OF runs_traverse [OF runs_delete_on]], rule runs_return)
    fix rs :: "string list list" and cs
    assume "\<exists>css. length rs = length ?xs \<and> length css = length ?xs \<and> cs = concat css \<and>
      (\<forall>i < length ?xs. css ! i = [(pod, delete_command (?xs ! i))])"
    then have "cs = map (\<lambda>x. (pod, delete_command x)) ?xs"
      using concat_singletons [of _ ?xs "\<lambda>x. (pod, delete_command x)"] by blast
    with found old show "\<exists>xs. ds @ cs @ [] = (pod, listing_command) # map (\<lambda>x. (pod, delete_command x)) xs \<and>
      (\<forall>x \<in> set xs. old_snapshot cutoff x)" by (intro exI [of _ ?xs]) simp
  qed
qed

lemma runs_cleanup_all:
  "runs (State_Monad.traverse_list (cleanup_on acc config cutoff) pods) (\<lambda>rs cs.
     \<exists>deleted. length deleted = length pods \<and> (\<forall>xs \<in> set deleted. \<forall>x \<in> set xs. old_snapshot cutoff x) \<and>
       cs = concat (map (\<lambda>(pod, xs). (pod, listing_command) # map (\<lambda>x. (pod, delete_command x)) xs) (zip pods deleted)))"
proof (rule runs_weaken, rule runs_traverse, rule runs_cleanup_on)
  fix rs :: "string list list" and cs
  assume "\<exists>css. length rs = length pods \<and> length css = length pods \<and> cs = concat css \<and>
    (\<forall>i < length pods. \<exists>xs. css ! i = (pods ! i, listing_command) # map (\<lambda>x. (pods ! i, delete_command x)) xs \<and>
      (\<forall>x \<in> set xs. old_snapshot cutoff x))"
  then obtain css f where css: "length css = length pods" "cs = concat css" and f: "\<And>i. i < length pods \<Longrightarrow>
      css ! i = (pods ! i, listing_command) # map (\<lambda>x. (pods ! i, delete_command x)) (f i) \<and>
      (\<forall>x \<in> set (f i). old_snapshot cutoff x)" by metis
  let ?deleted = "map f [0..<length pods]"
  have "css = map (\<lambda>(pod, xs). (pod, listing_command) # map (\<lambda>x. (pod, delete_command x)) xs) (zip pods ?deleted)"
    by (rule nth_equalityI) (simp_all add: css f)
  then show "\<exists>deleted. length deleted = length pods \<and> (\<forall>xs \<in> set deleted. \<forall>x \<in> set xs. old_snapshot cutoff x) \<and>
       cs = concat (map (\<lambda>(pod, xs). (pod, listing_command) # map (\<lambda>x. (pod, delete_command x)) xs) (zip pods deleted))"
    using css(2) f by (intro exI [of _ ?deleted]) simp
qed

text \<open>
  (C10) Cleaning up: every pod is asked for its snapshots, in order and whatever failed on the pods
  before, and each command that deletes names a snapshot whose name is a time before the cutoff,
  on the pod that was just asked.
\<close>

theorem DoCleanup_deletes_only_old:
  assumes "list_tool_pods acc (cl_Namespace config) (cl_PodLabel config) (tool_world s) = (Inr pods, w)"
    and "pods \<noteq> []" and "run_state (DoCleanup acc config) s = (r, t)"
  shows "\<exists>deleted. length deleted = length pods \<and>
    commands t = commands s @ concat (map (\<lambda>(pod, xs).
      (pod, listing_command) # map (\<lambda>x. (pod, delete_command x)) xs) (zip pods deleted)) \<and>
    (\<forall>xs \<in> set deleted. \<forall>x \<in> set xs. old_snapshot (retention_cutoff config (fst (unix_now acc w))) x)"
proof -
  let ?now = "fst (unix_now acc w)"
  let ?cutoff = "retention_cutoff config ?now"
  let ?s = "s\<lparr>tool_world := snd (unix_now acc w)\<rparr>"
  obtain rs u where run: "run_state (State_Monad.traverse_list (cleanup_on acc config ?cutoff) pods) ?s = (rs, u)"
    by (cases "run_state (State_Monad.traverse_list (cleanup_on acc config ?cutoff) pods) ?s")
  have t: "t = u" using assms run by (auto simp: DoCleanup_def for_pods_def)
  from runsD [OF runs_cleanup_all [of acc config ?cutoff pods], of ?s] run t show ?thesis by auto
qed

lemma DoCleanup_deletes_only_old_witness:
  "let config = \<lparr>cl_Namespace = ''ns'', cl_RetentionPeriod = durationDays 7, cl_Keyspaces = [],
         cl_PodLabel = ''l'', cl_CleanupTimeout = Second\<rparr>;
       t = snd (run_state (DoCleanup sample_access config) \<lparr>tool_world = 0, commands = []\<rparr>)
   in \<exists>c cs. commands t = c # cs \<and> tp_Name (fst c) = ''p''"
  using DoCleanup_deletes_only_old [OF _ _ prod.collapse [symmetric], where acc = sample_access and
      config = "\<lparr>cl_Namespace = ''ns'', cl_RetentionPeriod = durationDays 7, cl_Keyspaces = [],
         cl_PodLabel = ''l'', cl_CleanupTimeout = Second\<rparr>" and
      s = "\<lparr>tool_world = 0, commands = []\<rparr>"]
  by (force simp: sample_access_def Let_def length_Suc_conv)

lemma delete_on_keyspaces [simp]: "delete_on acc (config\<lparr>cl_Keyspaces := ks\<rparr>) pod = delete_on acc config pod"
  by (simp add: fun_eq_iff delete_on_def)

lemma cleanup_on_keyspaces [simp]: "cleanup_on acc (config\<lparr>cl_Keyspaces := ks\<rparr>) cutoff = cleanup_on acc config cutoff"
  by (simp add: fun_eq_iff cleanup_on_def findSnapshotsToDelete_def)

lemma DoCleanup_keyspaces: "DoCleanup acc (config\<lparr>cl_Keyspaces := ks\<rparr>) = DoCleanup acc config"
  by (simp add: DoCleanup_def retention_cutoff_def)

text \<open>
  The keyspaces that the cleanup is asked for make no difference: it deletes the old
  snapshots of all keyspaces.
\<close>

theorem DoCleanup_ignores_keyspaces:
  "cleanupSnapshot acc (flags\<lparr>keyspaces := ks\<rparr>) = cleanupSnapshot acc flags"
  using DoCleanup_keyspaces [where acc = acc and ks = ks and config = "\<lparr>cl_Namespace = fl_namespace flags, cl_RetentionPeriod = retentionPeriod flags,
    cl_Keyspaces = keyspaces flags, cl_PodLabel = podLabel flags, cl_CleanupTimeout = cleanupTimeout flags\<rparr>"]
  by (simp add: cleanupSnapshot_def)



end
