(* ===== verification/ParseDuration.thy ===== *)
theory ParseDuration
  imports GoDuration
begin

text \<open>
  Go's \<open>time.ParseDuration\<close> (standard library, \<^verbatim>\<open>time/format.go\<close>), with which the snapshot tool reads
  the durations of its flags, and that it reads back what \<open>Duration.String\<close> prints for the whole
  seconds that the operator passes to it.
\<close>

section \<open>The parser\<close>

definition max_int64 :: int where
  "max_int64 = 9223372036854775807"

text \<open>The leading digits as a number, which an \<open>int64\<close> must hold, and the rest.\<close>

fun leadingInt :: "string \<Rightarrow> int \<Rightarrow> (int \<times> string) option" where
  "leadingInt [] x = Some (x, [])"
| "leadingInt (c # s) x =
     (if \<not> is_digit c then Some (x, c # s)
      else if x > max_int64 div 10 then None
      else if x * 10 + int (digit_val c) > max_int64 then None
      else leadingInt s (x * 10 + int (digit_val c)))"

text \<open>The digits of a fraction: their number, a power of ten, and the rest. Digits too many are dropped.\<close>

fun leadingFraction :: "string \<Rightarrow> int \<Rightarrow> rat \<Rightarrow> bool \<Rightarrow> int \<times> rat \<times> string" where
  "leadingFraction [] x scale overflow = (x, scale, [])"
| "leadingFraction (c # s) x scale overflow =
     (if \<not> is_digit c then (x, scale, c # s)
      else if overflow \<or> x > max_int64 div 10 \<or> x * 10 + int (digit_val c) > max_int64
        then leadingFraction s x scale True
      else leadingFraction s (x * 10 + int (digit_val c)) (float64 (scale * 10)) False)"

text \<open>The micro sign has two encodings.\<close>

definition unitMap :: "string \<Rightarrow> int option" where
  "unitMap u =
     (if u = ''ns'' then Some 1
      else if u \<in> {''us'', [CHR 0xC2, CHR 0xB5, CHR ''s''], [CHR 0xCE, CHR 0xBC, CHR ''s'']} then Some 1000
      else if u = ''ms'' then Some 1000000
      else if u = ''s'' then Some 1000000000
      else if u = ''m'' then Some 60000000000
      else if u = ''h'' then Some 3600000000000
      else None)"

definition unit_char :: "char \<Rightarrow> bool" where
  "unit_char c \<longleftrightarrow> c \<noteq> CHR ''.'' \<and> \<not> is_digit c"

text \<open>The number before a unit: its whole part, its fraction, the scale of the fraction, and the rest.\<close>

definition parse_number :: "string \<Rightarrow> (int \<times> int \<times> rat \<times> string) option" where
  "parse_number s =
     (if s = [] \<or> \<not> (hd s = CHR ''.'' \<or> is_digit (hd s)) then None
      else case leadingInt s 0 of
        None \<Rightarrow> None
      | Some (v, s1) \<Rightarrow>
          (let (f, scale, s2) = (if s1 \<noteq> [] \<and> hd s1 = CHR ''.'' then leadingFraction (tl s1) 0 1 False else (0, 1, s1));
               pre = (length s \<noteq> length s1);
               post = (s1 \<noteq> [] \<and> hd s1 = CHR ''.'' \<and> length (tl s1) \<noteq> length s2)
           in if \<not> pre \<and> \<not> post then None else Some (v, f, scale, s2)))"

text \<open>A number and its unit in nanoseconds, and the rest.\<close>

definition parse_part :: "string \<Rightarrow> (int \<times> string) option" where
  "parse_part s =
     (case parse_number s of
        None \<Rightarrow> None
      | Some (v, f, scale, s2) \<Rightarrow>
          (case unitMap (takeWhile unit_char s2) of
             None \<Rightarrow> None
           | Some u \<Rightarrow>
               (let v1 = v * u;
                    v2 = (if f > 0 then v1 + int64_of_float (float64 (float64 (of_int f) * float64 (of_int u / scale))) else v1)
                in if v > max_int64 div u \<or> v2 > max_int64 then None
                   else Some (v2, dropWhile unit_char s2))))"

lemma leadingInt_length: "leadingInt s x = Some (v, t) \<Longrightarrow> length t \<le> length s"
  by (induction s x rule: leadingInt.induct) (auto split: if_splits)

lemma leadingFraction_length: "leadingFraction s x scale ov = (v, sc, t) \<Longrightarrow> length t \<le> length s"
  by (induction s x scale ov rule: leadingFraction.induct) (auto split: if_splits)

lemma unit_nonempty: "unitMap u = Some n \<Longrightarrow> u \<noteq> []"
  by (auto simp: unitMap_def split: if_splits)

lemma parse_number_length:
  assumes "parse_number s = Some (v, f, scale, t)"
  shows "length t \<le> length s"
proof -
  from assms obtain s1 where s1: "leadingInt s 0 = Some (v, s1)"
    and "t = s1 \<or> leadingFraction (tl s1) 0 1 False = (f, scale, t)"
    by (auto simp: parse_number_def Let_def split: if_splits option.splits prod.splits)
  then have "length t \<le> length s1" by (auto dest: leadingFraction_length)
  with leadingInt_length [OF s1] show ?thesis by simp
qed

lemma parse_part_shorter:
  assumes "parse_part s = Some (v, t)"
  shows "length t < length s"
proof -
  from assms obtain w f scale s2 u where s2: "parse_number s = Some (w, f, scale, s2)"
    and u: "unitMap (takeWhile unit_char s2) = Some u" and t: "t = dropWhile unit_char s2"
    by (auto simp: parse_part_def Let_def split: option.splits prod.splits if_splits)
  have "length s2 = length (takeWhile unit_char s2) + length t"
    unfolding t by (metis takeWhile_dropWhile_id length_append)
  with unit_nonempty [OF u] have "length t < length s2" by simp
  with parse_number_length [OF s2] show ?thesis by simp
qed

function parse_parts :: "string \<Rightarrow> int \<Rightarrow> int option" where
  "parse_parts s d =
     (if s = [] then Some d
      else case parse_part s of
        None \<Rightarrow> None
      | Some (v, t) \<Rightarrow> (if d + v > max_int64 then None else parse_parts t (d + v)))"
  by pat_completeness auto
termination
  by (relation "measure (\<lambda>(s, d). length s)") (auto dest: parse_part_shorter)

declare parse_parts.simps [simp del]

definition ParseDuration :: "string \<Rightarrow> Duration option" where
  "ParseDuration s =
     (let neg = (s \<noteq> [] \<and> hd s = CHR ''-'');
          s1 = (if s \<noteq> [] \<and> (hd s = CHR ''-'' \<or> hd s = CHR ''+'') then tl s else s)
      in if s1 = ''0'' then Some 0
         else if s1 = [] then None
         else map_option (\<lambda>d. word_of_int (if neg then - d else d)) (parse_parts s1 0))"

section \<open>Reading what was printed\<close>

lemma leadingInt_digits:
  assumes "list_all is_digit ds" and "0 \<le> x"
    and "foldl (\<lambda>n c. n * 10 + int (digit_val c)) x ds \<le> max_int64"
    and "rest = [] \<or> \<not> is_digit (hd rest)"
  shows "leadingInt (ds @ rest) x = Some (foldl (\<lambda>n c. n * 10 + int (digit_val c)) x ds, rest)"
  using assms
proof (induction ds arbitrary: x)
  case Nil
  then show ?case by (cases rest) auto
next
  case (Cons c ds)
  let ?y = "x * 10 + int (digit_val c)"
  have mono: "y \<le> foldl (\<lambda>n c. n * 10 + int (digit_val c)) y ds" if "0 \<le> y" for y
    using that
  proof (induction ds arbitrary: y)
    case (Cons a ds)
    have "y \<le> y * 10 + int (digit_val a)" "0 \<le> y * 10 + int (digit_val a)" using Cons.prems by simp_all
    with Cons.IH [of "y * 10 + int (digit_val a)"] show ?case by simp
  qed simp
  have y: "0 \<le> ?y" "?y \<le> max_int64" using Cons.prems mono [of ?y] by simp_all
  then have "x \<le> max_int64 div 10" using Cons.prems(2) by (simp add: max_int64_def)
  with y Cons show ?case by simp
qed

lemma foldl_undec: "foldl (\<lambda>n c. n * 10 + int (digit_val c)) (int x) ds = int (foldl (\<lambda>n c. 10 * n + digit_val c) x ds)"
proof (induction ds arbitrary: x)
  case (Cons c ds)
  have eq: "int x * 10 + int (digit_val c) = int (10 * x + digit_val c)" by simp
  show ?case by (simp only: foldl.simps eq Cons.IH)
qed simp

lemma leadingInt_dec:
  assumes "int n \<le> max_int64" and "rest = [] \<or> \<not> is_digit (hd rest)"
  shows "leadingInt (dec n @ rest) 0 = Some (int n, rest)"
proof -
  have "foldl (\<lambda>n c. n * 10 + int (digit_val c)) 0 (dec n) = int n"
    using foldl_undec [of 0 "dec n"] undec_dec [of n] by (simp add: undec_def)
  with leadingInt_digits [of "dec n" 0 rest] assms show ?thesis by simp
qed

text \<open>A number in front of a unit, followed by nothing or by the next number.\<close>

lemma parse_part_dec:
  assumes "unitMap u = Some k" and "list_all unit_char u" and "0 < k" and "int n * k \<le> max_int64"
    and "rest = [] \<or> is_digit (hd rest)"
  shows "parse_part (dec n @ u @ rest) = Some (int n * k, rest)"
proof -
  have u: "u \<noteq> []" by (rule unit_nonempty [OF assms(1)])
  have hd: "is_digit (hd (dec n))" using dec_hd [of n] by (cases "dec n") auto
  have hdu: "\<not> is_digit (hd (u @ rest))" "hd (u @ rest) \<noteq> CHR ''.''"
    using u assms(2) by (cases u; simp add: unit_char_def)+
  have "int n \<le> int n * k" using assms(3) by (simp add: mult_le_cancel_left1)
  then have n: "int n \<le> max_int64" using assms(4) by simp
  have num: "parse_number (dec n @ u @ rest) = Some (int n, 0, 1, u @ rest)"
    using hd hdu u leadingInt_dec [OF n, of "u @ rest"]
    by (simp add: parse_number_def Let_def hd_append)
  have un: "takeWhile unit_char (u @ rest) = u" "dropWhile unit_char (u @ rest) = rest"
    using assms(2,5) by (cases rest; auto simp: list_all_iff takeWhile_append unit_char_def)+
  have "int n \<le> max_int64 div k"
    using zdiv_mono1 [OF assms(4,3)] assms(3) by simp
  with num un assms(1,4) show ?thesis by (simp add: parse_part_def Let_def)
qed

lemma parse_parts_dec:
  assumes "unitMap u = Some k" and "list_all unit_char u" and "0 < k" and "0 \<le> d" and "d + int n * k \<le> max_int64"
    and "rest = [] \<or> is_digit (hd rest)"
  shows "parse_parts (dec n @ u @ rest) d = parse_parts rest (d + int n * k)"
proof -
  have "int n * k \<le> max_int64" using assms(3-5) by simp
  from parse_part_dec [OF assms(1-3) this assms(6)] assms(5) show ?thesis
    by (subst parse_parts.simps) simp
qed

lemma unit_texts [simp]:
  "unitMap ''h'' = Some 3600000000000" "unitMap ''m'' = Some 60000000000" "unitMap ''s'' = Some 1000000000"
  "unit_char CHR ''h''" "unit_char CHR ''m''" "unit_char CHR ''s''"
  by (simp_all add: unitMap_def unit_char_def is_digit_def)

lemma hd_dec [simp]: "is_digit (hd (dec n))"
  using dec_hd [of n] by (cases "dec n") auto

lemma parse_parts_hms:
  assumes "int s * 1000000000 \<le> max_int64"
  shows "parse_parts (hms s) 0 = Some (int s * 1000000000)"
proof -
  let ?h = "s div 3600" and ?m = "s div 60 mod 60" and ?s = "s mod 60"
  have split: "int ?h * 3600000000000 + int ?m * 60000000000 + int ?s * 1000000000 = int s * 1000000000"
  proof -
    have "a * 60 * 60 = a * (3600 :: nat)" for a by simp
    moreover have "(s div 60 div 60 * 60 + ?m) * 60 + ?s = s" by (simp only: div_mult_mod_eq)
    moreover have "s div 60 div 60 = ?h" by (simp flip: div_mult2_eq)
    ultimately have "s = ?h * 3600 + ?m * 60 + ?s" by (simp only: add_mult_distrib)
    moreover have "int a * 3600000000000 + int b * 60000000000 + int c * 1000000000 = int n * 1000000000"
      if "n = a * 3600 + b * 60 + c" for a b c n using that by simp
    ultimately show ?thesis by blast
  qed
  have last: "parse_parts (dec ?s @ ''s'') d = Some (d + int ?s * 1000000000)"
    if "0 \<le> d" "d + int ?s * 1000000000 \<le> max_int64" for d
    using parse_parts_dec [of "''s''" 1000000000 d ?s "[]"] that by (simp add: parse_parts.simps [of "[]"])
  have mins: "parse_parts (dec ?m @ ''m'' @ dec ?s @ ''s'') d = Some (d + int ?m * 60000000000 + int ?s * 1000000000)"
    if "0 \<le> d" "d + int ?m * 60000000000 + int ?s * 1000000000 \<le> max_int64" for d
    using parse_parts_dec [of "''m''" 60000000000 d ?m "dec ?s @ ''s''"] last [of "d + int ?m * 60000000000"] that by simp
  have hours: "parse_parts (dec ?h @ ''h'' @ dec ?m @ ''m'' @ dec ?s @ ''s'') 0 = Some (int s * 1000000000)"
    using parse_parts_dec [of "''h''" 3600000000000 0 ?h "dec ?m @ ''m'' @ dec ?s @ ''s''"]
      mins [of "int ?h * 3600000000000"] split assms by simp
  consider "s < 60" | "60 \<le> s" "s < 3600" | "3600 \<le> s" by linarith
  then show ?thesis
  proof cases
    case 1
    then have "?s = s" by simp
    with 1 last [of 0] assms show ?thesis by (simp add: hms_def)
  next
    case 2
    then have "?h = 0" by simp
    with 2 mins [of 0] split assms show ?thesis by (simp add: hms_def)
  next
    case 3
    with hours show ?thesis by (simp add: hms_def)
  qed
qed

lemma hms_text: "hms s \<noteq> []" "is_digit (hd (hms s))" "hms s \<noteq> ''0''"
proof -
  have *: "dec n @ CHR ''s'' # x \<noteq> ''0''" "dec n @ CHR ''m'' # x \<noteq> ''0''" "dec n @ CHR ''h'' # x \<noteq> ''0''" for n x
    by (cases "dec n"; simp)+
  show "hms s \<noteq> []" "is_digit (hd (hms s))" "hms s \<noteq> ''0''"
    by (auto simp: hms_def hd_append *)
qed

text \<open>
  The durations that are whole seconds and not negative are read back from what they print as.
\<close>

theorem ParseDuration_String:
  assumes "sint d = int s * 1000000000"
  shows "ParseDuration (Duration_String d) = Some d"
proof -
  have "sint d < 2 ^ 63" using sint_range_size [of d] by (simp add: word_size)
  then have "int s * 1000000000 \<le> max_int64" using assms by (simp add: max_int64_def)
  note parts = parse_parts_hms [OF this]
  have "hd (hms s) \<noteq> CHR ''-''" "hd (hms s) \<noteq> CHR ''+''"
    using hms_text(2) [of s] by (auto simp: is_digit_def)
  moreover have "word_of_int (int s * 1000000000) = d" by (simp flip: assms)
  ultimately show ?thesis
    using parts hms_text(1,3) [of s] by (simp add: ParseDuration_def Duration_String_seconds [OF assms] Let_def)
qed

end
