(* ===== verification/SnapshotMain.thy ===== *)
theory SnapshotMain
  imports SnapshotTool Resources ParseDuration
begin

text \<open>
  The command line of the snapshot tool, after \<^verbatim>\<open>cassandra-snapshot/cmd/\<close> and \<open>New\<close> of
  \<^verbatim>\<open>pkg/snapshot/snapshot.go\<close>, and where it meets the operator: the containers of the cron jobs that
  \<^verbatim>\<open>cassandra-operator/pkg/cluster/cluster.go\<close> builds run the tool with the settings of the definition.
\<close>

section \<open>Flags\<close>

datatype tool_command = Create_command | Cleanup_command

definition command_name :: "tool_command \<Rightarrow> string" where
  "command_name cmd = (case cmd of Create_command \<Rightarrow> ''create'' | Cleanup_command \<Rightarrow> ''cleanup'')"

record tool_flags = snapshot_flags +
  tf_logLevel :: string

definition default_tool_flags :: tool_flags where
  "default_tool_flags = snapshot_flags.extend default_snapshot_flags \<lparr>tf_logLevel = ''info''\<rparr>"

text \<open>The declarations: the letter and the name of each flag, those of the root command and those of a command.\<close>

definition root_flags :: "(char \<times> string) list" where
  "root_flags = [(CHR ''k'', ''keyspace''), (CHR ''l'', ''pod-label''), (CHR ''n'', ''namespace''), (CHR ''L'', ''log-level'')]"

definition command_flags :: "tool_command \<Rightarrow> (char \<times> string) list" where
  "command_flags cmd =
     (case cmd of
        Create_command \<Rightarrow> [(CHR ''t'', ''snapshot-timeout'')]
      | Cleanup_command \<Rightarrow> [(CHR ''r'', ''retention-period''), (CHR ''t'', ''cleanup-timeout'')])"

definition shorthand :: "tool_command \<Rightarrow> char \<rightharpoonup> string" where
  "shorthand cmd = map_of (root_flags @ command_flags cmd)"

text \<open>
  A flag that is given a value. A slice of strings is read as comma-separated values and grows with
  each flag, since its default is empty.
\<close>

definition set_flag ::
    "(string \<Rightarrow> string list option) \<Rightarrow> string \<Rightarrow> string \<Rightarrow> tool_flags \<Rightarrow> tool_flags option" where
  "set_flag csv name v f =
     (if name = ''keyspace'' then map_option (\<lambda>ks. f\<lparr>keyspaces := keyspaces f @ ks\<rparr>) (csv v)
      else if name = ''pod-label'' then Some (f\<lparr>podLabel := v\<rparr>)
      else if name = ''namespace'' then Some (f\<lparr>fl_namespace := v\<rparr>)
      else if name = ''log-level'' then Some (f\<lparr>tf_logLevel := v\<rparr>)
      else if name = ''snapshot-timeout'' then map_option (\<lambda>d. f\<lparr>snapshotTimeout := d\<rparr>) (ParseDuration v)
      else if name = ''retention-period'' then map_option (\<lambda>d. f\<lparr>retentionPeriod := d\<rparr>) (ParseDuration v)
      else if name = ''cleanup-timeout'' then map_option (\<lambda>d. f\<lparr>cleanupTimeout := d\<rparr>) (ParseDuration v)
      else None)"

fun set_flags ::
    "(string \<Rightarrow> string list option) \<Rightarrow> (string \<times> string) list \<Rightarrow> tool_flags \<Rightarrow> tool_flags option" where
  "set_flags csv [] f = Some f"
| "set_flags csv ((name, v) # ps) f =
     (case set_flag csv name v f of None \<Rightarrow> None | Some f' \<Rightarrow> set_flags csv ps f')"

section \<open>The program\<close>

text \<open>
  The libraries: finding the command and its flags in the arguments, which gives an error, nothing to
  run (help) or the flags by name; reading comma-separated values; the levels of the logger; and the
  clients of Kubernetes, through which pods are listed and commands run in them.
\<close>

record ('c, 'k, 'w) tool_library =
  parse_command_line :: "string list \<Rightarrow> string + (tool_command \<times> (string \<times> string) list) option"
  read_csv :: "string \<Rightarrow> string list option"
  tool_ParseLevel_ok :: "string \<Rightarrow> bool"
  tool_InClusterConfig :: "string + 'c"
  tool_NewForConfig :: "'c \<Rightarrow> string + 'k"
  tool_access :: "'k \<Rightarrow> 'c \<Rightarrow> 'w Access"

text \<open>Without a configuration or a client the process ends, with status 1: \<open>None\<close>.\<close>

definition tool_kubernetesConfig :: "('c, 'k, 'w) tool_library \<Rightarrow> 'c option" where
  "tool_kubernetesConfig lib = (case tool_InClusterConfig lib of Inl err \<Rightarrow> None | Inr c \<Rightarrow> Some c)"

definition tool_kubernetesClient :: "('c, 'k, 'w) tool_library \<Rightarrow> 'c \<Rightarrow> 'k option" where
  "tool_kubernetesClient lib c = (case tool_NewForConfig lib c of Inl err \<Rightarrow> None | Inr k \<Rightarrow> Some k)"

definition Manipulator_New :: "('c, 'k, 'w) tool_library \<Rightarrow> 'w Access option" where
  "Manipulator_New lib =
     (case tool_kubernetesConfig lib of
        None \<Rightarrow> None
      | Some c \<Rightarrow> (case tool_kubernetesClient lib c of None \<Rightarrow> None | Some k \<Rightarrow> Some (tool_access lib k c)))"

text \<open>The status with which a level that does not parse ends the process.\<close>

definition setLogLevel :: "('c, 'k, 'w) tool_library \<Rightarrow> string \<Rightarrow> int option" where
  "setLogLevel lib level = (if tool_ParseLevel_ok lib level then None else Some 1)"

definition run_command :: "tool_command \<Rightarrow> 'w Access \<Rightarrow> tool_flags \<Rightarrow> ('w, int) tool_action" where
  "run_command cmd acc flags =
     (case cmd of
        Create_command \<Rightarrow> createSnapshot acc (snapshot_flags.truncate flags)
      | Cleanup_command \<Rightarrow> cleanupSnapshot acc (snapshot_flags.truncate flags))"

text \<open>\<open>main\<close>: what it gives is the exit status. The log level is checked before the command runs.\<close>

definition snapshot_main :: "('c, 'k, 'w) tool_library \<Rightarrow> string list \<Rightarrow> ('w, int) tool_action" where
  "snapshot_main lib args =
     (case parse_command_line lib args of
        Inl err \<Rightarrow> State_Monad.return 1
      | Inr None \<Rightarrow> State_Monad.return 0
      | Inr (Some (cmd, pairs)) \<Rightarrow>
          (case set_flags (read_csv lib) pairs default_tool_flags of
             None \<Rightarrow> State_Monad.return 1
           | Some flags \<Rightarrow>
               (case setLogLevel lib (tf_logLevel flags) of
                  Some n \<Rightarrow> State_Monad.return n
                | None \<Rightarrow>
                    (case Manipulator_New lib of
                       None \<Rightarrow> State_Monad.return 1
                     | Some acc \<Rightarrow> run_command cmd acc flags))))"

section \<open>The library for command lines\<close>

text \<open>
  What the operator relies on when it writes the command: a flag given by its letter takes the next
  argument as its value, whatever that is; and plain fields joined by commas are read as those fields.
\<close>

definition letters :: "(char \<times> string) list \<Rightarrow> string list" where
  "letters ps = concat (map (\<lambda>(c, v). [''-'' @ [c], v]) ps)"

definition plain_field :: "string \<Rightarrow> bool" where
  "plain_field k \<longleftrightarrow> k \<noteq> [] \<and> set k \<inter> {CHR '','', CHR 0x22, CHR 0x0A, CHR 0x0D} = {}"

locale command_line =
  fixes parse :: "string list \<Rightarrow> string + (tool_command \<times> (string \<times> string) list) option"
    and csv :: "string \<Rightarrow> string list option"
  assumes parse_letters: "\<forall>(c, v) \<in> set ps. shorthand cmd c \<noteq> None \<Longrightarrow>
      parse (command_name cmd # letters ps) = Inr (Some (cmd, map (\<lambda>(c, v). (the (shorthand cmd c), v)) ps))"
    and csv_plain: "ks \<noteq> [] \<Longrightarrow> \<forall>k \<in> set ks. plain_field k \<Longrightarrow> csv (Join ks '','') = Some ks"

text \<open>A reference implementation: the command first, then letters with their values.\<close>

fun letter_values :: "tool_command \<Rightarrow> string list \<Rightarrow> (string \<times> string) list option" where
  "letter_values cmd [] = Some []"
| "letter_values cmd [a] = None"
| "letter_values cmd (a # v # args) =
     (case a of
        [d, c] \<Rightarrow>
          (case (d = CHR ''-'', shorthand cmd c, letter_values cmd args) of
             (True, Some n, Some ps) \<Rightarrow> Some ((n, v) # ps)
           | _ \<Rightarrow> None)
      | _ \<Rightarrow> None)"

definition parse_ref :: "string list \<Rightarrow> string + (tool_command \<times> (string \<times> string) list) option" where
  "parse_ref args =
     (case args of
        [] \<Rightarrow> Inl ''no command''
      | a # rest \<Rightarrow>
          (let cmd = (if a = ''create'' then Some Create_command else if a = ''cleanup'' then Some Cleanup_command else None)
           in case cmd of
                None \<Rightarrow> Inl ''unknown command''
              | Some cmd \<Rightarrow> (case letter_values cmd rest of None \<Rightarrow> Inl ''bad flag'' | Some ps \<Rightarrow> Inr (Some (cmd, ps)))))"

definition csv_ref :: "string \<Rightarrow> string list option" where
  "csv_ref s = Some (if s = [] then [] else Split s CHR '','')"

lemma letter_values_letters:
  "\<forall>(c, v) \<in> set ps. shorthand cmd c \<noteq> None \<Longrightarrow>
   letter_values cmd (letters ps) = Some (map (\<lambda>(c, v). (the (shorthand cmd c), v)) ps)"
  by (induction ps) (auto simp: letters_def)

interpretation reference: command_line parse_ref csv_ref
proof
  show "parse_ref (command_name cmd # letters ps) = Inr (Some (cmd, map (\<lambda>(c, v). (the (shorthand cmd c), v)) ps))"
    if "\<forall>(c, v) \<in> set ps. shorthand cmd c \<noteq> None" for cmd ps
    using letter_values_letters [OF that] by (cases cmd) (simp_all add: parse_ref_def command_name_def Let_def)
  show "csv_ref (Join ks '','') = Some ks" if "ks \<noteq> []" "\<forall>k \<in> set ks. plain_field k" for ks
  proof -
    have "Join ks '','' \<noteq> []" using that by (cases "(ks, '','' :: string)" rule: Join.cases) (auto simp: plain_field_def)
    moreover have "Split (Join ks '','') CHR '','' = ks"
      using Split_Join [of ks "CHR '',''"] that by (auto simp: plain_field_def)
    ultimately show ?thesis by (simp add: csv_ref_def)
  qed
qed

section \<open>From the operator to the tool\<close>

text \<open>What the definition asks for.\<close>

definition create_settings :: "Cluster \<Rightarrow> Snapshot \<Rightarrow> snapshot_flags" where
  "create_settings c q = default_snapshot_flags\<lparr>keyspaces := elems (Keyspaces q), podLabel := pod_selector c,
     fl_namespace := Cluster_Namespace c,
     snapshotTimeout := (case Snapshot_TimeoutSeconds q of None \<Rightarrow> 10 * Second | Some t \<Rightarrow> durationSeconds t)\<rparr>"

definition cleanup_settings :: "Cluster \<Rightarrow> RetentionPolicy \<Rightarrow> snapshot_flags" where
  "cleanup_settings c r = default_snapshot_flags\<lparr>podLabel := pod_selector c, fl_namespace := Cluster_Namespace c,
     retentionPeriod := (case RetentionPeriodDays r of None \<Rightarrow> 7 * 24 * Hour | Some d \<Rightarrow> durationDays d),
     cleanupTimeout := (case CleanupTimeoutSeconds r of None \<Rightarrow> 10 * Second | Some t \<Rightarrow> durationSeconds t)\<rparr>"

lemma ParseDuration_seconds: "0 \<le> sint t \<Longrightarrow> ParseDuration (Duration_String (durationSeconds t)) = Some (durationSeconds t)"
  by (rule ParseDuration_String [of _ "nat (sint t)"]) (simp add: sint_durationSeconds)

lemma ParseDuration_days:
  "0 \<le> sint d \<Longrightarrow> sint d \<le> 106751 \<Longrightarrow> ParseDuration (Duration_String (durationDays d)) = Some (durationDays d)"
  by (rule ParseDuration_String [of _ "nat (sint d) * 86400"]) (simp add: sint_durationDays_exact)

text \<open>The commands that the operator writes are letters with their values.\<close>

definition create_letters :: "Cluster \<Rightarrow> Snapshot \<Rightarrow> (char \<times> string) list" where
  "create_letters c q = [(CHR ''n'', Cluster_Namespace c), (CHR ''l'', pod_selector c)] @
     (case Snapshot_TimeoutSeconds q of None \<Rightarrow> [] | Some t \<Rightarrow> [(CHR ''t'', Duration_String (durationSeconds t))]) @
     (if elems (Keyspaces q) \<noteq> [] then [(CHR ''k'', Join (elems (Keyspaces q)) '','')] else [])"

definition cleanup_letters :: "Cluster \<Rightarrow> RetentionPolicy \<Rightarrow> (char \<times> string) list" where
  "cleanup_letters c r = [(CHR ''n'', Cluster_Namespace c), (CHR ''l'', pod_selector c)] @
     (case RetentionPeriodDays r of None \<Rightarrow> [] | Some d \<Rightarrow> [(CHR ''r'', Duration_String (durationDays d))]) @
     (case CleanupTimeoutSeconds r of None \<Rightarrow> [] | Some t \<Rightarrow> [(CHR ''t'', Duration_String (durationSeconds t))])"

lemma create_command_letters:
  "tl (ct_Command (CreateSnapshotContainer c q)) = command_name Create_command # letters (create_letters c q)"
  by (simp add: CreateSnapshotContainer_def command_name_def create_letters_def letters_def split: option.split)

lemma cleanup_command_letters:
  assumes "CreateSnapshotCleanupContainer c q = Inr container" and "Snapshot_RetentionPolicy q = Some r"
  shows "tl (ct_Command container) = command_name Cleanup_command # letters (cleanup_letters c r)"
  using assms by (auto simp: CreateSnapshotCleanupContainer_def command_name_def cleanup_letters_def letters_def split: option.splits)

lemma letters_declared:
  "\<forall>(a, v) \<in> set (create_letters c q). shorthand Create_command a \<noteq> None"
  "\<forall>(a, v) \<in> set (cleanup_letters c r). shorthand Cleanup_command a \<noteq> None"
  by (auto simp: create_letters_def cleanup_letters_def shorthand_def root_flags_def command_flags_def split: option.splits if_splits)

context command_line
begin

lemma create_flags:
  assumes "\<forall>t. Snapshot_TimeoutSeconds q = Some t \<longrightarrow> 0 \<le> sint t" and "\<forall>k \<in> set (elems (Keyspaces q)). plain_field k"
  shows "set_flags csv (map (\<lambda>(a, v). (the (shorthand Create_command a), v)) (create_letters c q)) default_tool_flags =
    Some (snapshot_flags.extend (create_settings c q) \<lparr>tf_logLevel = ''info''\<rparr>)"
  using assms csv_plain [of "elems (Keyspaces q)"]
  by (cases "Snapshot_TimeoutSeconds q"; cases "elems (Keyspaces q) = []")
    (simp_all add: create_letters_def shorthand_def root_flags_def command_flags_def set_flag_def default_tool_flags_def
      default_snapshot_flags_def create_settings_def snapshot_flags.extend_def ParseDuration_seconds)

lemma cleanup_flags:
  assumes "\<forall>d. RetentionPeriodDays r = Some d \<longrightarrow> 0 \<le> sint d \<and> sint d \<le> 106751"
    and "\<forall>t. CleanupTimeoutSeconds r = Some t \<longrightarrow> 0 \<le> sint t"
  shows "set_flags csv (map (\<lambda>(a, v). (the (shorthand Cleanup_command a), v)) (cleanup_letters c r)) default_tool_flags =
    Some (snapshot_flags.extend (cleanup_settings c r) \<lparr>tf_logLevel = ''info''\<rparr>)"
  using assms
  by (cases "RetentionPeriodDays r"; cases "CleanupTimeoutSeconds r")
    (simp_all add: cleanup_letters_def shorthand_def root_flags_def command_flags_def set_flag_def default_tool_flags_def
      default_snapshot_flags_def cleanup_settings_def snapshot_flags.extend_def ParseDuration_seconds ParseDuration_days)

end

lemma run_command_extend:
  "run_command Create_command acc (snapshot_flags.extend f \<lparr>tf_logLevel = l\<rparr>) = createSnapshot acc f"
  "run_command Cleanup_command acc (snapshot_flags.extend f \<lparr>tf_logLevel = l\<rparr>) = cleanupSnapshot acc f"
  by (cases f; simp add: run_command_def snapshot_flags.extend_def snapshot_flags.truncate_def)+

lemma snapshot_main_runs:
  assumes "command_line (parse_command_line lib) (read_csv lib)" and "tool_ParseLevel_ok lib ''info''"
    and "Manipulator_New lib = Some acc" and "\<forall>(a, v) \<in> set ps. shorthand cmd a \<noteq> None"
    and "set_flags (read_csv lib) (map (\<lambda>(a, v). (the (shorthand cmd a), v)) ps) default_tool_flags =
      Some (snapshot_flags.extend f \<lparr>tf_logLevel = ''info''\<rparr>)"
  shows "snapshot_main lib (command_name cmd # letters ps) =
    run_command cmd acc (snapshot_flags.extend f \<lparr>tf_logLevel = ''info''\<rparr>)"
  using assms(2,3,5) command_line.parse_letters [OF assms(1,4)]
  by (simp add: snapshot_main_def setLogLevel_def snapshot_flags.extend_def)

text \<open>
  (C5) The cron jobs of the operator run the snapshot tool as the definition says. Where the library for
  command lines reads what its documentation promises, the command of the snapshot container takes
  a snapshot of the cluster's pods with the keyspaces and the timeout of the definition, or the
  tool's default of ten seconds; and the command of the cleanup container deletes with the retention
  period, in days, and the timeout of the policy, or seven days and ten seconds. Every duration
  arrives as the number of nanoseconds that the operator computed, although it travels as text.
\<close>

theorem jobs_run_as_defined:
  assumes "command_line (parse_command_line lib) (read_csv lib)" and "tool_ParseLevel_ok lib ''info''"
    and "Manipulator_New lib = Some acc"
    and "\<forall>t. Snapshot_TimeoutSeconds q = Some t \<longrightarrow> 0 \<le> sint t" and "\<forall>k \<in> set (elems (Keyspaces q)). plain_field k"
  shows "snapshot_main lib (tl (ct_Command (CreateSnapshotContainer c q))) = createSnapshot acc (create_settings c q) \<and>
    (\<forall>r container. Snapshot_RetentionPolicy q = Some r \<and> CreateSnapshotCleanupContainer c q = Inr container \<and>
       (\<forall>d. RetentionPeriodDays r = Some d \<longrightarrow> 0 \<le> sint d \<and> sint d \<le> 106751) \<and>
       (\<forall>t. CleanupTimeoutSeconds r = Some t \<longrightarrow> 0 \<le> sint t) \<longrightarrow>
       snapshot_main lib (tl (ct_Command container)) = cleanupSnapshot acc (cleanup_settings c r))"
proof (intro conjI allI impI)
  show "snapshot_main lib (tl (ct_Command (CreateSnapshotContainer c q))) = createSnapshot acc (create_settings c q)"
    unfolding create_command_letters
    using snapshot_main_runs [OF assms(1-3) letters_declared(1) command_line.create_flags [OF assms(1,4,5)], of c]
    by (simp add: run_command_extend)
next
  fix r container
  assume r: "Snapshot_RetentionPolicy q = Some r \<and> CreateSnapshotCleanupContainer c q = Inr container \<and>
    (\<forall>d. RetentionPeriodDays r = Some d \<longrightarrow> 0 \<le> sint d \<and> sint d \<le> 106751) \<and>
    (\<forall>t. CleanupTimeoutSeconds r = Some t \<longrightarrow> 0 \<le> sint t)"
  then have "tl (ct_Command container) = command_name Cleanup_command # letters (cleanup_letters c r)"
    using cleanup_command_letters by blast
  moreover have "set_flags (read_csv lib) (map (\<lambda>(a, v). (the (shorthand Cleanup_command a), v)) (cleanup_letters c r))
      default_tool_flags = Some (snapshot_flags.extend (cleanup_settings c r) \<lparr>tf_logLevel = ''info''\<rparr>)"
    using command_line.cleanup_flags [OF assms(1)] r by blast
  from snapshot_main_runs [OF assms(1-3) letters_declared(2) this]
  have "snapshot_main lib (command_name Cleanup_command # letters (cleanup_letters c r)) =
      cleanupSnapshot acc (cleanup_settings c r)"
    by (simp add: run_command_extend)
  ultimately show "snapshot_main lib (tl (ct_Command container)) = cleanupSnapshot acc (cleanup_settings c r)" by simp
qed

text \<open>A tool in a cluster that finds no pods, and a snapshot with every setting.\<close>

definition no_pods :: "unit Access" where
  "no_pods = \<lparr>list_tool_pods = (\<lambda>_ _ w. (Inr [], w)), exec_in_pod = (\<lambda>_ _ _ w. (NoExecutor [], w)), unix_now = (\<lambda>w. (0, w))\<rparr>"

definition tool_ref :: "(unit, unit, unit) tool_library" where
  "tool_ref = \<lparr>parse_command_line = parse_ref, read_csv = csv_ref, tool_ParseLevel_ok = (\<lambda>l. l = ''info''),
     tool_InClusterConfig = Inr (), tool_NewForConfig = (\<lambda>_. Inr ()), tool_access = (\<lambda>_ _. no_pods)\<rparr>"

definition full_snapshot :: Snapshot where
  "full_snapshot = \<lparr>Snapshot_Image = ''img'', Schedule = ''1 * * * *'', Keyspaces = Some [''k1'', ''k2''],
     Snapshot_TimeoutSeconds = Some 90,
     Snapshot_RetentionPolicy = Some \<lparr>Enabled = True, RetentionPeriodDays = Some 3, CleanupSchedule = ''2 * * * *'',
       CleanupTimeoutSeconds = None\<rparr>\<rparr>"

lemma jobs_run_as_defined_witness:
  "snapshot_main tool_ref (tl (ct_Command (CreateSnapshotContainer sample_cluster full_snapshot))) =
     createSnapshot no_pods (create_settings sample_cluster full_snapshot) \<and>
   keyspaces (create_settings sample_cluster full_snapshot) = [''k1'', ''k2'']"
proof -
  have lib: "command_line (parse_command_line tool_ref) (read_csv tool_ref)"
    using reference.command_line_axioms by (simp add: tool_ref_def)
  have acc: "tool_ParseLevel_ok tool_ref ''info''" "Manipulator_New tool_ref = Some no_pods"
    by (simp_all add: tool_ref_def Manipulator_New_def tool_kubernetesConfig_def tool_kubernetesClient_def)
  have q: "\<forall>t. Snapshot_TimeoutSeconds full_snapshot = Some t \<longrightarrow> 0 \<le> sint t"
    "\<forall>k \<in> set (elems (Keyspaces full_snapshot)). plain_field k"
    by (simp_all add: full_snapshot_def plain_field_def elems_def)
  show ?thesis
    using jobs_run_as_defined [OF lib acc q, of sample_cluster]
    by (simp add: create_settings_def full_snapshot_def elems_def)
qed

end
