(* ===== verification/GoJson.thy ===== *)
theory GoJson
  imports ConfigHash
begin

text \<open>
  The other half of Go's \<^verbatim>\<open>encoding/json\<close>, as of the Go 1.11 that \<^verbatim>\<open>.travis.yml\<close> names: reading.
  \<open>ConfigHash\<close> has what the operator uses of \<open>json.Marshal\<close>; here is the scanner behind
  \<open>json.Unmarshal\<close>, byte for byte, which \<^verbatim>\<open>pkg/metrics/metrics.go\<close> needs for the answers of Jolokia.
  Strings are unquoted as they are read. Numbers stay text until their type is known.
\<close>

section \<open>Values\<close>

datatype json =
    JNull
  | JBool bool
  | JNumber string
  | JString string
  | JArray "json list"
  | JObject "(string \<times> json) list"

section \<open>Strings\<close>

definition is_space :: "char \<Rightarrow> bool" where
  "is_space c \<longleftrightarrow> c = CHR '' '' \<or> c = CHR 9 \<or> c = CHR 10 \<or> c = CHR 13"

definition skip :: "string \<Rightarrow> string" where
  "skip = dropWhile is_space"

definition hex_val :: "char \<Rightarrow> nat option" where
  "hex_val c =
     (let b = of_char c :: nat
      in if 48 \<le> b \<and> b \<le> 57 then Some (b - 48)
         else if 97 \<le> b \<and> b \<le> 102 then Some (b - 87)
         else if 65 \<le> b \<and> b \<le> 70 then Some (b - 55)
         else None)"

text \<open>\<open>getu4\<close>, after the backslash and the \<open>u\<close>.\<close>

fun hex4 :: "string \<Rightarrow> (nat \<times> string) option" where
  "hex4 (a # b # c # d # rest) =
     (case (hex_val a, hex_val b, hex_val c, hex_val d) of
        (Some x, Some y, Some z, Some w) \<Rightarrow> Some (((x * 16 + y) * 16 + z) * 16 + w, rest)
      | _ \<Rightarrow> None)"
| "hex4 _ = None"

text \<open>\<open>utf8.EncodeRune\<close>; what is not a rune becomes the replacement character.\<close>

definition encode_rune :: "nat \<Rightarrow> string" where
  "encode_rune r = map char_of
     (if r < 0x80 then [r]
      else if r < 0x800 then [0xC0 + r div 64, 0x80 + r mod 64]
      else if 0xD800 \<le> r \<and> r \<le> 0xDFFF \<or> 0x10FFFF < r then [0xEF, 0xBF, 0xBD]
      else if r < 0x10000 then [0xE0 + r div 4096, 0x80 + r div 64 mod 64, 0x80 + r mod 64]
      else [0xF0 + r div 262144, 0x80 + r div 4096 mod 64, 0x80 + r div 64 mod 64, 0x80 + r mod 64])"

definition replacement :: string where
  "replacement = map char_of [0xEF :: nat, 0xBF, 0xBD]"

definition simple_escape :: "char \<Rightarrow> char option" where
  "simple_escape c =
     (if c = dquote \<or> c = backslash \<or> c = CHR ''/'' then Some c
      else if c = CHR ''b'' then Some (CHR 8)
      else if c = CHR ''f'' then Some (CHR 12)
      else if c = CHR ''n'' then Some (CHR 10)
      else if c = CHR ''r'' then Some (CHR 13)
      else if c = CHR ''t'' then Some (CHR 9)
      else None)"

text \<open>The rune of an escape: a surrogate counts only with its other half right behind it.\<close>

definition unescape :: "nat \<Rightarrow> string \<Rightarrow> string \<times> string" where
  "unescape u rest =
     (if 0xD800 \<le> u \<and> u \<le> 0xDFFF then
        (case (if take 2 rest = [backslash, CHR ''u''] then hex4 (drop 2 rest) else None) of
           Some (v, rest') \<Rightarrow>
             (if u < 0xDC00 \<and> 0xDC00 \<le> v \<and> v \<le> 0xDFFF
              then (encode_rune ((u - 0xD800) * 1024 + (v - 0xDC00) + 0x10000), rest')
              else (replacement, rest))
         | None \<Rightarrow> (replacement, rest))
      else (encode_rune u, rest))"

text \<open>A string from behind its opening quote: its bytes unquoted, and what follows the closing one.\<close>

definition put :: "string \<Rightarrow> (string \<times> string) option \<Rightarrow> (string \<times> string) option" where
  "put x r = map_option (\<lambda>(s, rest). (x @ s, rest)) r"

lemma hex4_shorter: "hex4 s = Some (u, r) \<Longrightarrow> length r < length s"
  by (cases s rule: hex4.cases) (auto split: option.splits)

lemma unescape_shorter: "length (snd (unescape u s)) \<le> length s"
  by (auto simp: unescape_def dest!: hex4_shorter split: option.split if_splits)

text \<open>One character of a string that is not its end.\<close>

definition scan_char :: "char \<Rightarrow> string \<Rightarrow> (string \<times> string) option" where
  "scan_char c cs =
     (if c = backslash then
        (case cs of
           [] \<Rightarrow> None
         | e # rest \<Rightarrow>
             (if e = CHR ''u''
              then (case hex4 rest of None \<Rightarrow> None | Some (u, rest') \<Rightarrow> Some (unescape u rest'))
              else map_option (\<lambda>b. ([b], rest)) (simple_escape e)))
      else if (of_char c :: nat) < 0x20 then None
      else
        (let n = utf8_len (map of_char (c # cs))
         in Some (if n = 0 then (replacement, cs) else (take n (c # cs), drop n (c # cs)))))"

lemma scan_char_shorter: "scan_char c cs = Some (x, rest) \<Longrightarrow> length rest \<le> length cs"
proof -
  have "hex4 r = Some (u, r') \<Longrightarrow> length (snd (unescape u r')) \<le> length r" for r u r'
    using hex4_shorter [of r u r'] unescape_shorter [of u r'] by simp
  then show "scan_char c cs = Some (x, rest) \<Longrightarrow> length rest \<le> length cs"
    by (fastforce simp: scan_char_def Let_def split: list.splits if_splits option.splits)
qed

function scan_string :: "string \<Rightarrow> (string \<times> string) option" where
  "scan_string [] = None"
| "scan_string (c # cs) =
     (if c = dquote then Some ([], cs)
      else (case scan_char c cs of None \<Rightarrow> None | Some (x, rest) \<Rightarrow> put x (scan_string rest)))"
  by pat_completeness auto
termination
  by (relation "measure length") (auto dest: scan_char_shorter)

lemma scan_string_shorter: "scan_string s = Some (x, r) \<Longrightarrow> length r < length s"
proof (induction s arbitrary: x r rule: scan_string.induct)
  case (2 c cs)
  then show ?case
    by (fastforce simp: put_def split: if_splits option.splits dest: scan_char_shorter)
qed simp

section \<open>Strings that were marshalled\<close>

text \<open>What is left of a byte string that is not valid UTF-8 once it has been marshalled.\<close>

function sanitise :: "nat list \<Rightarrow> string" where
  "sanitise bs =
     (if bs = [] then []
      else if utf8_len bs = 0 then replacement @ sanitise (tl bs)
      else map char_of (take (utf8_len bs) bs) @ sanitise (drop (utf8_len bs) bs))"
  by pat_completeness auto
termination
  by (relation "measure length") auto

declare sanitise.simps [simp del]

lemma utf8_len_length: "utf8_len bs \<le> length bs"
  by (induction bs rule: utf8_len.induct) (auto split: list.splits)

text \<open>The length depends on nothing behind the sequence.\<close>

lemma utf8_len_cases:
  obtains "utf8_len bs = 0" | b0 ts where "bs = b0 # ts" "utf8_len bs = 1" "\<And>ys. utf8_len (b0 # ys) = 1"
    | b0 b1 ts where "bs = b0 # b1 # ts" "utf8_len bs = 2" "\<And>ys. utf8_len (b0 # b1 # ys) = 2"
    | b0 b1 b2 ts where "bs = b0 # b1 # b2 # ts" "utf8_len bs = 3" "\<And>ys. utf8_len (b0 # b1 # b2 # ys) = 3"
    | b0 b1 b2 b3 ts where "bs = b0 # b1 # b2 # b3 # ts" "utf8_len bs = 4" "\<And>ys. utf8_len (b0 # b1 # b2 # b3 # ys) = 4"
proof (cases bs)
  case (Cons b0 r0)
  note c0 = Cons
  consider "b0 < 0x80" | "\<not> b0 < 0x80" "0xC2 \<le> b0 \<and> b0 \<le> 0xDF"
    | "\<not> b0 < 0x80" "\<not> (0xC2 \<le> b0 \<and> b0 \<le> 0xDF)" "0xE0 \<le> b0 \<and> b0 \<le> 0xEF"
    | "\<not> b0 < 0x80" "\<not> (0xC2 \<le> b0 \<and> b0 \<le> 0xDF)" "\<not> (0xE0 \<le> b0 \<and> b0 \<le> 0xEF)" "0xF0 \<le> b0 \<and> b0 \<le> 0xF4"
    | "\<not> b0 < 0x80" "\<not> (0xC2 \<le> b0 \<and> b0 \<le> 0xDF)" "\<not> (0xE0 \<le> b0 \<and> b0 \<le> 0xEF)" "\<not> (0xF0 \<le> b0 \<and> b0 \<le> 0xF4)"
    by blast
  then show ?thesis
  proof cases
    case 1
    then show ?thesis using that(2) [OF c0] c0 by simp
  next
    case 2
    show ?thesis
    proof (cases r0)
      case (Cons b1 r1)
      with 2 c0 show ?thesis using that(1) that(3) [of b0 b1 r1] by (cases "cont b1") simp_all
    qed (use 2 c0 that(1) in simp)
  next
    case 3
    consider "length r0 < 2" | b1 b2 r2 where "r0 = b1 # b2 # r2" by (cases r0; cases "tl r0") auto
    then show ?thesis
    proof cases
      case 1
      with 3 c0 that(1) show ?thesis by (cases r0; cases "tl r0") simp_all
    next
      case 2
      have same: "utf8_len (b0 # b1 # b2 # ys) = utf8_len [b0, b1, b2]" for ys using 3 by simp
      have "utf8_len [b0, b1, b2] = 0 \<or> utf8_len [b0, b1, b2] = 3" using 3 by simp
      with same [of r2] same 2 c0 that(1) that(4) [of b0 b1 b2 r2] show ?thesis by metis
    qed
  next
    case 4
    consider "length r0 < 3" | b1 b2 b3 r3 where "r0 = b1 # b2 # b3 # r3" by (cases r0; cases "tl r0"; cases "tl (tl r0)") auto
    then show ?thesis
    proof cases
      case 1
      with 4 c0 that(1) show ?thesis by (cases r0; cases "tl r0"; cases "tl (tl r0)") simp_all
    next
      case 2
      have same: "utf8_len (b0 # b1 # b2 # b3 # ys) = utf8_len [b0, b1, b2, b3]" for ys using 4 by simp
      have "utf8_len [b0, b1, b2, b3] = 0 \<or> utf8_len [b0, b1, b2, b3] = 4" using 4 by simp
      with same [of r3] same 2 c0 that(1) that(5) [of b0 b1 b2 b3 r3] show ?thesis by metis
    qed
  next
    case 5
    show ?thesis by (rule that(1)) (simp only: utf8_len.simps c0 5 if_False)
  qed
qed (use that(1) in simp)

lemma utf8_len_take: "utf8_len bs \<noteq> 0 \<Longrightarrow> utf8_len (take (utf8_len bs) bs @ xs) = utf8_len bs"
  by (cases bs rule: utf8_len_cases) simp_all

declare utf8_len.simps(2) [simp del]

lemma utf8_len_ascii [simp]: "b < 0x80 \<Longrightarrow> utf8_len (b # bs) = 1"
  by (simp add: utf8_len.simps)

lemma utf8_len_one: "utf8_len (b # bs) = 1 \<longleftrightarrow> b < 0x80"
proof (cases "b # bs" rule: utf8_len_cases)
  case (2 b0 ts)
  have "utf8_len [b] = 0" if "\<not> b < 0x80" using that by (simp add: utf8_len.simps)
  moreover have "utf8_len [b] = 1" using 2(3) [of "[]"] 2(1) by (simp only: list.inject)
  ultimately have "b < 0x80" by linarith
  then show ?thesis by simp
qed (use utf8_len_ascii [of b bs] in linarith)+

lemma hex_val_char: "d < 16 \<Longrightarrow> hex_val (hex_char d) = Some d"
  by (cases "d < 10") (simp_all add: hex_val_def hex_char_def)

lemma scan_escape:
  assumes "simple_escape e = Some b" and "e \<noteq> CHR ''u''"
  shows "scan_string (backslash # e # rest) = put [b] (scan_string rest)"
  using assms by (simp add: scan_char_def backslash_def dquote_def)

lemma scan_unicode:
  assumes "hex4 (digits @ rest) = Some (u, rest)" and "\<not> (0xD800 \<le> u \<and> u \<le> 0xDFFF)"
  shows "scan_string (backslash # CHR ''u'' # digits @ rest) = put (encode_rune u) (scan_string rest)"
proof -
  from assms(2) have "unescape u rest = (encode_rune u, rest)" by (auto simp: unescape_def)
  with assms(1) show ?thesis by (simp add: scan_char_def backslash_def dquote_def)
qed

lemma ascii_escapes:
  "simple_escape (char_of (34 :: nat)) = Some (char_of (34 :: nat))" "char_of (34 :: nat) \<noteq> CHR ''u''"
  "simple_escape (char_of (92 :: nat)) = Some (char_of (92 :: nat))" "char_of (92 :: nat) \<noteq> CHR ''u''"
  "simple_escape CHR ''n'' = Some (char_of (10 :: nat))" "simple_escape CHR ''r'' = Some (char_of (13 :: nat))"
  "simple_escape CHR ''t'' = Some (char_of (9 :: nat))"
  by code_simp+

lemma scan_ascii:
  assumes "b < 0x80"
  shows "scan_string (json_ascii b @ rest) = put [char_of b] (scan_string rest)"
proof -
  consider "b = 0x22 \<or> b = 0x5C" | "b = 10" | "b = 13" | "b = 9"
    | "b \<noteq> 0x22" "b \<noteq> 0x5C" "b \<noteq> 10" "b \<noteq> 13" "b \<noteq> 9" "b < 0x20 \<or> b = 0x3C \<or> b = 0x3E \<or> b = 0x26"
    | "b \<noteq> 0x22" "b \<noteq> 0x5C" "\<not> b < 0x20" "b \<noteq> 0x3C \<and> b \<noteq> 0x3E \<and> b \<noteq> 0x26" by linarith
  then show ?thesis
  proof cases
    case 5
    have "hex4 ([CHR ''0'', CHR ''0'', hex_char (b div 16), hex_char (b mod 16)] @ rest) = Some (b, rest)"
      using assms hex_val_char [of "b div 16"] hex_val_char [of "b mod 16"]
      by (simp add: hex_val_def [of "CHR ''0''"])
    from scan_unicode [OF this] assms 5 show ?thesis by (simp add: json_ascii_def encode_rune_def)
  next
    case 6
    then have "char_of b \<noteq> dquote" "char_of b \<noteq> backslash"
      using assms by (auto simp: dquote_def backslash_def char_of_eq_iff take_bit_eq_mod)
    with 6 assms show ?thesis by (simp add: json_ascii_def scan_char_def)
  qed (auto simp: json_ascii_def ascii_escapes simp del: scan_string.simps intro!: scan_escape)
qed

lemma scan_sequence:
  assumes "1 < utf8_len bs" and "\<forall>b \<in> set bs. b < 256"
  shows "scan_string (map char_of (take (utf8_len bs) bs) @ rest) =
    put (map char_of (take (utf8_len bs) bs)) (scan_string rest)"
proof -
  let ?n = "utf8_len bs"
  from assms(1) obtain b0 ts where bs: "bs = b0 # ts" by (cases bs) auto
  with assms(1) have "\<not> b0 < 0x80" using utf8_len_one [of b0 ts] by auto
  moreover have "b0 < 256" using assms(2) bs by simp
  ultimately have c: "char_of b0 \<noteq> dquote" "char_of b0 \<noteq> backslash" "(of_char (char_of b0 :: char) :: nat) = b0"
    by (auto simp: dquote_def backslash_def char_of_eq_iff take_bit_eq_mod)
  obtain k where k: "?n = Suc k" using assms(1) by (cases ?n) auto
  have bytes: "map of_char (map char_of (take m bs) :: string) = take m bs" for m
    using assms(2) by (auto simp: list_eq_iff_nth_eq)
  have "map of_char (map char_of (take ?n bs) @ rest) = take ?n bs @ map of_char rest"
    by (simp only: map_append bytes)
  then have len: "utf8_len (map of_char (map char_of (take ?n bs) @ rest)) = ?n"
    using utf8_len_take [of bs] assms(1) by simp
  have split: "map char_of (take ?n bs) @ rest = char_of b0 # (map char_of (take k ts) @ rest)"
    by (simp add: bs k [unfolded bs])
  have "length (take ?n bs) = ?n" using utf8_len_length [of bs] by simp
  then have "scan_char (char_of b0) (map char_of (take k ts) @ rest) = Some (map char_of (take ?n bs), rest)"
    using len c assms(1) \<open>\<not> b0 < 0x80\<close> unfolding split [symmetric]
    by (simp only: scan_char_def split [symmetric]) (simp add: Let_def)
  with c show ?thesis unfolding split by (simp add: bs)
qed

lemma replacement_rune: "encode_rune 0xFFFD = replacement" "hex4 (''fffd'' @ rest) = Some (0xFFFD, rest)"
  by (simp_all add: encode_rune_def replacement_def hex_val_def)

lemma separator_runes:
  "encode_rune 0x2028 = map char_of [0xE2 :: nat, 0x80, 0xA8]" "hex4 (''2028'' @ rest) = Some (0x2028, rest)"
  "encode_rune 0x2029 = map char_of [0xE2 :: nat, 0x80, 0xA9]" "hex4 (''2029'' @ rest) = Some (0x2029, rest)"
  by (simp_all add: encode_rune_def hex_val_def)

lemma separator_len: "take 3 bs = [0xE2, 0x80, b] \<Longrightarrow> b = 0xA8 \<or> b = 0xA9 \<Longrightarrow> utf8_len bs = 3"
  by (cases bs; cases "tl bs"; cases "tl (tl bs)") (auto simp: utf8_len.simps cont_def numeral_3_eq_3)

lemma scan_json_chars:
  "\<forall>b \<in> set bs. b < 256 \<Longrightarrow> scan_string (json_chars bs @ dquote # rest) = Some (sanitise bs, rest)"
proof (induction bs rule: json_chars.induct)
  case (1 bs)
  let ?n = "utf8_len bs"
  have bytes: "\<forall>b \<in> set (drop m bs). b < 256" "\<forall>b \<in> set (tl bs). b < 256" for m
    using "1.prems" by (auto dest: in_set_dropD) (cases bs, auto)
  show ?case
  proof (cases "bs = [] \<or> ?n = 0")
    case True
    show ?thesis
    proof (cases "bs = []")
      case True
      then show ?thesis by (simp add: json_chars.simps sanitise.simps)
    next
      case False
      with True "1.IH"(1) bytes(2) show ?thesis
        using scan_unicode [OF replacement_rune(2)]
        by (subst json_chars.simps, subst sanitise.simps) (simp add: replacement_rune(1) put_def)
    qed
  next
    case nonempty: False
    then have rest: "sanitise bs = map char_of (take ?n bs) @ sanitise (drop ?n bs)"
      by (subst sanitise.simps) simp
    consider (one) "?n = 1" | (ls) "1 < ?n" "take 3 bs = [0xE2, 0x80, 0xA8]" | (ps) "1 < ?n" "take 3 bs = [0xE2, 0x80, 0xA9]"
      | (other) "1 < ?n" "take 3 bs \<noteq> [0xE2, 0x80, 0xA8]" "take 3 bs \<noteq> [0xE2, 0x80, 0xA9]"
      using nonempty by linarith
    then show ?thesis
    proof cases
      case one
      obtain b ts where bs: "bs = b # ts" using nonempty by (cases bs) auto
      with one have "b < 0x80" using utf8_len_one [of b ts] by simp
      with one nonempty bs bytes(2) "1.IH"(2) scan_ascii [of b] show ?thesis
        unfolding rest by (subst json_chars.simps) (simp add: put_def)
    next
      case ls
      then have "?n = 3" by (simp add: separator_len)
      with ls nonempty bytes(1) [of 3] "1.IH"(3) show ?thesis
        using scan_unicode [OF separator_runes(2)]
        unfolding rest by (subst json_chars.simps) (simp add: separator_runes(1) put_def)
    next
      case ps
      then have "?n = 3" by (simp add: separator_len)
      with ps nonempty bytes(1) [of 3] "1.IH"(4) show ?thesis
        using scan_unicode [OF separator_runes(4)]
        unfolding rest by (subst json_chars.simps) (simp add: separator_runes(3) put_def)
    next
      case other
      with nonempty bytes(1) [of ?n] "1.IH"(5) show ?thesis
        unfolding rest by (subst json_chars.simps) (simp add: scan_sequence [OF other(1) "1.prems"] put_def)
    qed
  qed
qed

text \<open>A Go string whose bytes are UTF-8 is read back as it was.\<close>

definition valid_utf8 :: "string \<Rightarrow> bool" where
  "valid_utf8 s \<longleftrightarrow> sanitise (map of_char s) = s"

lemma scan_json_string: "scan_string (json_chars (map of_char s) @ dquote # rest) = Some (sanitise (map of_char s), rest)"
  by (rule scan_json_chars) (auto simp: of_char_def)

section \<open>Numbers\<close>

definition digits :: "string \<Rightarrow> string \<times> string" where
  "digits s = (takeWhile is_digit s, dropWhile is_digit s)"

definition some_digits :: "string \<Rightarrow> (string \<times> string) option" where
  "some_digits s = (if fst (digits s) = [] then None else Some (digits s))"

definition scan_sign :: "char set \<Rightarrow> string \<Rightarrow> string \<times> string" where
  "scan_sign signs s = (case s of [] \<Rightarrow> ([], []) | c # cs \<Rightarrow> if c \<in> signs then ([c], cs) else ([], s))"

definition scan_int :: "string \<Rightarrow> (string \<times> string) option" where
  "scan_int s = (case s of [] \<Rightarrow> None | c # cs \<Rightarrow> if c = CHR ''0'' then Some ([c], cs) else some_digits s)"

definition scan_fraction :: "string \<Rightarrow> (string \<times> string) option" where
  "scan_fraction s =
     (case s of [] \<Rightarrow> Some ([], []) | c # cs \<Rightarrow> if c = CHR ''.'' then put [c] (some_digits cs) else Some ([], s))"

definition scan_exponent :: "string \<Rightarrow> (string \<times> string) option" where
  "scan_exponent s =
     (case s of
        [] \<Rightarrow> Some ([], [])
      | c # cs \<Rightarrow>
          (if c = CHR ''e'' \<or> c = CHR ''E''
           then (let (sign, ds) = scan_sign {CHR ''+'', CHR ''-''} cs in put (c # sign) (some_digits ds))
           else Some ([], s)))"

definition then_scan ::
    "(string \<Rightarrow> (string \<times> string) option) \<Rightarrow> (string \<times> string) option \<Rightarrow> (string \<times> string) option" where
  "then_scan f r = (case r of None \<Rightarrow> None | Some (x, rest) \<Rightarrow> put x (f rest))"

definition scan_number :: "string \<Rightarrow> (string \<times> string) option" where
  "scan_number s =
     (let (sign, body) = scan_sign {CHR ''-''} s
      in put sign (then_scan scan_exponent (then_scan scan_fraction (scan_int body))))"

section \<open>Documents\<close>

text \<open>
  The fuel bounds the depth of calls: each takes a byte of the input, or is the one call of
  \<open>parse_value\<close> at the head of an element or a member.
\<close>

definition parsed :: "('a \<Rightarrow> 'b) \<Rightarrow> ('a \<times> string) option \<Rightarrow> ('b \<times> string) option" where
  "parsed f r = map_option (\<lambda>(x, rest). (f x, rest)) r"

fun parse_value :: "nat \<Rightarrow> string \<Rightarrow> (json \<times> string) option"
  and parse_elements :: "nat \<Rightarrow> string \<Rightarrow> (json list \<times> string) option"
  and parse_members :: "nat \<Rightarrow> string \<Rightarrow> ((string \<times> json) list \<times> string) option" where
  "parse_value 0 s = None"
| "parse_value (Suc n) s =
     (case skip s of
        [] \<Rightarrow> None
      | c # cs \<Rightarrow>
          (if c = dquote then parsed JString (scan_string cs)
           else if c = CHR 0x7B then
             (if take 1 (skip cs) = [CHR 0x7D] then Some (JObject [], tl (skip cs))
              else parsed JObject (parse_members n cs))
           else if c = CHR ''['' then
             (if take 1 (skip cs) = '']'' then Some (JArray [], tl (skip cs))
              else parsed JArray (parse_elements n cs))
           else if c = CHR ''-'' \<or> is_digit c then parsed JNumber (scan_number (c # cs))
           else if prefix ''null'' (c # cs) then Some (JNull, drop 3 cs)
           else if prefix ''true'' (c # cs) then Some (JBool True, drop 3 cs)
           else if prefix ''false'' (c # cs) then Some (JBool False, drop 4 cs)
           else None))"
| "parse_elements 0 s = None"
| "parse_elements (Suc n) s =
     (case parse_value n s of
        None \<Rightarrow> None
      | Some (v, rest) \<Rightarrow>
          (case skip rest of
             [] \<Rightarrow> None
           | c # cs \<Rightarrow>
               (if c = CHR '']'' then Some ([v], cs)
                else if c = CHR '','' then parsed (Cons v) (parse_elements n cs)
                else None)))"
| "parse_members 0 s = None"
| "parse_members (Suc n) s =
     (case skip s of
        [] \<Rightarrow> None
      | c # cs \<Rightarrow>
          (if c \<noteq> dquote then None
           else case scan_string cs of
             None \<Rightarrow> None
           | Some (k, rest) \<Rightarrow>
               (if take 1 (skip rest) \<noteq> '':'' then None
                else case parse_value n (tl (skip rest)) of
                  None \<Rightarrow> None
                | Some (v, rest') \<Rightarrow>
                    (case skip rest' of
                       [] \<Rightarrow> None
                     | c' # cs' \<Rightarrow>
                         (if c' = CHR 0x7D then Some ([(k, v)], cs')
                          else if c' = CHR '','' then parsed (Cons (k, v)) (parse_members n cs')
                          else None)))))"

definition parse_json :: "string \<Rightarrow> json option" where
  "parse_json s =
     (case parse_value (Suc (2 * length s)) s of
        None \<Rightarrow> None
      | Some (v, rest) \<Rightarrow> if skip rest = [] then Some v else None)"

end
