(* ===== verification/JsonRoundtrip.thy ===== *)
theory JsonRoundtrip
  imports GoJson
begin

text \<open>
  Reading is the inverse of writing: \<open>parse_json\<close> on what \<open>json.Marshal\<close> writes, every escape included
  (\<open>parse_json_print\<close>). And the parser's fuel is no limit.
\<close>

section \<open>Writing\<close>

primrec print_json :: "json \<Rightarrow> string" where
  "print_json JNull = ''null''"
| "print_json (JBool b) = (if b then ''true'' else ''false'')"
| "print_json (JNumber s) = s"
| "print_json (JString s) = json_string s"
| "print_json (JArray vs) = CHR ''['' # Join (map print_json vs) '','' @ '']''"
| "print_json (JObject kvs) = json_object (map (map_prod id print_json) kvs)"

text \<open>A document as Go's values are written: strings of UTF-8, and numbers as numbers are written.\<close>

primrec wf_json :: "json \<Rightarrow> bool" where
  "wf_json JNull \<longleftrightarrow> True"
| "wf_json (JBool b) \<longleftrightarrow> True"
| "wf_json (JNumber s) \<longleftrightarrow> scan_number s = Some (s, [])"
| "wf_json (JString s) \<longleftrightarrow> valid_utf8 s"
| "wf_json (JArray vs) \<longleftrightarrow> list_all id (map wf_json vs)"
| "wf_json (JObject kvs) \<longleftrightarrow> list_all (\<lambda>(k, ok). valid_utf8 k \<and> ok) (map (map_prod id wf_json) kvs)"

section \<open>Scanning a prefix\<close>

text \<open>What may follow a value inside a document or behind it.\<close>

definition ends_value :: "string \<Rightarrow> bool" where
  "ends_value rest \<longleftrightarrow> rest = [] \<or> hd rest \<in> {CHR '','', CHR '']'', CHR 0x7D}"

lemma ends_value_simps [simp]:
  "ends_value []" "ends_value (CHR '','' # r)" "ends_value (CHR '']'' # r)" "ends_value (CHR 0x7D # r)"
  by (simp_all add: ends_value_def)

lemma ends_value_digits: "ends_value rest \<Longrightarrow> digits (s @ rest) = (fst (digits s), snd (digits s) @ rest)"
proof -
  assume ends: "ends_value rest"
  have rest: "takeWhile is_digit rest = []" "dropWhile is_digit rest = rest"
    using ends by (cases rest; auto simp: ends_value_def is_digit_def)+
  have all: "digits s = (s, [])" if "\<forall>c \<in> set s. is_digit c"
    using that by (induction s) (auto simp: digits_def)
  show ?thesis
  proof (cases "\<forall>c \<in> set s. is_digit c")
    case True
    with rest have "digits (s @ rest) = (s, rest)" by (simp add: digits_def)
    with all [OF True] show ?thesis by (simp only: fst_conv snd_conv append_Nil)
  next
    case False
    then show ?thesis by (auto simp: digits_def takeWhile_append dropWhile_append)
  qed
qed

text \<open>A scanner that does not look at what follows.\<close>

definition extends :: "string \<Rightarrow> (string \<Rightarrow> (string \<times> string) option) \<Rightarrow> bool" where
  "extends rest f \<longleftrightarrow> (\<forall>s x r. f s = Some (x, r) \<longrightarrow> f (s @ rest) = Some (x, r @ rest))"

lemma extendsD: "extends rest f \<Longrightarrow> f s = Some (x, r) \<Longrightarrow> f (s @ rest) = Some (x, r @ rest)"
  by (simp add: extends_def)

lemma put_Some: "put y m = Some (x, r) \<longleftrightarrow> (\<exists>x'. m = Some (x', r) \<and> x = y @ x')"
  by (auto simp: put_def)

lemma then_scan_Some: "then_scan f m = Some (x, r) \<longleftrightarrow> (\<exists>y s z. m = Some (y, s) \<and> f s = Some (z, r) \<and> x = y @ z)"
  by (auto simp: then_scan_def put_Some split: option.splits)

lemma scan_sign_append: "s \<noteq> [] \<Longrightarrow> scan_sign signs (s @ rest) = (fst (scan_sign signs s), snd (scan_sign signs s) @ rest)"
  by (cases s) (auto simp: scan_sign_def)

lemma extends_digits: "ends_value rest \<Longrightarrow> extends rest some_digits"
  using ends_value_digits [of rest] by (auto simp: extends_def some_digits_def split: if_splits)

lemma extends_int:
  assumes "ends_value rest"
  shows "extends rest scan_int"
  unfolding extends_def
proof (intro allI impI)
  fix s x r assume s: "scan_int s = Some (x, r)"
  then obtain c cs where c: "s = c # cs" by (cases s) (auto simp: scan_int_def)
  show "scan_int (s @ rest) = Some (x, r @ rest)"
    using s extendsD [OF extends_digits [OF assms], of s x r] by (auto simp: scan_int_def c split: if_splits)
qed

lemma extends_fraction:
  assumes "ends_value rest"
  shows "extends rest scan_fraction"
  unfolding extends_def
proof (intro allI impI)
  fix s x r assume s: "scan_fraction s = Some (x, r)"
  show "scan_fraction (s @ rest) = Some (x, r @ rest)"
  proof (cases s)
    case Nil
    with s assms show ?thesis by (auto simp: scan_fraction_def ends_value_def split: list.split)
  next
    case (Cons c cs)
    with s extendsD [OF extends_digits [OF assms], of cs] show ?thesis
      by (auto simp: scan_fraction_def put_Some split: if_splits)
  qed
qed

lemma extends_exponent:
  assumes "ends_value rest"
  shows "extends rest scan_exponent"
  unfolding extends_def
proof (intro allI impI)
  fix s x r assume s: "scan_exponent s = Some (x, r)"
  show "scan_exponent (s @ rest) = Some (x, r @ rest)"
  proof (cases s)
    case Nil
    with s assms show ?thesis by (auto simp: scan_exponent_def ends_value_def split: list.split)
  next
    case (Cons c cs)
    show ?thesis
    proof (cases "c = CHR ''e'' \<or> c = CHR ''E''")
      case True
      have "some_digits [] = None" by (simp add: some_digits_def digits_def)
      then have "cs \<noteq> []" using s True Cons by (auto simp: scan_exponent_def scan_sign_def put_Some)
      from scan_sign_append [OF this] s True Cons extendsD [OF extends_digits [OF assms]] show ?thesis
        by (auto simp: scan_exponent_def put_Some Let_def case_prod_unfold)
    next
      case False
      with s Cons show ?thesis by (auto simp: scan_exponent_def)
    qed
  qed
qed

lemma extends_number:
  assumes "ends_value rest"
  shows "extends rest scan_number"
  unfolding extends_def
proof (intro allI impI)
  fix s x r assume s: "scan_number s = Some (x, r)"
  then have "s \<noteq> []" by (auto simp: scan_number_def scan_sign_def scan_int_def put_Some then_scan_def)
  then have sign: "scan_sign {CHR ''-''} (s @ rest) = (fst (scan_sign {CHR ''-''} s), snd (scan_sign {CHR ''-''} s) @ rest)"
    by (rule scan_sign_append)
  have number: "scan_number s' = put (fst (scan_sign {CHR ''-''} s'))
      (then_scan scan_exponent (then_scan scan_fraction (scan_int (snd (scan_sign {CHR ''-''} s')))))" for s'
    by (simp add: scan_number_def Let_def case_prod_unfold)
  from s obtain i f e r1 r2 where parts: "scan_int (snd (scan_sign {CHR ''-''} s)) = Some (i, r1)"
    "scan_fraction r1 = Some (f, r2)" "scan_exponent r2 = Some (e, r)" "x = fst (scan_sign {CHR ''-''} s) @ (i @ f) @ e"
    unfolding number put_Some then_scan_Some by blast
  note extendsD [OF extends_int [OF assms] parts(1)] extendsD [OF extends_fraction [OF assms] parts(2)]
    extendsD [OF extends_exponent [OF assms] parts(3)]
  then show "scan_number (s @ rest) = Some (x, r @ rest)"
    unfolding number sign by (simp add: put_def then_scan_def parts(4))
qed

section \<open>Reading what was written\<close>

lemma skip_simps [simp]: "skip [] = []" "\<not> is_space c \<Longrightarrow> skip (c # cs) = c # cs"
  by (simp_all add: skip_def)

lemma not_space [simp]:
  "\<not> is_space dquote" "\<not> is_space (CHR 0x22)" "\<not> is_space (CHR ''['')" "\<not> is_space (CHR '']'')" "\<not> is_space (CHR 0x7B)" "\<not> is_space (CHR 0x7D)"
  "\<not> is_space (CHR '':'')" "\<not> is_space (CHR '','')" "\<not> is_space (CHR ''n'')" "\<not> is_space (CHR ''t'')" "\<not> is_space (CHR ''f'')"
  by (simp_all add: is_space_def dquote_def)

lemma number_head:
  assumes "scan_number s = Some (x, r)"
  obtains c cs where "s = c # cs" and "c = CHR ''-'' \<or> is_digit c"
proof -
  from assms obtain c cs where s: "s = c # cs"
    by (cases s) (auto simp: scan_number_def scan_sign_def scan_int_def put_Some then_scan_def)
  have "is_digit c" if "c \<noteq> CHR ''-''"
  proof -
    from assms that s have "scan_int s \<noteq> None"
      by (auto simp: scan_number_def scan_sign_def put_Some then_scan_Some)
    with s show ?thesis
      by (auto simp: scan_int_def some_digits_def digits_def is_digit_def split: if_splits)
  qed
  with s that show ?thesis by blast
qed

lemma number_char: "c = CHR ''-'' \<or> is_digit c \<Longrightarrow>
    \<not> is_space c \<and> c \<noteq> dquote \<and> c \<noteq> CHR 0x7B \<and> c \<noteq> CHR ''['' \<and> c \<noteq> CHR '']'' \<and> c \<noteq> CHR 0x7D"
  by (auto simp: is_space_def is_digit_def dquote_def)

lemma print_head:
  assumes "wf_json v"
  obtains c cs where "print_json v = c # cs" and "\<not> is_space c" and "c \<noteq> CHR '']''"
proof (cases v)
  case (JNumber s)
  with assms number_head [of s] number_char that show ?thesis by (metis print_json.simps(3) wf_json.simps(3))
next
  case (JBool b)
  with that show ?thesis by (cases b) (auto simp: is_space_def)
qed (use that in \<open>auto simp: json_string_def json_object_def dquote_def is_space_def split: if_splits\<close>)

definition reads_back :: "json \<Rightarrow> bool" where
  "reads_back v \<longleftrightarrow> (\<forall>n rest. 2 * length (print_json v) < n \<longrightarrow> ends_value rest \<longrightarrow>
     parse_value n (print_json v @ rest) = Some (v, rest))"

lemma reads_backD:
  "reads_back v \<Longrightarrow> 2 * length (print_json v) < n \<Longrightarrow> ends_value rest \<Longrightarrow>
    parse_value n (print_json v @ rest) = Some (v, rest)"
  by (simp add: reads_back_def)

lemma reads_backI:
  assumes "\<And>n rest. 2 * length (print_json v) \<le> n \<Longrightarrow> ends_value rest \<Longrightarrow>
    parse_value (Suc n) (print_json v @ rest) = Some (v, rest)"
  shows "reads_back v"
  unfolding reads_back_def
proof (intro allI impI)
  fix n rest assume "2 * length (print_json v) < n" "ends_value rest"
  with assms show "parse_value n (print_json v @ rest) = Some (v, rest)" by (cases n) auto
qed

lemma parse_elements_print:
  assumes "vs \<noteq> []" and "\<forall>v \<in> set vs. reads_back v" and "2 * length (Join (map print_json vs) '','') + 1 < n"
  shows "parse_elements n (Join (map print_json vs) '','' @ CHR '']'' # rest) = Some (vs, rest)"
  using assms
proof (induction vs arbitrary: n)
  case (Cons v vs)
  from Cons.prems(3) obtain m where n: "n = Suc m" by (cases n) auto
  show ?case
  proof (cases vs)
    case Nil
    with Cons.prems n show ?thesis by (simp add: reads_backD)
  next
    case (Cons w ws)
    with Cons.prems n have "parse_elements m (Join (map print_json vs) '','' @ CHR '']'' # rest) = Some (vs, rest)"
      by (intro Cons.IH) auto
    with Cons.prems n Cons show ?thesis by (simp add: reads_backD parsed_def)
  qed
qed simp

lemma scan_key: "valid_utf8 k \<Longrightarrow> scan_string (json_chars (map of_char k) @ dquote # rest) = Some (k, rest)"
  by (simp add: scan_json_string valid_utf8_def)

definition member :: "string \<times> json \<Rightarrow> string" where
  "member kv = json_string (fst kv) @ '':'' @ print_json (snd kv)"

lemma print_object: "print_json (JObject kvs) = CHR 0x7B # Join (map member kvs) '','' @ [CHR 0x7D]"
  by (simp add: json_object_def member_def [abs_def] case_prod_unfold comp_def)

lemma parse_members_print:
  assumes "kvs \<noteq> []" and "\<forall>kv \<in> set kvs. valid_utf8 (fst kv) \<and> reads_back (snd kv)"
    and "2 * length (Join (map member kvs) '','') + 1 < n"
  shows "parse_members n (Join (map member kvs) '','' @ CHR 0x7D # rest) = Some (kvs, rest)"
  using assms
proof (induction kvs arbitrary: n)
  case (Cons kv kvs)
  obtain k v where kv: "kv = (k, v)" by (cases kv)
  from Cons.prems(3) obtain m where n: "n = Suc m" by (cases n) auto
  have key: "valid_utf8 k" "reads_back v" using Cons.prems(2) kv by auto
  have head: "skip (member (k, v) @ r) = dquote # json_chars (map of_char k) @ dquote # '':'' @ print_json v @ r" for r
    by (simp add: member_def json_string_def)
  have long: "2 * length (print_json v) < m"
    using Cons.prems(3) n by (cases kvs) (auto simp: member_def kv)
  show ?case
  proof (cases kvs)
    case Nil
    then have "Join (map member (kv # kvs)) '','' @ CHR 0x7D # rest = member kv @ CHR 0x7D # rest" by simp
    then show ?thesis
      using Nil unfolding n parse_members.simps
      by (simp only: kv head) (simp add: scan_key [OF key(1)] reads_backD [OF key(2) long])
  next
    case (Cons w ws)
    with Cons.prems n have IH: "parse_members m (Join (map member kvs) '','' @ CHR 0x7D # rest) = Some (kvs, rest)"
      by (intro Cons.IH) auto
    have "Join (map member (kv # kvs)) '','' @ CHR 0x7D # rest =
        member kv @ CHR '','' # Join (map member kvs) '','' @ CHR 0x7D # rest" using Cons by simp
    then show ?thesis
      using IH unfolding n parse_members.simps
      by (simp only: kv head) (simp add: scan_key [OF key(1)] reads_backD [OF key(2) long] parsed_def)
  qed
qed simp

lemma skip_print: "wf_json v \<Longrightarrow> take 1 (skip (print_json v @ r)) \<noteq> '']''"
  by (rule print_head [of v]) auto

lemma parse_print: "wf_json v \<Longrightarrow> reads_back v"
proof (induction v)
  case (JNumber s)
  then obtain c cs where s: "s = c # cs" "c = CHR ''-'' \<or> is_digit c" by (auto elim: number_head)
  from s(2) have c: "\<not> is_space c" "c \<noteq> dquote" "c \<noteq> CHR 0x7B" "c \<noteq> CHR ''[''" using number_char by blast+
  have "parse_value (Suc n) (s @ rest) = Some (JNumber s, rest)" if "ends_value rest" for n rest
    using extendsD [OF extends_number [OF that], of s s "[]"] JNumber s c by (auto simp: parsed_def)
  then show ?case by (intro reads_backI) simp
next
  case (JString s)
  have "parse_value (Suc n) (json_string s @ rest) = Some (JString s, rest)" for n rest
    using JString by (simp add: json_string_def parsed_def scan_key)
  then show ?case by (intro reads_backI) simp
next
  case (JArray vs)
  show ?case
  proof (rule reads_backI)
    fix m rest assume n: "2 * length (print_json (JArray vs)) \<le> m"
    show "parse_value (Suc m) (print_json (JArray vs) @ rest) = Some (JArray vs, rest)"
    proof (cases vs)
      case Nil
      then show ?thesis by (simp add: dquote_def)
    next
      case (Cons v ws)
      have all: "\<forall>v \<in> set vs. reads_back v" "wf_json v" using JArray Cons by (auto simp: list_all_iff)
      have "parse_elements m (Join (map print_json vs) '','' @ CHR '']'' # rest) = Some (vs, rest)"
        using n Cons by (intro parse_elements_print all) auto
      moreover obtain r where "Join (map print_json vs) '','' @ CHR '']'' # rest = print_json v @ r"
        using Cons by (cases ws) auto
      ultimately show ?thesis using skip_print [OF all(2)] by (simp add: dquote_def parsed_def)
    qed
  qed
next
  case (JObject kvs)
  show ?case
  proof (rule reads_backI)
    fix m rest assume n: "2 * length (print_json (JObject kvs)) \<le> m"
    show "parse_value (Suc m) (print_json (JObject kvs) @ rest) = Some (JObject kvs, rest)"
    proof (cases kvs)
      case Nil
      then show ?thesis by (simp add: dquote_def print_object del: print_json.simps)
    next
      case (Cons kv ws)
      have "\<forall>kv \<in> set kvs. valid_utf8 (fst kv) \<and> reads_back (snd kv)"
        using JObject by (fastforce simp: list_all_iff)
      then have "parse_members m (Join (map member kvs) '','' @ CHR 0x7D # rest) = Some (kvs, rest)"
        using n Cons by (intro parse_members_print) (auto simp: print_object simp del: print_json.simps)
      moreover obtain r where "Join (map member kvs) '','' @ CHR 0x7D # rest = dquote # r"
        using Cons by (cases ws) (auto simp: member_def json_string_def)
      ultimately show ?thesis by (simp add: dquote_def parsed_def print_object del: print_json.simps)
    qed
  qed
qed (auto simp: dquote_def is_digit_def intro!: reads_backI)

lemma parse_json_print: "wf_json v \<Longrightarrow> parse_json (print_json v) = Some v"
  using reads_backD [OF parse_print, of v "Suc (2 * length (print_json v))" "[]"]
  by (simp add: parse_json_def del: parse_value.simps)

section \<open>The fuel is enough\<close>

lemma skip_shorter: "length (skip s) \<le> length s"
  by (simp add: skip_def length_dropWhile_le)

lemma skip_Cons: "skip s = c # cs \<Longrightarrow> length cs < length s"
  using skip_shorter [of s] by simp

lemma parsed_Some: "parsed f m = Some (y, r) \<longleftrightarrow> (\<exists>x. m = Some (x, r) \<and> y = f x)"
  by (auto simp: parsed_def)

lemma digits_shorter: "some_digits s = Some (x, r) \<Longrightarrow> length r < length s"
proof -
  assume "some_digits s = Some (x, r)"
  then have "takeWhile is_digit s \<noteq> []" "r = dropWhile is_digit s" by (auto simp: some_digits_def digits_def split: if_splits)
  then show ?thesis by (cases s) (auto simp: length_dropWhile_le le_imp_less_Suc split: if_splits)
qed

lemma scan_number_shorter: "scan_number s = Some (x, r) \<Longrightarrow> length r < length s"
proof -
  have sign: "length (snd (scan_sign S s)) \<le> length s" for S s by (auto simp: scan_sign_def split: list.split)
  have int: "scan_int s = Some (x, r) \<Longrightarrow> length r < length s" for s x r
    using digits_shorter [of s] by (auto simp: scan_int_def split: list.splits if_splits)
  have fraction: "scan_fraction s = Some (x, r) \<Longrightarrow> length r \<le> length s" for s x r
    by (auto simp: scan_fraction_def put_Some split: list.splits if_splits dest!: digits_shorter)
  have exponent: "scan_exponent s = Some (x, r) \<Longrightarrow> length r \<le> length s" for s x r
  proof (cases s)
    case (Cons c cs)
    then show "scan_exponent s = Some (x, r) \<Longrightarrow> length r \<le> length s"
      using sign [of "{CHR ''+'', CHR ''-''}" cs]
      by (auto simp: scan_exponent_def put_Some Let_def case_prod_unfold split: if_splits dest!: digits_shorter)
  qed (simp add: scan_exponent_def)
  assume "scan_number s = Some (x, r)"
  then obtain i f e r1 r2 where "scan_int (snd (scan_sign {CHR ''-''} s)) = Some (i, r1)"
    "scan_fraction r1 = Some (f, r2)" "scan_exponent r2 = Some (e, r)"
    by (simp add: scan_number_def Let_def case_prod_unfold put_Some then_scan_Some) blast
  with sign [of "{CHR ''-''}" s] int fraction exponent show ?thesis by fastforce
qed

lemma tl_skip: "take 1 (skip s) = [c] \<Longrightarrow> length (tl (skip s)) < length s"
  using skip_shorter [of s] by (cases "skip s") auto

lemma parse_shorter:
  "parse_value n s = Some (v, r) \<Longrightarrow> length r < length s"
  "parse_elements n s = Some (vs, r) \<Longrightarrow> length r < length s"
  "parse_members n s = Some (kvs, r) \<Longrightarrow> length r < length s"
proof (induction n s and n s and n s arbitrary: v r and vs r and kvs r
    rule: parse_value_parse_elements_parse_members.induct)
  case (2 n s)
  note IH = 2(1,2) and run = 2(3)
  from run obtain c cs where c: "skip s = c # cs" by (auto split: list.splits)
  have short: "length cs < length s" by (rule skip_Cons [OF c])
  have num: "\<And>x. scan_number (c # cs) = Some (x, r) \<Longrightarrow> length r < length s"
    using scan_number_shorter [of "c # cs"] skip_shorter [of s] c by fastforce
  have str: "\<And>x. scan_string cs = Some (x, r) \<Longrightarrow> length r < length s"
    using scan_string_shorter [of cs] short by fastforce
  show ?case
  proof (cases "c = CHR 0x7B \<and> take 1 (skip cs) \<noteq> [CHR 0x7D] \<or> c = CHR ''['' \<and> take 1 (skip cs) \<noteq> '']''")
    case True
    then have "(\<exists>x. parse_members n cs = Some (x, r)) \<and> c = CHR 0x7B \<or> (\<exists>x. parse_elements n cs = Some (x, r)) \<and> c = CHR ''[''"
      using run by (auto simp: c dquote_def parsed_Some)
    then have "length r < length cs" using IH(1) [OF c] IH(2) [OF c] True by (auto simp: dquote_def)
    with short show ?thesis by simp
  next
    case False
    have tl: "length (tl (skip cs)) \<le> length cs" using skip_shorter [of cs] by simp
    from run False have "(\<exists>x. scan_string cs = Some (x, r)) \<or> r = tl (skip cs) \<or> (\<exists>x. scan_number (c # cs) = Some (x, r)) \<or>
        r = drop 3 cs \<or> r = drop 4 cs"
      unfolding parse_value.simps c list.case parsed_def by (simp only: split: if_splits) auto
    with num str short tl show ?thesis by fastforce
  qed
next
  case (4 n s)
  from 4(3) obtain x r1 where x: "parse_value n s = Some (x, r1)" by (auto split: option.splits)
  with 4(3) obtain c cs where c: "skip r1 = c # cs" by (auto split: list.splits)
  have "length cs < length s" using 4(1) [OF x] skip_Cons [OF c] by simp
  with 4(2) [OF x refl c] 4(3) show ?case by (fastforce simp: x c parsed_Some split: if_splits)
next
  case (6 n s)
  from 6(3) obtain c cs where c: "skip s = c # cs" "c = dquote" by (auto split: list.splits if_splits)
  with 6(3) obtain k r1 where k: "scan_string cs = Some (k, r1)" by (auto split: option.splits)
  with c 6(3) have colon: "take 1 (skip r1) = '':''" by (auto split: if_splits)
  with c k 6(3) obtain x r2 where x: "parse_value n (tl (skip r1)) = Some (x, r2)" by (auto split: option.splits)
  with c k colon 6(3) obtain c' cs' where c': "skip r2 = c' # cs'" by (auto split: list.splits)
  have "length cs' < length s"
    using skip_Cons [OF c(1)] scan_string_shorter [OF k] tl_skip [OF colon] 6(1) [OF c(1) _ k refl _ x] c(2) colon
      skip_Cons [OF c'] by simp
  with 6(2) [OF c(1) _ k refl _ x refl c'] 6(3) c(2) colon show ?case
    by (fastforce simp: c(1) k x c' parsed_Some split: if_splits)
qed simp_all

lemma parse_more_fuel:
  "(2 * length s < n \<longrightarrow> n \<le> m \<longrightarrow> parse_value m s = parse_value n s) \<and>
   (2 * length s + 1 < n \<longrightarrow> n \<le> m \<longrightarrow> parse_elements m s = parse_elements n s \<and> parse_members m s = parse_members n s)"
proof (induction n arbitrary: s m)
  case (Suc n)
  show ?case
  proof (cases m)
    case (Suc k)
    have single: "parse_value k t = parse_value n t" if "2 * length t < n" "n \<le> k" for t
      using Suc.IH [of t k] that by blast
    have lists: "parse_elements k t = parse_elements n t" "parse_members k t = parse_members n t"
      if "2 * length t + 1 < n" "n \<le> k" for t
      using Suc.IH [of t k] that by blast+
    show ?thesis
    proof (intro conjI impI)
      assume n: "2 * length s < Suc n" "Suc n \<le> m"
      show "parse_value m s = parse_value (Suc n) s"
      proof (cases "skip s")
        case (Cons c cs)
        have "2 * length cs + 1 < n" using skip_Cons [OF Cons] n by linarith
        with lists [of cs] n \<open>m = Suc k\<close> show ?thesis by (simp add: Cons)
      qed (simp add: \<open>m = Suc k\<close>)
    next
      assume n: "2 * length s + 1 < Suc n" "Suc n \<le> m"
      have v: "parse_value k s = parse_value n s" using n \<open>m = Suc k\<close> by (intro single) auto
      show "parse_elements m s = parse_elements (Suc n) s"
      proof (cases "parse_value n s")
        case (Some a)
        obtain x r where a: "a = (x, r)" by (cases a)
        have r: "length r < length s" using parse_shorter(1) Some a by blast
        show ?thesis
        proof (cases "skip r")
          case (Cons c cs)
          have "2 * length cs + 1 < n" using skip_Cons [OF Cons] r n by linarith
          with lists(1) [of cs] n \<open>m = Suc k\<close> show ?thesis by (simp add: v Some a Cons)
        qed (simp add: v Some a \<open>m = Suc k\<close>)
      qed (simp add: v \<open>m = Suc k\<close>)
    next
      assume n: "2 * length s + 1 < Suc n" "Suc n \<le> m"
      show "parse_members m s = parse_members (Suc n) s"
      proof (cases "\<exists>c cs kr. skip s = c # cs \<and> c = dquote \<and> scan_string cs = Some kr \<and> take 1 (skip (snd kr)) = '':''")
        case True
        then obtain cs x r where s: "skip s = dquote # cs" "scan_string cs = Some (x, r)" "take 1 (skip r) = '':''" by auto
        let ?t = "tl (skip r)"
        have t: "length ?t + 2 < length s"
          using skip_Cons [OF s(1)] scan_string_shorter [OF s(2)] tl_skip [OF s(3)] by linarith
        have v: "parse_value k ?t = parse_value n ?t" using n t \<open>m = Suc k\<close> by (intro single) auto
        show ?thesis
        proof (cases "parse_value n ?t")
          case (Some a)
          obtain y r' where a: "a = (y, r')" by (cases a)
          have r': "length r' < length ?t" using parse_shorter(1) Some a by blast
          show ?thesis
          proof (cases "skip r'")
            case (Cons c' cs')
            have "2 * length cs' + 1 < n" using skip_Cons [OF Cons] r' t n by linarith
            with lists(2) [of cs'] n \<open>m = Suc k\<close> show ?thesis by (simp add: s v Some a Cons)
          qed (simp add: s v Some a \<open>m = Suc k\<close>)
        qed (simp add: s v \<open>m = Suc k\<close>)
      next
        case False
        then show ?thesis
          by (auto simp: \<open>m = Suc k\<close> split: list.split option.split)
      qed
    qed
  qed simp
qed simp

text \<open>
  The fuel is no limit: with any more of it the parser has the same result, so that \<open>parse_json\<close>
  refuses a document for what is written in it only.
\<close>

theorem parse_fuel_suffices:
  assumes "2 * length s < n"
  shows "(case parse_value n s of None \<Rightarrow> None | Some (v, rest) \<Rightarrow> if skip rest = [] then Some v else None) = parse_json s"
proof -
  have "parse_value n s = parse_value (Suc (2 * length s)) s"
    using parse_more_fuel [of s "Suc (2 * length s)" n] assms by simp
  then show ?thesis by (simp only: parse_json_def)
qed

lemma parse_fuel_suffices_witness:
  "(case parse_value 100 ''[[1], 2]'' of None \<Rightarrow> None | Some (v, rest) \<Rightarrow> if skip rest = [] then Some v else None) =
    parse_json ''[[1], 2]''"
  by (rule parse_fuel_suffices) simp

end
