(* ===== verification/ConfigEncoding.thy ===== *)
theory ConfigEncoding
  imports JsonRoundtrip
begin

text \<open>
  The text that \<^verbatim>\<open>pkg/operator/hash/configmap_hash.go\<close> hashes, as a JSON document: it has the content of a
  config map, all of it, so that a change of the content always changes the text.
\<close>

section \<open>Base64\<close>

lemma b64_char_inj: "m < 64 \<Longrightarrow> n < 64 \<Longrightarrow> b64_char m = b64_char n \<longleftrightarrow> m = n"
proof -
  have "distinct (map b64_char [0..<64])" by code_simp
  then have "inj_on b64_char (set [0..<64])" by (simp add: distinct_map)
  then show "m < 64 \<Longrightarrow> n < 64 \<Longrightarrow> b64_char m = b64_char n \<longleftrightarrow> m = n" by (auto simp: inj_on_def)
qed

lemma b64_char_pad: "n < 64 \<Longrightarrow> b64_char n \<noteq> CHR ''=''"
proof -
  have "list_all (\<lambda>n. b64_char n \<noteq> CHR ''='') [0..<64]" by code_simp
  then show "n < 64 \<Longrightarrow> b64_char n \<noteq> CHR ''=''" by (simp add: list_all_iff)
qed

lemma digits_unique:
  fixes x y :: nat
  assumes "x * n + y = x' * n + y'" and "y < n" and "y' < n"
  shows "x = x' \<and> y = y'"
proof -
  have "(x * n + y) div n = x" "(x' * n + y') div n = x'" using assms(2,3) by simp_all
  with assms show ?thesis by auto
qed

lemma div_mod_unique: "a div n = b div n \<Longrightarrow> a mod n = b mod n \<Longrightarrow> a = (b :: nat)"
  by (metis div_mult_mod_eq)

lemma sextets:
  assumes "a < 256" and "b < 256" and "c < (256 :: nat)"
  shows "a div 4 < 64" "a mod 4 * 16 + b div 16 < 64" "b mod 16 * 4 + c div 64 < 64" "c mod 64 < 64"
    "a mod 4 * 16 < 64" "b mod 16 * 4 < 64" "b div 16 < 16" "c div 64 < 4"
proof -
  have m: "a mod 4 < 4" "b mod 16 < 16" by simp_all
  show d: "b div 16 < 16" "c div 64 < 4" "a div 4 < 64" using assms by (auto simp: div_less_iff_less_mult)
  show "a mod 4 * 16 + b div 16 < 64" "b mod 16 * 4 + c div 64 < 64" "a mod 4 * 16 < 64" "b mod 16 * 4 < 64" "c mod 64 < 64"
    using m d by linarith+
qed

lemma triple_unique:
  assumes "a < 256" "b < 256" "c < 256" "a' < 256" "b' < 256" "c' < 256"
    and "b64_char (a div 4) = b64_char (a' div 4)"
    and "b64_char (a mod 4 * 16 + b div 16) = b64_char (a' mod 4 * 16 + b' div 16)"
    and "b64_char (b mod 16 * 4 + c div 64) = b64_char (b' mod 16 * 4 + c' div 64)"
    and "b64_char (c mod 64) = b64_char (c' mod 64)"
  shows "a = a' \<and> b = b' \<and> c = c'"
proof -
  note s = sextets [OF assms(1-3)] and s' = sextets [OF assms(4-6)]
  have a: "a div 4 = a' div 4" using assms(7) by (simp only: b64_char_inj [OF s(1) s'(1)])
  have "a mod 4 * 16 + b div 16 = a' mod 4 * 16 + b' div 16" using assms(8) by (simp only: b64_char_inj [OF s(2) s'(2)])
  from digits_unique [OF this s(7) s'(7)] have b: "a mod 4 = a' mod 4" "b div 16 = b' div 16" by blast+
  have "b mod 16 * 4 + c div 64 = b' mod 16 * 4 + c' div 64" using assms(9) by (simp only: b64_char_inj [OF s(3) s'(3)])
  from digits_unique [OF this s(8) s'(8)] have c: "b mod 16 = b' mod 16" "c div 64 = c' div 64" by blast+
  have "c mod 64 = c' mod 64" using assms(10) by (simp only: b64_char_inj [OF s(4) s'(4)])
  with a b c show ?thesis by (blast intro: div_mod_unique)
qed

text \<open>A padded group is that of a triple which ends in zeros.\<close>

lemma base64_padded:
  "base64 [a] = [b64_char (a div 4), b64_char (a mod 4 * 16 + 0 div 16), CHR ''='', CHR ''='']"
  "base64 [a, b] = [b64_char (a div 4), b64_char (a mod 4 * 16 + b div 16), b64_char (b mod 16 * 4 + 0 div 64), CHR ''='']"
  by simp_all

lemma base64_pads:
  assumes "b < 256" "c < (256 :: nat)"
  shows "CHR ''='' \<noteq> b64_char (b mod 16 * 4 + c div 64)" "CHR ''='' \<noteq> b64_char (c mod 64)"
  proof -
  have "(0 :: nat) < 256" by simp
  note s = sextets(3,4) [OF this assms]
  show "CHR ''='' \<noteq> b64_char (b mod 16 * 4 + c div 64)" using b64_char_pad [OF s(1)] by metis
  show "CHR ''='' \<noteq> b64_char (c mod 64)" using b64_char_pad [OF s(2)] by metis
qed

lemma base64_inj: "\<forall>b \<in> set bs \<union> set cs. b < 256 \<Longrightarrow> base64 bs = base64 cs \<Longrightarrow> bs = cs"
proof (induction bs arbitrary: cs rule: base64.induct)
  case 1
  then show ?case by (cases cs rule: base64.cases) auto
next
  case (2 a)
  show ?case
  proof (cases cs rule: base64.cases)
    case (2 x)
    with "2.prems" triple_unique [of a 0 0 x 0 0] show ?thesis by simp
  next
    case (3 x y)
    with "2.prems" base64_pads(1) [of y 0] show ?thesis by simp
  next
    case (4 x y z ws)
    with "2.prems" base64_pads(1) [of y z] show ?thesis by simp
  qed (use "2.prems" in simp)
next
  case (3 a b)
  show ?case
  proof (cases cs rule: base64.cases)
    case (2 x)
    with "3.prems" base64_pads(1) [of b 0] show ?thesis by (auto dest: sym)
  next
    case (3 x y)
    with "3.prems" triple_unique [of a b 0 x y 0] show ?thesis by simp
  next
    case (4 x y z ws)
    with "3.prems" base64_pads(2) [of y z] show ?thesis by simp
  qed (use "3.prems" in simp)
next
  case (4 a b c rest)
  show ?case
  proof (cases cs rule: base64.cases)
    case (2 x)
    with "4.prems" base64_pads(1) [of b c] show ?thesis by (auto dest: sym)
  next
    case (3 x y)
    with "4.prems" base64_pads(2) [of b c] show ?thesis by (auto dest: sym)
  next
    case (4 x y z ws)
    with "4.prems" have "a = x \<and> b = y \<and> c = z" by (intro triple_unique) simp_all
    moreover have "rest = ws" using "4.prems" 4 by (intro "4.IH") simp_all
    ultimately show ?thesis using 4 by simp
  qed (use "4.prems" in simp)
qed

section \<open>Documents\<close>

text \<open>The alphabet of base64 needs no escapes.\<close>

definition plain_byte :: "nat \<Rightarrow> bool" where
  "plain_byte b \<longleftrightarrow> 0x20 \<le> b \<and> b < 0x80 \<and> b \<noteq> 0x22 \<and> b \<noteq> 0x5C \<and> b \<noteq> 0x3C \<and> b \<noteq> 0x3E \<and> b \<noteq> 0x26"

lemma json_chars_plain:
  assumes "list_all plain_byte bs"
  shows "json_chars bs = map char_of bs"
  using assms
proof (induction bs)
  case (Cons b bs)
  then have b: "b < 0x80" "json_ascii b = [char_of b]" by (auto simp: json_ascii_def plain_byte_def)
  then have "utf8_len (b # bs) = 1" by simp
  then have "json_chars (b # bs) = json_ascii b @ json_chars bs" by (subst json_chars.simps) simp
  with Cons b show ?case by simp
qed (simp add: json_chars.simps)

lemma b64_char_plain: "n < 64 \<Longrightarrow> plain_byte (of_char (b64_char n))"
  by (auto simp: b64_char_def plain_byte_def take_bit_eq_mod)

lemma base64_plain: "\<forall>b \<in> set bs. b < 256 \<Longrightarrow> c \<in> set (base64 bs) \<Longrightarrow> plain_byte (of_char c)"
proof (induction bs rule: base64.induct)
  case (2 a)
  have "plain_byte (of_char CHR ''='')" by (simp add: plain_byte_def)
  with 2 sextets [of a 0 0] show ?case by (auto intro: b64_char_plain)
next
  case (3 a b)
  have "plain_byte (of_char CHR ''='')" by (simp add: plain_byte_def)
  with 3 sextets [of a b 0] show ?case by (auto intro: b64_char_plain)
next
  case (4 a b c rest)
  with sextets [of a b c] show ?case by (auto intro: b64_char_plain)
qed simp

definition base64_of :: "string \<Rightarrow> string" where
  "base64_of s = base64 (map of_char s)"

lemma bytes_bound: "\<forall>b \<in> set (map of_char s). (b :: nat) < 256"
  by (auto simp: of_char_def)

lemma base64_of_inj: "base64_of s = base64_of t \<longleftrightarrow> s = t"
proof
  assume "base64_of s = base64_of t"
  moreover have "\<forall>b \<in> set (map of_char s) \<union> set (map of_char t). (b :: nat) < 256"
    using bytes_bound [of s] bytes_bound [of t] by blast
  ultimately have "map of_char s = (map of_char t :: nat list)" unfolding base64_of_def by (intro base64_inj)
  then show "s = t" by (simp add: inj_map_eq_map inj_def)
qed simp

lemma base64_of_plain: "list_all plain_byte (map of_char (base64_of s))"
  using base64_plain [OF bytes_bound, of _ s] by (simp add: list_all_iff base64_of_def)

lemma json_bytes_string: "json_bytes (Some s) = json_string (base64_of s)"
proof -
  have "json_chars (map of_char (base64_of s)) = base64_of s"
    using json_chars_plain [OF base64_of_plain] by (simp add: map_idI)
  then show ?thesis by (simp add: json_bytes_def json_string_def base64_of_def)
qed

lemma plain_sanitise: "list_all plain_byte bs \<Longrightarrow> sanitise bs = map char_of bs"
proof (induction bs)
  case (Cons b bs)
  then have "utf8_len (b # bs) = 1" by (simp add: plain_byte_def)
  with Cons show ?case by (subst sanitise.simps) simp
qed (simp add: sanitise.simps)

lemma base64_utf8: "valid_utf8 (base64_of s)"
  using plain_sanitise [OF base64_of_plain, of s] by (simp add: valid_utf8_def map_idI)

section \<open>Config maps\<close>

definition bytes_value :: "string option \<Rightarrow> json" where
  "bytes_value v = (case v of None \<Rightarrow> JNull | Some s \<Rightarrow> JString (base64_of s))"

definition config_document :: "ConfigMap \<Rightarrow> json" where
  "config_document cm = JObject
     ((if BinaryData cm \<noteq> fmempty
       then [(''binaryData'', JObject (map (map_prod id bytes_value) (sorted_list_of_fmap (BinaryData cm))))] else []) @
      [(''data'', case Data cm of None \<Rightarrow> JNull | Some m \<Rightarrow> JObject (map (map_prod id JString) (sorted_list_of_fmap m))),
       (''name'', JString (cm_Name cm))])"

text \<open>Names, keys and values as the API server hands them out; binary values may be any bytes.\<close>

definition valid_config :: "ConfigMap \<Rightarrow> bool" where
  "valid_config cm \<longleftrightarrow> valid_utf8 (cm_Name cm) \<and>
     (case Data cm of None \<Rightarrow> True | Some m \<Rightarrow> list_all (\<lambda>(k, v). valid_utf8 k \<and> valid_utf8 v) (sorted_list_of_fmap m)) \<and>
     list_all (\<lambda>(k, v). valid_utf8 k) (sorted_list_of_fmap (BinaryData cm))"

lemma print_bytes: "print_json (bytes_value v) = json_bytes v"
  by (cases v) (simp_all add: bytes_value_def json_bytes_string, simp add: json_bytes_def)

lemma encode_document: "encodeConfigMap cm = print_json (config_document cm)"
  by (simp add: encodeConfigMap_def config_document_def print_bytes comp_def map_prod_def case_prod_unfold split: option.split)

lemma document_wf: "valid_config cm \<Longrightarrow> wf_json (config_document cm)"
proof -
  have key: "valid_utf8 ''binaryData''" "valid_utf8 ''data''" "valid_utf8 ''name''" by code_simp+
  have bytes: "wf_json (bytes_value v)" for v by (cases v) (simp_all add: bytes_value_def base64_utf8)
  show "valid_config cm \<Longrightarrow> wf_json (config_document cm)"
    by (auto simp: config_document_def valid_config_def key bytes list_all_iff split: option.splits)
qed

lemma fmap_list_inj: "sorted_list_of_fmap m = sorted_list_of_fmap m' \<longleftrightarrow> m = m'"
  by (metis map_of_sorted_list fmap_ext)

lemma document_inj:
  "config_document cm = config_document cm' \<longleftrightarrow>
    cm_Name cm = cm_Name cm' \<and> Data cm = Data cm' \<and> BinaryData cm = BinaryData cm'"
proof -
  have "inj bytes_value" by (intro injI) (auto simp: bytes_value_def base64_of_inj split: option.splits)
  then have "inj (map_prod (id :: string \<Rightarrow> string) bytes_value)" by (intro prod.inj_map inj_on_id)
  from inj_map_eq_map [OF this]
  have maps: "map (map_prod id bytes_value) xs = map (map_prod id bytes_value) ys \<longleftrightarrow> xs = ys" for xs ys :: "(string \<times> string option) list" .
  have "inj JString" by (intro injI) simp
  then have "inj (map_prod (id :: string \<Rightarrow> string) JString)" by (intro prod.inj_map inj_on_id)
  from inj_map_eq_map [OF this]
  have texts: "map (map_prod id JString) xs = map (map_prod id JString) ys \<longleftrightarrow> xs = ys" for xs ys :: "(string \<times> string) list" .
  show ?thesis
    by (cases "Data cm"; cases "Data cm'")
      (auto simp: config_document_def maps texts fmap_list_inj split: if_splits)
qed

text \<open>
  (C27) The text that is hashed tells config maps apart: of two config maps of valid strings the texts are
  the same exactly if name, data and binary data are. So whenever the content of a cluster's config map
  changes, the annotation of its pods changes, unless SHA-256 collides.
\<close>

theorem config_encoding_injective:
  assumes "valid_config cm" and "valid_config cm'"
  shows "(encodeConfigMap cm = encodeConfigMap cm' \<longleftrightarrow>
      cm_Name cm = cm_Name cm' \<and> Data cm = Data cm' \<and> BinaryData cm = BinaryData cm') \<and>
    (ConfigMapHash (Some cm) = ConfigMapHash (Some cm') \<longrightarrow>
      cm_Name cm = cm_Name cm' \<and> Data cm = Data cm' \<and> BinaryData cm = BinaryData cm' \<or>
      encodeConfigMap cm \<noteq> encodeConfigMap cm' \<and> hash (encodeConfigMap cm) = hash (encodeConfigMap cm'))"
proof -
  have "parse_json (encodeConfigMap cm) = Some (config_document cm)" "parse_json (encodeConfigMap cm') = Some (config_document cm')"
    unfolding encode_document by (intro parse_json_print document_wf assms)+
  then have "encodeConfigMap cm = encodeConfigMap cm' \<longleftrightarrow> config_document cm = config_document cm'"
    unfolding encode_document by (metis option.inject)
  then have "encodeConfigMap cm = encodeConfigMap cm' \<longleftrightarrow>
      cm_Name cm = cm_Name cm' \<and> Data cm = Data cm' \<and> BinaryData cm = BinaryData cm'"
    unfolding document_inj .
  then show ?thesis unfolding ConfigMapHash_def option.case by blast
qed

definition yaml_config :: "string \<Rightarrow> ConfigMap" where
  "yaml_config v = \<lparr>cm_Name = ''c-config'', cm_Namespace = ''n'', Data = Some (fmupd ''cassandra.yaml'' v fmempty),
     BinaryData = fmempty\<rparr>"

lemma config_encoding_injective_witness:
  "encodeConfigMap (yaml_config ''a: <1>'') \<noteq> encodeConfigMap (yaml_config ''a: <2>'')"
proof -
  have "valid_utf8 ''c-config''" "valid_utf8 ''cassandra.yaml''" "valid_utf8 ''a: <1>''" "valid_utf8 ''a: <2>''" by code_simp+
  then have "valid_config (yaml_config ''a: <1>'')" "valid_config (yaml_config ''a: <2>'')"
    by (simp_all add: valid_config_def yaml_config_def fmpred_iff)
  moreover have "Data (yaml_config ''a: <1>'') \<noteq> Data (yaml_config ''a: <2>'')"
    by (auto simp: yaml_config_def dest!: arg_cong [where f = "\<lambda>m. fmlookup m ''cassandra.yaml''"])
  ultimately show ?thesis using config_encoding_injective by blast
qed

end
