(* ===== verification/JolokiaJson.thy ===== *)
theory JolokiaJson
  imports JsonRoundtrip Metrics
begin

text \<open>
  The answers of Jolokia, after the response types of \<^verbatim>\<open>cassandra-operator/pkg/metrics/metrics.go\<close>:
  \<open>json.Unmarshal\<close> of Go 1.11 into \<open>multiValueJolokiaResponse\<close> and \<open>singleValueJolokiaResponse\<close>.
  It takes the place of the two decoders that \<open>Metrics\<close> has as parameters, so that what the operator
  reports can be followed back to the bytes it is sent.
\<close>

section \<open>The response types\<close>

record jolokiaRequest =
  Mbean :: string
  Attribute :: string
  Operation :: string

record baseJolokiaResponse =
  jr_Request :: jolokiaRequest
  jr_Timestamp :: "64 word"
  jr_Status :: "16 word"

definition status :: "baseJolokiaResponse \<Rightarrow> 16 word" where
  "status b = jr_Status b"

text \<open>
  A Go slice of strings: its length and the array behind it, whose length is the capacity. The
  decoder reuses the array when a member occurs twice.
\<close>

type_synonym slice = "nat \<times> string list"

definition elems :: "slice \<Rightarrow> string list" where
  "elems s = take (fst s) (snd s)"

record multiValueJolokiaResponse =
  multi_base :: baseJolokiaResponse
  multi_Value :: slice

record singleValueJolokiaResponse =
  single_base :: baseJolokiaResponse
  single_Value :: string

definition zero_base :: baseJolokiaResponse where
  "zero_base = \<lparr>jr_Request = \<lparr>Mbean = [], Attribute = [], Operation = []\<rparr>, jr_Timestamp = 0, jr_Status = 0\<rparr>"

definition zero_multi :: multiValueJolokiaResponse where
  "zero_multi = \<lparr>multi_base = zero_base, multi_Value = (0, [])\<rparr>"

definition zero_single :: singleValueJolokiaResponse where
  "zero_single = \<lparr>single_base = zero_base, single_Value = []\<rparr>"

section \<open>Which field a member names\<close>

text \<open>
  Case does not matter to \<open>encoding/json\<close>: \<open>equalFoldRight\<close>, which takes the long s and the Kelvin
  sign for the letters they fold to. For the names without an s or a k it is \<open>simpleLetterEqualFold\<close>.
\<close>

definition case_mask :: "char \<Rightarrow> nat" where
  "case_mask c = (let b = of_char c in if 32 \<le> b mod 64 then b - 32 else b)"

definition same_letter :: "char \<Rightarrow> char \<Rightarrow> bool" where
  "same_letter s t \<longleftrightarrow> s = t \<or> (65 \<le> case_mask s \<and> case_mask s \<le> 90 \<and> case_mask s = case_mask t)"

definition long_s :: string where
  "long_s = map char_of [0xC5 :: nat, 0xBF]"

definition kelvin :: string where
  "kelvin = map char_of [0xE2 :: nat, 0x84, 0xAA]"

fun equal_fold :: "string \<Rightarrow> string \<Rightarrow> bool" where
  "equal_fold [] t \<longleftrightarrow> t = []"
| "equal_fold (s # ss) t \<longleftrightarrow>
     (case t of
        [] \<Rightarrow> False
      | c # cs \<Rightarrow>
          if (of_char c :: nat) < 0x80 then same_letter s c \<and> equal_fold ss cs
          else if s = CHR ''s'' \<or> s = CHR ''S'' then prefix long_s t \<and> equal_fold ss (drop 2 t)
          else if s = CHR ''k'' \<or> s = CHR ''K'' then prefix kelvin t \<and> equal_fold ss (drop 3 t)
          else False)"

section \<open>Decoding\<close>

text \<open>
  A value of the wrong type is an error, after which the decoder still goes on; but the caller drops
  the response of a failed call, so \<open>None\<close> ends the model here. \<^verbatim>\<open>null\<close> leaves a field as it is.
\<close>

definition into_string :: "json \<Rightarrow> string \<Rightarrow> string option" where
  "into_string v old = (case v of JNull \<Rightarrow> Some old | JString s \<Rightarrow> Some s | _ \<Rightarrow> None)"

definition into_uint16 :: "json \<Rightarrow> 16 word \<Rightarrow> 16 word option" where
  "into_uint16 v old =
     (case v of
        JNull \<Rightarrow> Some old
      | JNumber n \<Rightarrow>
          (if list_all is_digit n
           then (case Atoi n of Inl _ \<Rightarrow> None | Inr i \<Rightarrow> if i < 65536 then Some (word_of_int i) else None)
           else None)
      | _ \<Rightarrow> None)"

definition into_int64 :: "json \<Rightarrow> 64 word \<Rightarrow> 64 word option" where
  "into_int64 v old =
     (case v of
        JNull \<Rightarrow> Some old
      | JNumber n \<Rightarrow> (case Atoi n of Inl _ \<Rightarrow> None | Inr i \<Rightarrow> Some (word_of_int i))
      | _ \<Rightarrow> None)"

text \<open>Room for one more element: half as much again, at least four, copying what is there.\<close>

definition grow :: "slice \<Rightarrow> slice" where
  "grow = (\<lambda>(n, xs).
     (n, take n xs @ replicate (max 4 (length xs + length xs div 2) - n) []))"

definition reach :: "nat \<Rightarrow> slice \<Rightarrow> slice" where
  "reach i s =
     (let (n, xs) = (if length (snd s) \<le> i then grow s else s) in (if n \<le> i then i + 1 else n, xs))"

fun into_elements :: "nat \<Rightarrow> json list \<Rightarrow> slice \<Rightarrow> slice option" where
  "into_elements i [] s = Some (if i = 0 then (0, []) else (i, snd s))"
| "into_elements i (v # vs) s =
     (let (n, xs) = reach i s
      in case into_string v (xs ! i) of None \<Rightarrow> None | Some x \<Rightarrow> into_elements (i + 1) vs (n, xs[i := x]))"

definition into_strings :: "json \<Rightarrow> slice \<Rightarrow> slice option" where
  "into_strings v old =
     (case v of JNull \<Rightarrow> Some (0, []) | JArray vs \<Rightarrow> into_elements 0 vs old | _ \<Rightarrow> None)"

type_synonym 'r field = "string \<times> (json \<Rightarrow> 'r \<Rightarrow> 'r option)"

definition into_member :: "'r field list \<Rightarrow> string \<times> json \<Rightarrow> 'r \<Rightarrow> 'r option" where
  "into_member fs = (\<lambda>(k, v) r.
     (case find (\<lambda>(name, _). equal_fold name k) fs of None \<Rightarrow> Some r | Some (_, into) \<Rightarrow> into v r))"

fun into_members :: "'r field list \<Rightarrow> (string \<times> json) list \<Rightarrow> 'r \<Rightarrow> 'r option" where
  "into_members fs [] r = Some r"
| "into_members fs (kv # kvs) r =
     (case into_member fs kv r of None \<Rightarrow> None | Some r' \<Rightarrow> into_members fs kvs r')"

definition into_struct :: "'r field list \<Rightarrow> json \<Rightarrow> 'r \<Rightarrow> 'r option" where
  "into_struct fs v r =
     (case v of JNull \<Rightarrow> Some r | JObject kvs \<Rightarrow> into_members fs kvs r | _ \<Rightarrow> None)"

definition request_fields :: "jolokiaRequest field list" where
  "request_fields =
     [(''Mbean'', \<lambda>v r. map_option (\<lambda>x. r\<lparr>Mbean := x\<rparr>) (into_string v (Mbean r))),
      (''Attribute'', \<lambda>v r. map_option (\<lambda>x. r\<lparr>Attribute := x\<rparr>) (into_string v (Attribute r))),
      (''Operation'', \<lambda>v r. map_option (\<lambda>x. r\<lparr>Operation := x\<rparr>) (into_string v (Operation r)))]"

definition base_fields :: "baseJolokiaResponse field list" where
  "base_fields =
     [(''Request'', \<lambda>v r. map_option (\<lambda>x. r\<lparr>jr_Request := x\<rparr>) (into_struct request_fields v (jr_Request r))),
      (''Timestamp'', \<lambda>v r. map_option (\<lambda>x. r\<lparr>jr_Timestamp := x\<rparr>) (into_int64 v (jr_Timestamp r))),
      (''Status'', \<lambda>v r. map_option (\<lambda>x. r\<lparr>jr_Status := x\<rparr>) (into_uint16 v (jr_Status r)))]"

text \<open>The fields of the embedded struct count as fields of the struct that embeds it.\<close>

definition multi_fields :: "multiValueJolokiaResponse field list" where
  "multi_fields =
     map (map_prod id (\<lambda>into v r. map_option (\<lambda>x. r\<lparr>multi_base := x\<rparr>) (into v (multi_base r)))) base_fields @
     [(''Value'', \<lambda>v r. map_option (\<lambda>x. r\<lparr>multi_Value := x\<rparr>) (into_strings v (multi_Value r)))]"

definition single_fields :: "singleValueJolokiaResponse field list" where
  "single_fields =
     map (map_prod id (\<lambda>into v r. map_option (\<lambda>x. r\<lparr>single_base := x\<rparr>) (into v (single_base r)))) base_fields @
     [(''Value'', \<lambda>v r. map_option (\<lambda>x. r\<lparr>single_Value := x\<rparr>) (into_string v (single_Value r)))]"

text \<open>What an error says is the decoder's business: \<open>msg\<close>.\<close>

definition decode_multi :: "string \<Rightarrow> multiValueJolokiaResponse option" where
  "decode_multi s =
     (case parse_json s of None \<Rightarrow> None | Some v \<Rightarrow> into_struct multi_fields v zero_multi)"

definition decode_single :: "string \<Rightarrow> singleValueJolokiaResponse option" where
  "decode_single s =
     (case parse_json s of None \<Rightarrow> None | Some v \<Rightarrow> into_struct single_fields v zero_single)"

definition unmarshal_multi :: "(string \<Rightarrow> string) \<Rightarrow> string \<Rightarrow> string + string list Jolokia" where
  "unmarshal_multi msg s =
     (case decode_multi s of
        None \<Rightarrow> Inl (msg s)
      | Some r \<Rightarrow> Inr \<lparr>jk_Status = uint (status (multi_base r)), jk_Value = elems (multi_Value r)\<rparr>)"

definition unmarshal_single :: "(string \<Rightarrow> string) \<Rightarrow> string \<Rightarrow> string + string Jolokia" where
  "unmarshal_single msg s =
     (case decode_single s of
        None \<Rightarrow> Inl (msg s)
      | Some r \<Rightarrow> Inr \<lparr>jk_Status = uint (status (single_base r)), jk_Value = single_Value r\<rparr>)"

section \<open>Lemmas\<close>

lemma reach_room:
  assumes "i \<le> fst s" and "fst s \<le> length (snd s)"
  shows "i < length (snd (reach i s)) \<and> i < fst (reach i s) \<and> fst (reach i s) \<le> length (snd (reach i s)) \<and>
    take i (snd (reach i s)) = take i (snd s)"
  using assms by (cases s) (auto simp: reach_def grow_def Let_def)

lemma into_elements_strings:
  assumes "i \<le> fst s" and "fst s \<le> length (snd s)"
  shows "\<exists>s'. into_elements i (map JString vs) s = Some s' \<and> elems s' = take i (snd s) @ vs \<and>
    fst s' \<le> length (snd s')"
  using assms
proof (induction vs arbitrary: i s)
  case Nil
  then show ?case by (auto simp: elems_def)
next
  case (Cons v vs)
  obtain n xs where nxs: "reach i s = (n, xs)" by fastforce
  with reach_room [OF Cons.prems] have room: "i < length xs" "i < n" "n \<le> length xs" "take i xs = take i (snd s)"
    by simp_all
  with Cons.IH [of "i + 1" "(n, xs[i := v])"] obtain s' where
    s': "into_elements (i + 1) (map JString vs) (n, xs[i := v]) = Some s'"
      "elems s' = take (i + 1) (xs[i := v]) @ vs" "fst s' \<le> length (snd s')" by auto
  moreover have "take (i + 1) (xs[i := v]) = take i (snd s) @ [v]"
    using room(1,4) by (simp add: take_Suc_conv_app_nth)
  ultimately show ?case by (simp add: nxs into_string_def)
qed

text \<open>What the members of an object leave in two parts of a struct, when each sets them or leaves them alone.\<close>

lemma into_members_last:
  assumes "\<And>k x r. (k, x) \<in> set kvs \<Longrightarrow> J r \<Longrightarrow> \<exists>r'. into_member fs (k, x) r = Some r' \<and> J r' \<and>
      p r' = (if names_p k then a else p r) \<and> q r' = (if names_q k then b else q r)"
    and "J r"
  shows "\<exists>r'. into_members fs kvs r = Some r' \<and> J r' \<and>
      p r' = (if \<exists>(k, x) \<in> set kvs. names_p k then a else p r) \<and>
      q r' = (if \<exists>(k, x) \<in> set kvs. names_q k then b else q r)"
  using assms
proof (induction kvs arbitrary: r)
  case (Cons kv kvs)
  obtain k x where kv: "kv = (k, x)" by fastforce
  with Cons.prems(1) [of k x r] Cons.prems(2) obtain r1 where
    r1: "into_member fs kv r = Some r1" "J r1" "p r1 = (if names_p k then a else p r)" "q r1 = (if names_q k then b else q r)"
    by auto
  have "\<And>k x r. (k, x) \<in> set kvs \<Longrightarrow> J r \<Longrightarrow> \<exists>r'. into_member fs (k, x) r = Some r' \<and> J r' \<and>
      p r' = (if names_p k then a else p r) \<and> q r' = (if names_q k then b else q r)"
    using Cons.prems(1) by simp
  from Cons.IH [OF this r1(2)] obtain r' where
    "into_members fs kvs r1 = Some r'" "J r'" "p r' = (if \<exists>(k, x) \<in> set kvs. names_p k then a else p r1)"
    "q r' = (if \<exists>(k, x) \<in> set kvs. names_q k then b else q r1)" by blast
  with r1 show ?case by (auto simp: kv)
qed simp

text \<open>A member names one field at most.\<close>

lemma fold_head: "equal_fold (s # ss) t \<Longrightarrow> \<exists>c cs. t = c # cs \<and>
    (same_letter s c \<or> \<not> (of_char c :: nat) < 0x80 \<and> (s = CHR ''s'' \<or> s = CHR ''S'' \<or> s = CHR ''k'' \<or> s = CHR ''K''))"
  by (auto split: list.splits if_splits)

lemma same_letter_masks: "same_letter s t \<Longrightarrow> case_mask s = case_mask t"
  by (auto simp: same_letter_def)

lemma heads_apart:
  assumes "case_mask s \<noteq> case_mask s'" and "case_mask s \<notin> {75, 83}" and "65 \<le> case_mask s" "case_mask s \<le> 90"
  shows "equal_fold (s # ss) k \<Longrightarrow> \<not> equal_fold (s' # ss') k"
proof
  assume folds: "equal_fold (s # ss) k" "equal_fold (s' # ss') k"
  from fold_head [OF folds(1)] obtain c cs where c: "k = c # cs" "same_letter s c \<or> (s = CHR ''s'' \<or> s = CHR ''S'' \<or> s = CHR ''k'' \<or> s = CHR ''K'')"
    by blast
  with assms(2) have "same_letter s c" by (auto simp: case_mask_def)
  moreover from this assms(3,4) have "(of_char c :: nat) < 0x80"
    using same_letter_masks [of s c] by (auto simp: case_mask_def Let_def split: if_splits)
  moreover have "same_letter s' c" using fold_head [OF folds(2)] c(1) \<open>of_char c < 0x80\<close> by auto
  ultimately show False using assms(1) same_letter_masks by metis
qed

lemma name_masks [simp]:
  "case_mask CHR ''R'' = 82" "case_mask CHR ''T'' = 84" "case_mask CHR ''S'' = 83" "case_mask CHR ''V'' = 86"
  "case_mask CHR ''M'' = 77" "case_mask CHR ''A'' = 65" "case_mask CHR ''O'' = 79"
  by (simp_all add: case_mask_def)

declare equal_fold.simps(2) [simp del]

lemma field_names:
  "equal_fold ''Request'' k \<Longrightarrow> \<not> equal_fold ''Timestamp'' k"
  "equal_fold ''Request'' k \<Longrightarrow> \<not> equal_fold ''Status'' k"
  "equal_fold ''Request'' k \<Longrightarrow> \<not> equal_fold ''Value'' k"
  "equal_fold ''Timestamp'' k \<Longrightarrow> \<not> equal_fold ''Status'' k"
  "equal_fold ''Timestamp'' k \<Longrightarrow> \<not> equal_fold ''Value'' k"
  "equal_fold ''Value'' k \<Longrightarrow> \<not> equal_fold ''Status'' k"
  by ((rule heads_apart; simp only: name_masks; simp); fail)+

lemma field_cases:
  obtains "equal_fold ''Request'' k" "\<not> equal_fold ''Timestamp'' k" "\<not> equal_fold ''Status'' k" "\<not> equal_fold ''Value'' k" 
    | "\<not> equal_fold ''Request'' k" "equal_fold ''Timestamp'' k" "\<not> equal_fold ''Status'' k" "\<not> equal_fold ''Value'' k" 
    | "\<not> equal_fold ''Request'' k" "\<not> equal_fold ''Timestamp'' k" "equal_fold ''Status'' k" "\<not> equal_fold ''Value'' k" 
    | "\<not> equal_fold ''Request'' k" "\<not> equal_fold ''Timestamp'' k" "\<not> equal_fold ''Status'' k" "equal_fold ''Value'' k" 
    | "\<not> equal_fold ''Request'' k" "\<not> equal_fold ''Timestamp'' k" "\<not> equal_fold ''Status'' k" "\<not> equal_fold ''Value'' k"
  using field_names by blast

section \<open>What Jolokia answers\<close>

text \<open>
  An answer of the given status and value, in terms of the members of the object: in any order, with
  other members beside them, under names of any case. Only an answer of status 200 need have a value.
\<close>

definition request_document :: "json set" where
  "request_document = JObject ` {ms. \<forall>(k, x) \<in> set ms.
     x \<in> range JString \<or> (\<forall>name \<in> {''Mbean'', ''Attribute'', ''Operation''}. \<not> equal_fold name k)}"

definition answer_member :: "16 word \<Rightarrow> json \<Rightarrow> string \<Rightarrow> json \<Rightarrow> bool" where
  "answer_member st v k x \<longleftrightarrow>
     (equal_fold ''Request'' k \<longrightarrow> x \<in> request_document) \<and>
     (equal_fold ''Timestamp'' k \<longrightarrow> x \<in> range (\<lambda>t :: 64 word. JNumber (itoa (sint t)))) \<and>
     (equal_fold ''Status'' k \<longrightarrow> x = JNumber (itoa (uint st))) \<and>
     (equal_fold ''Value'' k \<longrightarrow> x = v)"

definition has_member :: "string \<Rightarrow> (string \<times> json) list \<Rightarrow> bool" where
  "has_member name kvs \<longleftrightarrow> (\<exists>(k, x) \<in> set kvs. equal_fold name k)"

definition jolokia_answer :: "16 word \<Rightarrow> json \<Rightarrow> (string \<times> json) list \<Rightarrow> bool" where
  "jolokia_answer st v kvs \<longleftrightarrow>
     (\<forall>(k, x) \<in> set kvs. answer_member st v k x) \<and> has_member ''Status'' kvs \<and>
     (st = 200 \<longrightarrow> has_member ''Value'' kvs)"

lemma request_member_reads:
  "x \<in> range JString \<or> (\<forall>name \<in> {''Mbean'', ''Attribute'', ''Operation''}. \<not> equal_fold name k) \<Longrightarrow>
     \<exists>r'. into_member request_fields (k, x) r = Some r'"
  by (auto simp: into_member_def request_fields_def into_string_def)

lemma request_reads: "x \<in> request_document \<Longrightarrow> \<exists>r'. into_struct request_fields x r = Some r'"
proof -
  assume "x \<in> request_document"
  then obtain ms where x: "x = JObject ms" and "\<forall>(k, x) \<in> set ms.
      x \<in> range JString \<or> (\<forall>name \<in> {''Mbean'', ''Attribute'', ''Operation''}. \<not> equal_fold name k)"
    unfolding request_document_def by (elim imageE CollectE)
  then have ms: "\<And>k x. (k, x) \<in> set ms \<Longrightarrow> x \<in> range JString \<or> (\<forall>name \<in> {''Mbean'', ''Attribute'', ''Operation''}. \<not> equal_fold name k)"
    by fast
  have "\<exists>r'. into_members request_fields ms r = Some r'"
    using ms
  proof (induction ms arbitrary: r)
    case (Cons kv ms)
    obtain k x where kv: "kv = (k, x)" by fastforce
    with Cons.prems have "x \<in> range JString \<or> (\<forall>name \<in> {''Mbean'', ''Attribute'', ''Operation''}. \<not> equal_fold name k)"
      by (metis list.set_intros(1))
    from request_member_reads [OF this, of r] obtain r' where "into_member request_fields (k, x) r = Some r'" by blast
    moreover have "\<exists>r''. into_members request_fields ms r' = Some r''"
      by (rule Cons.IH) (metis Cons.prems list.set_intros(2))
    ultimately show ?case by (simp add: kv)
  qed simp
  with x show ?thesis by (simp add: into_struct_def)
qed

lemma into_status: "into_uint16 (JNumber (itoa (uint st))) old = Some st" for st :: "16 word"
proof -
  have "uint st < 65536" using uint_range_size [of st] by (simp add: word_size)
  moreover have "itoa (uint st) = dec (unat st)" by (simp add: itoa_def)
  moreover have "Atoi (dec (unat st)) = Inr (uint st)"
    using Atoi_dec [of "unat st"] \<open>uint st < 65536\<close> by (simp add: uint_nat [symmetric])
  ultimately show ?thesis by (simp add: into_uint16_def)
qed

lemma into_timestamp: "into_int64 (JNumber (itoa (sint t))) old = Some t" for t :: "64 word"
  using sint_range_size [of t] Atoi_itoa [of "sint t"] by (simp add: into_int64_def word_size)

lemma multi_member_reads:
  assumes "answer_member st (JArray (map JString vs)) k x" and "fst (multi_Value r) \<le> length (snd (multi_Value r))"
  shows "\<exists>r'. into_member multi_fields (k, x) r = Some r' \<and> fst (multi_Value r') \<le> length (snd (multi_Value r')) \<and>
    jr_Status (multi_base r') = (if equal_fold ''Status'' k then st else jr_Status (multi_base r)) \<and>
    elems (multi_Value r') = (if equal_fold ''Value'' k then vs else elems (multi_Value r))"
proof -
  obtain q where q: "equal_fold ''Request'' k \<longrightarrow> into_struct request_fields x (jr_Request (multi_base r)) = Some q"
    using assms(1) request_reads [of x "jr_Request (multi_base r)"] unfolding answer_member_def by blast
  obtain t where t: "equal_fold ''Timestamp'' k \<longrightarrow> into_int64 x (jr_Timestamp (multi_base r)) = Some t"
    using assms(1) into_timestamp unfolding answer_member_def by blast
  obtain s where s: "into_elements 0 (map JString vs) (multi_Value r) = Some s" "elems s = vs" "fst s \<le> length (snd s)"
    using into_elements_strings [of 0 "multi_Value r" vs] assms(2) by auto
  show ?thesis
    using assms q t s
    by (cases rule: field_cases [of k]) (simp_all add: into_member_def multi_fields_def base_fields_def answer_member_def into_status into_strings_def)
qed

lemma single_member_reads:
  assumes "answer_member st (JString v) k x"
  shows "\<exists>r'. into_member single_fields (k, x) r = Some r' \<and>
    jr_Status (single_base r') = (if equal_fold ''Status'' k then st else jr_Status (single_base r)) \<and>
    single_Value r' = (if equal_fold ''Value'' k then v else single_Value r)"
proof -
  obtain q where q: "equal_fold ''Request'' k \<longrightarrow> into_struct request_fields x (jr_Request (single_base r)) = Some q"
    using assms(1) request_reads [of x "jr_Request (single_base r)"] unfolding answer_member_def by blast
  obtain t where t: "equal_fold ''Timestamp'' k \<longrightarrow> into_int64 x (jr_Timestamp (single_base r)) = Some t"
    using assms(1) into_timestamp unfolding answer_member_def by blast
  show ?thesis
    using assms q t 
    by (cases rule: field_cases [of k]) (simp_all add: into_member_def single_fields_def base_fields_def answer_member_def into_status into_string_def)
qed

text \<open>
  Read from the bytes of the answer, status and value are those of the answer. Without a value
  member the value is empty.
\<close>

definition answered :: "16 word \<Rightarrow> (string \<times> json) list \<Rightarrow> 'v \<Rightarrow> 'v \<Rightarrow> 'v Jolokia" where
  "answered st kvs v none = \<lparr>jk_Status = uint st, jk_Value = (if has_member ''Value'' kvs then v else none)\<rparr>"

lemma unmarshal_multi_answer:
  assumes "jolokia_answer st (JArray (map JString vs)) kvs" and wf: "parse_json s = Some (JObject kvs)"
  shows "unmarshal_multi msg s = Inr (answered st kvs vs [])"
proof -
  from assms(1) have kvs: "\<And>k x. (k, x) \<in> set kvs \<Longrightarrow> answer_member st (JArray (map JString vs)) k x"
    and "has_member ''Status'' kvs"
    unfolding jolokia_answer_def by auto
  have "\<exists>r. into_members multi_fields kvs zero_multi = Some r \<and> fst (multi_Value r) \<le> length (snd (multi_Value r)) \<and>
      jr_Status (multi_base r) = (if \<exists>(k, x) \<in> set kvs. equal_fold ''Status'' k then st else jr_Status (multi_base zero_multi)) \<and>
      elems (multi_Value r) = (if \<exists>(k, x) \<in> set kvs. equal_fold ''Value'' k then vs else elems (multi_Value zero_multi))"
    by (rule into_members_last [where J = "\<lambda>r. fst (multi_Value r) \<le> length (snd (multi_Value r))"
          and p = "\<lambda>r. jr_Status (multi_base r)" and q = "\<lambda>r. elems (multi_Value r)"])
      (use multi_member_reads kvs in \<open>blast | simp add: zero_multi_def\<close>)+
  with \<open>has_member ''Status'' kvs\<close> show ?thesis
    by (auto simp: unmarshal_multi_def decode_multi_def wf into_struct_def status_def
        answered_def has_member_def elems_def [of "(0, [])"] zero_multi_def)
qed

lemma unmarshal_single_answer:
  assumes "jolokia_answer st (JString v) kvs" and wf: "parse_json s = Some (JObject kvs)"
  shows "unmarshal_single msg s = Inr (answered st kvs v [])"
proof -
  from assms(1) have kvs: "\<And>k x. (k, x) \<in> set kvs \<Longrightarrow> answer_member st (JString v) k x"
    and "has_member ''Status'' kvs"
    unfolding jolokia_answer_def by auto
  have "\<exists>r. into_members single_fields kvs zero_single = Some r \<and> True \<and>
      jr_Status (single_base r) = (if \<exists>(k, x) \<in> set kvs. equal_fold ''Status'' k then st else jr_Status (single_base zero_single)) \<and>
      single_Value r = (if \<exists>(k, x) \<in> set kvs. equal_fold ''Value'' k then v else single_Value zero_single)"
    by (rule into_members_last [where J = "\<lambda>r. True"
          and p = "\<lambda>r. jr_Status (single_base r)" and q = single_Value])
      (use single_member_reads kvs in \<open>blast | simp\<close>)+
  with \<open>has_member ''Status'' kvs\<close> show ?thesis
    by (auto simp: unmarshal_single_def decode_single_def wf into_struct_def status_def
        answered_def has_member_def zero_single_def)
qed

section \<open>Gathering from the bytes\<close>

text \<open>
  A Cassandra ring as its Jolokia agents tell of it: the addresses under each bean and the rack of
  each address, in answers of any layout, whichever agent is asked and whenever.
\<close>

definition json_answer :: "string \<Rightarrow> 16 word \<Rightarrow> json \<Rightarrow> bool" where
  "json_answer body st v \<longleftrightarrow> (\<exists>kvs. parse_json body = Some (JObject kvs) \<and> jolokia_answer st v kvs)"

definition serves :: "'w Env \<Rightarrow> string \<Rightarrow> json \<Rightarrow> bool" where
  "serves env url v \<longleftrightarrow>
     (\<forall>w. \<exists>body w'. http_get env (HttpGet url) w = (Inr \<lparr>hr_StatusCode = 200, hr_Body = Some body\<rparr>, w') \<and>
        json_answer body 200 v)"

definition serves_ring :: "'w Env \<Rightarrow> (string \<Rightarrow> string list) \<Rightarrow> (string \<Rightarrow> string) \<Rightarrow> bool" where
  "serves_ring env nodes racks \<longleftrightarrow>
     (\<forall>endpoint. \<forall>mbean \<in> set mbeans. serves env (mbean_url endpoint mbean) (JArray (map JString (nodes mbean)))) \<and>
     (\<forall>endpoint. \<forall>ip \<in> set (nodes ''LiveNodes'' @ nodes ''UnreachableNodes'').
        serves env (rack_url endpoint ip) (JString (racks ip)))"

definition reads_json :: "'w Env \<Rightarrow> bool" where
  "reads_json env \<longleftrightarrow> (\<exists>msg. Unmarshal_multi env = unmarshal_multi msg \<and> Unmarshal_single env = unmarshal_single msg)"

definition ring_status :: "(string \<Rightarrow> string list) \<Rightarrow> (string \<Rightarrow> string) \<Rightarrow> clusterStatus" where
  "ring_status nodes racks =
     \<lparr>nodeRacks = fold (\<lambda>ip. fmupd ip (racks ip)) (nodes ''LiveNodes'' @ nodes ''UnreachableNodes'') fmempty,
      liveNodes = nodes ''LiveNodes'', unreachableNodes = nodes ''UnreachableNodes'',
      joiningNodes = nodes ''JoiningNodes'', leavingNodes = nodes ''LeavingNodes'',
      movingNodes = nodes ''MovingNodes''\<rparr>"

lemma answer_Some: "parse_json body = Some v \<Longrightarrow> body \<noteq> []"
  by (auto simp: parse_json_def skip_def)

lemma uint_200: "uint (200 :: 16 word) = 200"
  by simp

lemma send_multi:
  assumes "reads_json env" and "serves env url (JArray (map JString vs))"
  shows "\<exists>s'. sendRequestToJolokia env (Unmarshal_multi env) zero url s = Done (Inr \<lparr>jk_Status = 200, jk_Value = vs\<rparr>) s'"
proof -
  from assms(1) obtain msg where msg: "Unmarshal_multi env = unmarshal_multi msg" unfolding reads_json_def by blast
  from assms(2) obtain body w' kvs where
    get: "http_get env (HttpGet url) (world s) = (Inr \<lparr>hr_StatusCode = 200, hr_Body = Some body\<rparr>, w')"
    and kvs: "parse_json body = Some (JObject kvs)" "jolokia_answer 200 (JArray (map JString vs)) kvs"
    unfolding serves_def json_answer_def by blast
  from kvs(2) have "has_member ''Value'' kvs" unfolding jolokia_answer_def by blast
  with unmarshal_multi_answer [OF kvs(2,1)] have "unmarshal_multi msg body = Inr \<lparr>jk_Status = 200, jk_Value = vs\<rparr>"
    by (simp add: answered_def uint_200)
  with get answer_Some [OF kvs(1)] show ?thesis
    by (simp add: sendRequestToJolokia_def bind_def call_def pass_def Let_def msg)
qed

lemma send_single:
  assumes "reads_json env" and "serves env url (JString v)"
  shows "\<exists>s'. sendRequestToJolokia env (Unmarshal_single env) zero url s = Done (Inr \<lparr>jk_Status = 200, jk_Value = v\<rparr>) s'"
proof -
  from assms(1) obtain msg where msg: "Unmarshal_single env = unmarshal_single msg" unfolding reads_json_def by blast
  from assms(2) obtain body w' kvs where
    get: "http_get env (HttpGet url) (world s) = (Inr \<lparr>hr_StatusCode = 200, hr_Body = Some body\<rparr>, w')"
    and kvs: "parse_json body = Some (JObject kvs)" "jolokia_answer 200 (JString v) kvs"
    unfolding serves_def json_answer_def by blast
  from kvs(2) have "has_member ''Value'' kvs" unfolding jolokia_answer_def by blast
  with unmarshal_single_answer [OF kvs(2,1)] have "unmarshal_single msg body = Inr \<lparr>jk_Status = 200, jk_Value = v\<rparr>"
    by (simp add: answered_def uint_200)
  with get answer_Some [OF kvs(1)] show ?thesis
    by (simp add: sendRequestToJolokia_def bind_def call_def pass_def Let_def msg)
qed

lemma collect_mbeans_ring:
  assumes "reads_json env" and "serves_ring env nodes racks" and "set ms \<subseteq> set mbeans"
  shows "\<exists>s'. collect_mbeans env endpoint ms vs s = Done (Inr (\<lambda>m. if m \<in> set ms then nodes m else vs m)) s'"
  using assms(3)
proof (induction ms arbitrary: vs s)
  case Nil
  then show ?case by (simp add: pass_def)
next
  case (Cons m ms)
  then have "serves env (mbean_url endpoint m) (JArray (map JString (nodes m)))"
    using assms(2) by (simp add: serves_ring_def)
  from send_multi [OF assms(1) this, of _ s] obtain s1 where
    "sendRequestToJolokia env (Unmarshal_multi env) \<lparr>jk_Status = 0, jk_Value = []\<rparr> (mbean_url endpoint m) s =
       Done (Inr \<lparr>jk_Status = 200, jk_Value = nodes m\<rparr>) s1" by blast
  moreover obtain s2 where "collect_mbeans env endpoint ms (vs(m := nodes m)) s1 =
      Done (Inr (\<lambda>k. if k \<in> set ms then nodes k else (vs(m := nodes m)) k)) s2"
    using Cons by fastforce
  moreover have "(\<lambda>k. if k \<in> set ms then nodes k else (vs(m := nodes m)) k) = (\<lambda>k. if k \<in> set (m # ms) then nodes k else vs k)"
    by (auto simp: fun_eq_iff)
  ultimately show ?case by (simp add: bind_def)
qed

lemma collect_racks_ring:
  assumes "reads_json env" and "\<forall>ip \<in> set ips. serves env (rack_url endpoint ip) (JString (racks ip))"
  shows "\<exists>s'. collect_racks env endpoint ips m s = Done (Inr (fold (\<lambda>ip. fmupd ip (racks ip)) ips m)) s'"
  using assms(2)
proof (induction ips arbitrary: m s)
  case Nil
  then show ?case by (simp add: pass_def)
next
  case (Cons ip ips)
  then have "serves env (rack_url endpoint ip) (JString (racks ip))" by simp
  from send_single [OF assms(1) this, of _ s] obtain s1 where
    "sendRequestToJolokia env (Unmarshal_single env) \<lparr>jk_Status = 0, jk_Value = []\<rparr> (rack_url endpoint ip) s =
       Done (Inr \<lparr>jk_Status = 200, jk_Value = racks ip\<rparr>) s1" by blast
  moreover obtain s2 where "collect_racks env endpoint ips (fmupd ip (racks ip) m) s1 =
      Done (Inr (fold (\<lambda>ip. fmupd ip (racks ip)) ips (fmupd ip (racks ip) m))) s2"
    using Cons by fastforce
  ultimately show ?case by (simp add: bind_def)
qed

lemma returnsD: "returns m \<Longrightarrow> \<exists>a s'. m s = Done a s'"
  by (simp add: returns_def)

lemma GatherMetricsFor_ring:
  assumes "reads_json env" and "serves_ring env nodes racks" and "Intn_ok env" and "range_ok env"
  shows "\<exists>s'. GatherMetricsFor env c s = Done (Inr (ring_status nodes racks)) s'"
proof -
  obtain e1 s1 where s1: "urlFor env c s = Done e1 s1"
    using returnsD [OF returns_urlFor [OF assms(3)]] by blast
  define order where "order = fst (range_keys env mbeans (world s1))"
  define s2 where "s2 = s1\<lparr>world := snd (range_keys env mbeans (world s1))\<rparr>"
  have order: "set order = set mbeans" using range_okD(1) [OF assms(4)] by (simp add: order_def)
  then obtain s3 where s3: "collect_mbeans env e1 order (\<lambda>_. []) s2 =
      Done (Inr (\<lambda>m. if m \<in> set mbeans then nodes m else [])) s3"
    using collect_mbeans_ring [OF assms(1,2), of order] by fastforce
  obtain e2 s4 where s4: "urlFor env c s3 = Done e2 s4"
    using returnsD [OF returns_urlFor [OF assms(3)]] by blast
  obtain s5 where s5: "collect_racks env e2 (nodes ''LiveNodes'' @ nodes ''UnreachableNodes'') fmempty s4 =
      Done (Inr (fold (\<lambda>ip. fmupd ip (racks ip)) (nodes ''LiveNodes'' @ nodes ''UnreachableNodes'') fmempty)) s5"
    using collect_racks_ring [OF assms(1)] assms(2) unfolding serves_ring_def by blast
  have "ask (range_keys env mbeans) s1 = Done order s2"
    by (simp add: ask_def order_def s2_def Let_def case_prod_unfold)
  with s1 s3 have "collectMbeanStatusValuesFor env c s = Done (Inr (\<lambda>m. if m \<in> set mbeans then nodes m else [])) s3"
    by (simp add: collectMbeanStatusValuesFor_def bind_def)
  with s4 s5 show ?thesis
    by (simp add: GatherMetricsFor_def collectRackInfoFor_def bind_def pass_def ring_status_def mbeans_def)
qed

section \<open>The ring on the gauges\<close>

definition ring_nodes :: "(string \<Rightarrow> string list) \<Rightarrow> string set" where
  "ring_nodes nodes = (\<Union>mbean \<in> set mbeans. set (nodes mbean))"

definition ring_label :: "(string \<Rightarrow> string list) \<Rightarrow> string \<Rightarrow> labelPair" where
  "ring_label nodes ip =
     \<lparr>liveness = (if ip \<in> set (nodes ''LiveNodes'') \<and> ip \<notin> set (nodes ''UnreachableNodes'') then ''up'' else ''down''),
      state = (if ip \<in> set (nodes ''JoiningNodes'') then ''joining''
               else if ip \<in> set (nodes ''MovingNodes'') then ''moving''
               else if ip \<in> set (nodes ''LeavingNodes'') then ''leaving''
               else ''normal'')\<rparr>"

definition ring_rack :: "(string \<Rightarrow> string list) \<Rightarrow> (string \<Rightarrow> string) \<Rightarrow> string \<Rightarrow> string" where
  "ring_rack nodes racks ip =
     (if ip \<in> set (nodes ''LiveNodes'') \<union> set (nodes ''UnreachableNodes'') then racks ip else ''unknown'')"

lemma ring_known: "known_nodes (ring_status nodes racks) = ring_nodes nodes"
  by (auto simp: known_nodes_def ring_status_def ring_nodes_def mbeans_def)

lemma fmlookup_racks: "fmlookup (fold (\<lambda>ip. fmupd ip (racks ip)) ips m) ip = (if ip \<in> set ips then Some (racks ip) else fmlookup m ip)"
  by (induction ips arbitrary: m) auto

lemma ring_rack_of_node: "rack_of_node (ring_status nodes racks) ip = ring_rack nodes racks ip"
  by (simp add: rack_of_node_def ring_status_def ring_rack_def fmlookup_racks del: fold_append set_append split: option.split) auto

lemma ring_applicable:
  "fmlookup (transformClusterStatus (ring_status nodes racks)) ip = Some n \<Longrightarrow> applicable n = ring_label nodes ip"
  unfolding transformClusterStatus_correct
  by (auto simp: applicable_def livenessLabel_def stateLabel_def ring_label_def ring_status_def split: if_splits)

text \<open>
  (C14) What Cassandra says of its nodes is what the gauges say. If the pods of the cluster could be listed
  and its Jolokia agents answer with the ring, in JSON of any layout and member order, then a collection
  of metrics returns, and afterwards every pod that is a node of the ring has the gauge of its rack, of
  its liveness and of its state at 1 and the seven other gauges of that rack at 0, and the size gauge
  counts these pods. A node without a live or unreachable entry is reported down, in an unknown rack.
\<close>

theorem ring_reaches_the_gauges:
  assumes "reads_json env" and "serves_ring env nodes racks"
    and "Intn_ok env" and "range_ok env" and "pods_ok env"
    and "podsInCluster env c s = Done (Inr podNames) t"
  shows "\<exists>s'. UpdateMetrics env c s = Done () s' \<and>
    (\<forall>ip pod l. ip \<in> ring_nodes nodes \<longrightarrow> fmlookup podNames ip = Some pod \<longrightarrow> l \<in> set allLabelPairs \<longrightarrow>
       node_gauge (trace s') (node_labels c (ring_rack nodes racks ip) pod l) =
         Some (if l = ring_label nodes ip then 1 else 0)) \<and>
    size_gauge (trace s') (size_labels c) =
      Some (int (card {pod. \<exists>ip \<in> ring_nodes nodes. fmlookup podNames ip = Some pod}))"
proof -
  let ?cs = "ring_status nodes racks"
  obtain t' where t': "GatherMetricsFor env c t = Done (Inr ?cs) t'"
    using GatherMetricsFor_ring [OF assms(1-4)] by blast
  obtain s' where s': "report_status env c podNames ?cs t' = Done () s'"
    using returnsD [OF returns_report_status] by (metis (full_types) unit.exhaust)
  have updated: "UpdateMetrics env c s = Done () s'"
    by (simp add: UpdateMetrics_def bind_def assms(6) t' s')
  have one: "one_pod_each podNames" by (rule podsInCluster_one [OF assms(5,6)])
  have "node_gauge (trace s') (node_labels c (ring_rack nodes racks ip) pod l) =
      Some (if l = ring_label nodes ip then 1 else 0)"
    if ip: "ip \<in> ring_nodes nodes" and "fmlookup podNames ip = Some pod" and "l \<in> set allLabelPairs" for ip pod l
  proof -
    obtain n where n: "fmlookup (transformClusterStatus ?cs) ip = Some n"
      using ip statuses_known [of ?cs ip] unfolding ring_known by blast
    with report_status_nodes [OF assms(4) one s'] that(2,3) show ?thesis
      unfolding reports_nodes_def ring_rack_of_node by (metis ring_applicable)
  qed
  moreover have "reported_pods ?cs podNames = {pod. \<exists>ip \<in> ring_nodes nodes. fmlookup podNames ip = Some pod}"
    by (auto simp: reported_pods_def ring_known)
  with report_status_topology [OF assms(4) one s'] have "size_gauge (trace s') (size_labels c) =
      Some (int (card {pod. \<exists>ip \<in> ring_nodes nodes. fmlookup podNames ip = Some pod}))" by auto
  ultimately show ?thesis using updated by blast
qed

section \<open>Witness\<close>

text \<open>
  Two live nodes, the second leaving, and an agent that answers as Jolokia does. The third pod of
  \<open>metrics_pods\<close> has no address.
\<close>

definition ends_in :: "string \<Rightarrow> string \<Rightarrow> bool" where
  "ends_in s x \<longleftrightarrow> take (length x) (rev s) = rev x"

definition two_nodes :: "string \<Rightarrow> string list" where
  "two_nodes mbean =
     (if mbean = ''LiveNodes'' then [''10.0.0.1'', ''10.0.0.2'']
      else if mbean = ''LeavingNodes'' then [''10.0.0.2''] else [])"

definition agent_value :: "string \<Rightarrow> json" where
  "agent_value url =
     (if ends_in url ''getRack/10.0.0.1'' \<or> ends_in url ''getRack/10.0.0.2'' then JString ''a''
      else if ends_in url ''/LiveNodes'' then JArray [JString ''10.0.0.1'', JString ''10.0.0.2'']
      else if ends_in url ''/LeavingNodes'' then JArray [JString ''10.0.0.2''] else JArray [])"

definition agent_answer :: "json \<Rightarrow> (string \<times> json) list" where
  "agent_answer v =
     [(''request'', JObject [(''mbean'', JString ''org.apache.cassandra.db:type=StorageService''), (''type'', JString ''read'')]),
      (''value'', v), (''timestamp'', JNumber ''1540''), (''status'', JNumber ''200'')]"

definition ring_env :: "nat Env" where
  "ring_env = sample_env
     \<lparr>api_pods := (\<lambda>r w. (Inr metrics_pods, w)),
      http_get := (\<lambda>r w. (case r of HttpGet url \<Rightarrow>
         (Inr \<lparr>hr_StatusCode = 200, hr_Body = Some (print_json (JObject (agent_answer (agent_value url))))\<rparr>, w)
         | _ \<Rightarrow> (Inl [], w))),
      Unmarshal_multi := unmarshal_multi (\<lambda>_. ''not JSON''),
      Unmarshal_single := unmarshal_single (\<lambda>_. ''not JSON'')\<rparr>"

lemma agent_names:
  "\<not> equal_fold ''Request'' ''value''" "\<not> equal_fold ''Request'' ''timestamp''" "\<not> equal_fold ''Request'' ''status''"
  "\<not> equal_fold ''Timestamp'' ''request''" "\<not> equal_fold ''Timestamp'' ''value''" "\<not> equal_fold ''Timestamp'' ''status''"
  "\<not> equal_fold ''Status'' ''request''" "\<not> equal_fold ''Status'' ''value''" "\<not> equal_fold ''Status'' ''timestamp''"
  "\<not> equal_fold ''Value'' ''request''" "\<not> equal_fold ''Value'' ''timestamp''" "\<not> equal_fold ''Value'' ''status''"
  "equal_fold ''Status'' ''status''" "equal_fold ''Value'' ''value''"
  by code_simp+

lemma agent_answers: "jolokia_answer 200 v (agent_answer v)"
proof -
  have "sint (1540 :: 64 word) = 1540" by simp
  moreover have "itoa 1540 = ''1540''" by code_simp
  ultimately have "itoa (sint (1540 :: 64 word)) = ''1540''" by simp
  then have "JNumber ''1540'' \<in> range (\<lambda>t :: 64 word. JNumber (itoa (sint t)))" by (metis rangeI)
  moreover have "itoa (uint (200 :: 16 word)) = ''200''" by code_simp
  ultimately show ?thesis
    by (simp add: jolokia_answer_def agent_answer_def answer_member_def has_member_def agent_names request_document_def)
qed

lemma agent_json: "parse_json (print_json (JObject (agent_answer (agent_value url)))) = Some (JObject (agent_answer (agent_value url)))"
proof (rule parse_json_print)
  have "valid_utf8 ''request''" "valid_utf8 ''value''" "valid_utf8 ''timestamp''" "valid_utf8 ''status''" "valid_utf8 ''mbean''"
    "valid_utf8 ''type''" "valid_utf8 ''org.apache.cassandra.db:type=StorageService''" "valid_utf8 ''read''"
    "scan_number ''1540'' = Some (''1540'', [])" "scan_number ''200'' = Some (''200'', [])"
    by code_simp+
  then have "wf_json v \<Longrightarrow> wf_json (JObject (agent_answer v))" for v by (simp add: agent_answer_def)
  moreover have "valid_utf8 ''a''" "valid_utf8 ''10.0.0.1''" "valid_utf8 ''10.0.0.2''" by code_simp+
  then have "wf_json (agent_value url)" by (simp add: agent_value_def)
  ultimately show "wf_json (JObject (agent_answer (agent_value url)))" .
qed

lemma ring_env_serves: "agent_value url = v \<Longrightarrow> serves ring_env url v"
  unfolding serves_def json_answer_def
  using agent_json agent_answers by (fastforce simp: ring_env_def simp del: print_json.simps)

lemma ring_env_ring: "serves_ring ring_env two_nodes (\<lambda>_. ''a'')"
  unfolding serves_ring_def
  by (auto simp: mbeans_def two_nodes_def agent_value_def ends_in_def mbean_url_def rack_url_def intro!: ring_env_serves)

lemma ring_env_ok: "reads_json ring_env" "Intn_ok ring_env" "range_ok ring_env" "pods_ok ring_env"
proof -
  show "reads_json ring_env" unfolding reads_json_def by (intro exI [of _ "\<lambda>_. ''not JSON''"]) (simp add: ring_env_def)
qed (simp_all add: Intn_ok_def range_ok_def pods_ok_def ring_env_def sample_env_def metrics_pods_def)

lemma ring_pods: "podsInCluster ring_env sample_cluster sample_sys =
    Done (Inr (fold (\<lambda>p. fmupd (pod_IP p) (pod_Name p)) metrics_pods fmempty))
      (sample_sys\<lparr>trace := [Request (ListPods (Cluster_Namespace sample_cluster) (''app='' @ Cluster_Name sample_cluster))]\<rparr>)"
  by (simp add: podsInCluster_def list_pods_def bind_def call_def pass_def ring_env_def sample_sys_def)

lemma ring_reaches_the_gauges_witness:
  "\<exists>s'. UpdateMetrics ring_env sample_cluster sample_sys = Done () s' \<and>
     node_gauge (trace s') (node_labels sample_cluster ''a'' ''pod-1'' \<lparr>liveness = ''up'', state = ''leaving''\<rparr>) = Some 1 \<and>
     node_gauge (trace s') (node_labels sample_cluster ''a'' ''pod-0'' \<lparr>liveness = ''up'', state = ''leaving''\<rparr>) = Some 0"
proof -
  from ring_reaches_the_gauges [OF ring_env_ok(1) ring_env_ring ring_env_ok(2-4) ring_pods] obtain s' where
    s': "UpdateMetrics ring_env sample_cluster sample_sys = Done () s'"
    and gauge: "\<And>ip pod l. ip \<in> ring_nodes two_nodes \<Longrightarrow>
      fmlookup (fold (\<lambda>p. fmupd (pod_IP p) (pod_Name p)) metrics_pods fmempty) ip = Some pod \<Longrightarrow> l \<in> set allLabelPairs \<Longrightarrow>
      node_gauge (trace s') (node_labels sample_cluster (ring_rack two_nodes (\<lambda>_. ''a'') ip) pod l) =
        Some (if l = ring_label two_nodes ip then 1 else 0)" by blast
  have "ring_rack two_nodes (\<lambda>_. ''a'') ''10.0.0.1'' = ''a''" "ring_rack two_nodes (\<lambda>_. ''a'') ''10.0.0.2'' = ''a''"
    "''10.0.0.1'' \<in> ring_nodes two_nodes" "''10.0.0.2'' \<in> ring_nodes two_nodes"
    "\<lparr>liveness = ''up'', state = ''leaving''\<rparr> = ring_label two_nodes ''10.0.0.2''"
    "\<lparr>liveness = ''up'', state = ''leaving''\<rparr> \<noteq> ring_label two_nodes ''10.0.0.1''"
    by (simp_all add: ring_rack_def two_nodes_def ring_nodes_def mbeans_def ring_label_def)
  with s' gauge [of "''10.0.0.2''" "''pod-1''" "\<lparr>liveness = ''up'', state = ''leaving''\<rparr>"]
    gauge [of "''10.0.0.1''" "''pod-0''" "\<lparr>liveness = ''up'', state = ''leaving''\<rparr>"]
  show ?thesis by (simp add: metrics_pods_def allLabelPairs_def)
qed

end
