(* ===== verification/Spec2Isabelle.thy ===== *)
theory Spec2Isabelle
  imports StoragePolicy Isolation OperatorMain DeepCopy Gauges SnapshotMain ConfigEncoding JolokiaJson
begin

text \<open>
  A model of the Cassandra operator for Kubernetes and of the snapshot tool it schedules, with the
  properties that make them correct.

  \<^bold>\<open>The program.\<close> The operator (\<^verbatim>\<open>cassandra-operator/\<close>) watches two kinds of objects through informers:
  \<^verbatim>\<open>Cassandra\<close> definitions and config maps. Their handlers, and a poll for metrics, turn what they
  see into events (\<^verbatim>\<open>pkg/operator/operator.go\<close>); a dispatcher queues the events per key
  (\<^verbatim>\<open>pkg/dispatcher/dispatcher.go\<close>); a receiver turns an event into operations and executes them
  (\<^verbatim>\<open>pkg/operator/operations/\<close>). The operations keep an in-memory cluster per definition
  (\<^verbatim>\<open>pkg/cluster/cluster.go\<close>), compute what changed (\<^verbatim>\<open>pkg/operator/operations/adjuster/\<close>), and create, patch
  and delete Kubernetes objects (\<^verbatim>\<open>pkg/cluster/accessor.go\<close>). The snapshot tool
  (\<^verbatim>\<open>cassandra-snapshot/\<close>) runs in the cron jobs that the operator creates: it runs nodetool in every pod
  of a cluster to take snapshots or to delete those that are too old.

  \<^bold>\<open>The theories\<close>, in the order of their imports:
  \<^item> \<open>Prelude\<close>: Go's integers, \<open>strconv\<close> and \<open>strings\<close>, the collections of simplification rules.
  \<^item> \<open>Types\<close>: the custom resource of \<^verbatim>\<open>pkg/apis/cassandra/v1alpha1/types.go\<close>, its names and comparisons.
  \<^item> \<open>ConfigHash\<close>: \<^verbatim>\<open>pkg/operator/hash/configmap_hash.go\<close>, with JSON, base64 and SHA-256.
  \<^item> \<open>Cluster\<close>: validation, defaults and the in-memory cluster, the first half of \<^verbatim>\<open>cluster.go\<close>.
  \<^item> \<open>KubeObjects\<close>, \<open>GoDuration\<close>, \<open>Resources\<close>: the second half of \<^verbatim>\<open>cluster.go\<close>, every Kubernetes object
    field by field, durations in wrapping 64-bit arithmetic, and the edits for custom config maps.
  \<^item> \<open>Adjuster\<close>: \<^verbatim>\<open>adjuster.go\<close>, the ordered list of changes and the patches, byte for byte.
  \<^item> \<open>Runtime\<close>: the state \<open>sys\<close> that the operator's code shares (clusters, heaps of clusters and of
    definitions, metrics topology, the trace of effects, a world), actions on it that return, panic
    or hang, and the record \<open>Env\<close> of everything outside.
  \<^item> \<open>Accessor\<close>: \<^verbatim>\<open>accessor.go\<close> and \<^verbatim>\<open>events.go\<close>, one action per request and the wait for a stateful set.
  \<^item> \<open>NodeStatus\<close>, \<open>Metrics\<close>: \<^verbatim>\<open>pkg/metrics/\<close>, node states from Jolokia and the Prometheus gauges.
  \<^item> \<open>Operations\<close>: one definition per \<open>Execute\<close> method of \<^verbatim>\<open>pkg/operator/operations/\<close>.
  \<^item> \<open>OperationsCorrect\<close>, \<open>OperationSafety\<close>: the logic of quiet actions and of memory writes, the invariant
    \<open>memory_ok\<close>, and what the operations promise.
  \<^item> \<open>Receiver\<close>: \<^verbatim>\<open>receiver.go\<close>, from events to operations, and the contract of an event handler.
  \<^item> \<open>OperatorEvents\<close>: the handlers and the poll of \<^verbatim>\<open>operator.go\<close>, \<^verbatim>\<open>status.go\<close>, \<^verbatim>\<open>cmd/operator/main.go\<close>.
  \<^item> \<open>Dispatcher\<close>: \<^verbatim>\<open>dispatcher.go\<close> as interleaved atomic actions of its goroutines.
  \<^item> \<open>OperatorSystem\<close>: handlers, dispatcher and receiver composed as \<open>New\<close> and \<open>Run\<close> compose them.
  \<^item> \<open>OperationFrame\<close>: a locale for what every operation keeps, from the effects it has and the memory it writes.
  \<^item> \<open>StoragePolicy\<close>, \<open>Isolation\<close>: its two instances, what the flag \<^verbatim>\<open>allow-empty-dir\<close> means for the whole
    operator, and that events about one cluster leave the others alone.
  \<^item> \<open>DeepCopy\<close>: \<^verbatim>\<open>zz_generated.deepcopy.go\<close> over a store of cells; it justifies that a definition is a
    value in the other theories wherever the code copies it.
  \<^item> \<open>ApiClient\<close>, \<open>Informers\<close>: \<^verbatim>\<open>pkg/client/\<close> and the registration of the types: the requests of the typed
    client and of its fake, the construction of clients, the factory of informers, the listers.
  \<^item> \<open>Gauges\<close>: the gauges as \<^verbatim>\<open>pkg/metrics/prometheus.go\<close> declares them.
  \<^item> \<open>GoJson\<close>, \<open>JsonRoundtrip\<close>: the scanner of \<open>encoding/json\<close>, and that it reads what \<open>json.Marshal\<close> writes.
    \<open>ConfigEncoding\<close>: what follows for the text that is hashed. \<open>JolokiaJson\<close>: the response types of
    \<^verbatim>\<open>metrics.go\<close>, their decoding, and the way from Jolokia's bytes to the gauges.
  \<^item> \<open>OperatorMain\<close>: \<^verbatim>\<open>cmd/operator/main.go\<close>, \<open>New\<close>, \<open>Run\<close> and the signal handler of \<^verbatim>\<open>operator.go\<close>: what is
    started, and the goroutines that can end the process.
  \<^item> \<open>Nodetool\<close>, \<open>SnapshotTool\<close>: \<^verbatim>\<open>cassandra-snapshot/\<close>, in a state monad over the commands run so far.
  \<^item> \<open>ParseDuration\<close>, \<open>SnapshotMain\<close>: its command line, and that the commands the operator writes into the cron
    jobs are read as it means them.

  \<^bold>\<open>State.\<close> Go's maps are finite maps, pointers to clusters and definitions are indices into heaps,
  since operations share and write them; pointers that are only read are options. A Go string
  is the list of its bytes. A map's iteration order is a permutation that \<open>Env\<close> chooses.

  \<^bold>\<open>What is shown.\<close> Of validation and defaults: exactly the valid definitions are accepted, and what is
  stored is complete. Of the objects built: no nil is read, every mount names a declared volume,
  edits preserve that and can be undone. Of the adjuster: exactly the forbidden changes are refused,
  changes come in order, and applying them gives the racks their sizes, with the exceptions
  that are stated. Of the operations: they return, never panic, keep the memory sound; adding and
  updating a cluster have exactly the effects they announce. Of the dispatcher: per key one event
  at a time, in order, none lost; it drains; a full channel blocks it. Of the composition:
  every event taken is handled, never two of one cluster at once, and the operator catches up. Without the flag for empty dirs, no set
  is created that keeps data in one. An event leaves the memory and the objects of all other clusters alone;
  but the map they share is written without a lock.
  Of the clients: a copy shares nothing with its original, the typed client is a map from names to
  definitions, an informer is built once and run once. Of the process: what runs after a start,
  each way a start can fail, and that it ends only by a signal or a failing server.
  Of the metrics: a collection writes exactly the gauges of the nodes it was told of, and read from the bytes
  of Jolokia's answers these are the nodes of the ring. Of the hash: the text that is hashed has the whole content of the config map.
  Of the snapshot tool: the cron jobs run it with the settings of the definition, a snapshot is taken on every pod, only old ones are deleted, and it is
  exactly the retention period in days that decides, up to the overflow of its duration.

  \<^bold>\<open>Assumptions.\<close> \<open>env_ok\<close> states what the code relies on of the outside: the polling loop is one
  that checks until its condition holds or fails (the locale \<open>poller\<close>, interpreted on a reference
  loop), iteration orders are permutations, random numbers are in range, a stateful set read from
  the server has its replicas set and a cron job read from the server has a container.
  \<open>lists_within\<close>: a listing of the cron jobs of a namespace has only jobs of that namespace.
  \<open>settles\<close> states that no wait for a stateful set goes on for ever; without it an operation may
  hang, which is an outcome of the model. Only the JSON parser of \<open>GoJson\<close> has fuel, twice the length of
  the input and one, and \<open>parse_fuel_suffices\<close> shows that more changes nothing. Loops of the code are recursive over
  lists, the wait is the polling loop of \<open>Env\<close>, which may return nothing, and the metrics poll,
  which runs for ever, is its first \<open>n\<close> rounds.

  \<^bold>\<open>Not modelled.\<close> Logging, except that the description of an operation is computed. What is inside the
  Kubernetes library: an informer is what it was built from and whether it runs, and its
  notifications arrive in any order; a REST client is a function on requests; the object tracker
  behind the fake clientset is left out. The decoding of Kubernetes objects, which is the library's,
  the parsing of the command line and the HTTP server: parameters, or nothing but their start.
  The Go memory model: two handlers of different keys run one after the other in the model,
  although the code lets them read and write the shared map of clusters at once; calls of
  \<open>Dispatch\<close>, channels and workers do interleave. The life of the process in \<open>OperatorMain\<close> leaves out
  panics of workers, which \<open>Receive\<close> has as outcomes. The operations take the decoders of Jolokia's answers from
  \<open>Env\<close>, as any functions; only \<open>JolokiaJson\<close> fixes them (\<open>reads_json\<close>), up to the texts of their errors. \<open>GetCassandraForCluster\<close> has no caller. The Java
  programs that run inside the pods (bootstrapper, seed provider) and the tests are outside this
  development.
\<close>

end
